(* ===== verification/Prelude.thy ===== *)
theory Prelude
  imports Complex_Main "HOL-Library.Sublist"
begin

text \<open>
  Shared ground of the development: the part of Python's \<open>str\<close> methods the backend uses, the
  half-even \<open>round\<close>, database sessions with commit and rollback
  (\<^verbatim>\<open>backend/app/core/database.py\<close>), and runs of guarded operations.

  A Python \<open>str\<close> is a HOL \<open>string\<close>: its code points are those below 256 (Latin-1), so
  \<open>length\<close> is Python's \<open>len\<close>. A Python \<open>float\<close> is a rational; the arithmetic of the
  model is exact.
\<close>

named_theorems tx_simps \<open>how the session combinators evaluate\<close>
named_theorems inv_intros \<open>one rule per operation: it keeps the component's invariant\<close>

subsection \<open>Python strings\<close>

type_synonym bytes = "nat list"

definition py_isspace :: "char \<Rightarrow> bool" where
  "py_isspace c =
     (let n = (of_char c :: nat)
      in (9 \<le> n \<and> n \<le> 13) \<or> (28 \<le> n \<and> n \<le> 32) \<or> n = 133 \<or> n = 160)"

definition py_lower_char :: "char \<Rightarrow> char" where
  "py_lower_char c =
     (let n = (of_char c :: nat)
      in if (65 \<le> n \<and> n \<le> 90) \<or> (192 \<le> n \<and> n \<le> 222 \<and> n \<noteq> 215)
         then char_of (n + 32) else c)"

definition py_lower :: "string \<Rightarrow> string" where
  "py_lower s = map py_lower_char s"

text \<open>\<open>s.strip(chars)\<close> removes a set of characters from both ends, \<open>s.strip()\<close> white space.\<close>

definition strip_by :: "(char \<Rightarrow> bool) \<Rightarrow> string \<Rightarrow> string" where
  "strip_by P s = rev (dropWhile P (rev (dropWhile P s)))"

definition py_strip :: "string \<Rightarrow> string" where
  "py_strip s = strip_by py_isspace s"

definition startswith :: "string \<Rightarrow> string \<Rightarrow> bool" where
  "startswith s p = (take (length p) s = p)"

text \<open>\<open>sep.join(parts)\<close>.\<close>

fun py_join :: "string \<Rightarrow> string list \<Rightarrow> string" where
  "py_join sep [] = []"
| "py_join sep [x] = x"
| "py_join sep (x # y # xs) = x @ sep @ py_join sep (y # xs)"

text \<open>\<open>s.split()\<close>: the maximal runs of non-space characters.\<close>

fun split_ws_acc :: "string \<Rightarrow> string \<Rightarrow> string list" where
  "split_ws_acc acc [] = (if acc = [] then [] else [rev acc])"
| "split_ws_acc acc (c # cs) =
     (if py_isspace c
      then (if acc = [] then split_ws_acc [] cs else rev acc # split_ws_acc [] cs)
      else split_ws_acc (c # acc) cs)"

definition py_words :: "string \<Rightarrow> string list" where
  "py_words s = split_ws_acc [] s"

text \<open>\<open>s.split(sep)\<close> for a separator that is not empty (the sources use constants).\<close>

function split_sep_acc :: "string \<Rightarrow> string \<Rightarrow> string \<Rightarrow> string list" where
  "split_sep_acc sep acc s =
     (if s = [] then [rev acc]
      else if sep \<noteq> [] \<and> startswith s sep
      then rev acc # split_sep_acc sep [] (drop (length sep) s)
      else split_sep_acc sep (hd s # acc) (tl s))"
  by pat_completeness auto
termination
  by (relation "measure (\<lambda>(sep, acc, s). length s)") (auto simp: Suc_le_eq)

declare split_sep_acc.simps [simp del]

definition py_split :: "string \<Rightarrow> string \<Rightarrow> string list" where
  "py_split sep s = split_sep_acc sep [] s"

text \<open>\<open>s.rsplit(c, 1)[0]\<close> and \<open>s.rsplit(c, 1)[-1]\<close> for a one-character separator.\<close>

definition rsplit_head :: "char \<Rightarrow> string \<Rightarrow> string" where
  "rsplit_head c s =
     (if c \<in> set s then rev (tl (dropWhile (\<lambda>x. x \<noteq> c) (rev s))) else s)"

definition rsplit_last :: "char \<Rightarrow> string \<Rightarrow> string" where
  "rsplit_last c s = rev (takeWhile (\<lambda>x. x \<noteq> c) (rev s))"

text \<open>\<open>s.partition(c)\<close>: the text before the first \<open>c\<close>, whether it occurs, and the text after.\<close>

definition py_partition :: "char \<Rightarrow> string \<Rightarrow> string \<times> string" where
  "py_partition c s = (takeWhile (\<lambda>x. x \<noteq> c) s, tl (dropWhile (\<lambda>x. x \<noteq> c) s))"

text \<open>\<open>str(n)\<close> of an integer.\<close>

fun nat_digits :: "nat \<Rightarrow> string" where
  "nat_digits n =
     (if n < 10 then [char_of (48 + n)] else nat_digits (n div 10) @ [char_of (48 + n mod 10)])"

declare nat_digits.simps [simp del]

definition str_int :: "int \<Rightarrow> string" where
  "str_int i = (if i < 0 then ''-'' @ nat_digits (nat (- i)) else nat_digits (nat i))"

text \<open>\<open>round(x)\<close> rounds half to even; \<open>round(x, 4)\<close> does so at the fourth decimal.\<close>

definition round_half_even :: "rat \<Rightarrow> int" where
  "round_half_even x =
     (let f = \<lfloor>x\<rfloor>; d = x - of_int f
      in if d < 1 / 2 then f else if d > 1 / 2 then f + 1 else if even f then f else f + 1)"

definition round_to :: "nat \<Rightarrow> rat \<Rightarrow> rat" where
  "round_to n x = of_int (round_half_even (x * 10 ^ n)) / 10 ^ n"

subsection \<open>Lemmas on strings and rounding\<close>

lemma py_lower_char_idem [simp]: "py_lower_char (py_lower_char c) = py_lower_char c"
  by (auto simp: py_lower_char_def Let_def)

lemma py_lower_idem [simp]: "py_lower (py_lower s) = py_lower s"
  by (simp add: py_lower_def)

lemma length_filter_mono:
  "(\<And>x. x \<in> set xs \<Longrightarrow> P x \<Longrightarrow> Q x) \<Longrightarrow> length (filter P xs) \<le> length (filter Q xs)"
  by (induction xs) (auto simp: le_SucI)

lemma concat_slices_take:
  "concat (map (\<lambda>n. take k (drop (k * n) xs)) [0..<m]) = take (k * m) xs"
proof (induction m)
  case (Suc m)
  then show ?case by (simp add: take_add [symmetric] add.commute)
qed simp

lemma concat_slices [simp]:
  "0 < k \<Longrightarrow> concat (map (\<lambda>n. take k (drop (k * n) xs)) [0..<(length xs + k - 1) div k]) = xs"
proof -
  assume k: "0 < k"
  have "length xs \<le> k * ((length xs + k - 1) div k)"
    using k dividend_less_times_div [of k "length xs + k - 1"] by linarith
  then show ?thesis by (simp add: concat_slices_take)
qed

lemma py_join_Cons: "ys \<noteq> [] \<Longrightarrow> py_join sep (y # ys) = y @ sep @ py_join sep ys"
  by (cases ys) auto

lemma py_join_append:
  "xs \<noteq> [] \<Longrightarrow> ys \<noteq> [] \<Longrightarrow> py_join sep (xs @ ys) = py_join sep xs @ sep @ py_join sep ys"
proof (induction xs)
  case (Cons x xs)
  then show ?case by (cases xs) (simp_all add: py_join_Cons)
qed simp

lemma py_join_snoc: "xs \<noteq> [] \<Longrightarrow> py_join sep (xs @ [y]) = py_join sep xs @ sep @ y"
  by (simp add: py_join_append)

lemma split_ws_acc_word:
  "\<forall>c \<in> set w. \<not> py_isspace c \<Longrightarrow> split_ws_acc acc (w @ s) = split_ws_acc (rev w @ acc) s"
  by (induction w arbitrary: acc) auto

definition is_word :: "string \<Rightarrow> bool" where
  "is_word w = (w \<noteq> [] \<and> (\<forall>c \<in> set w. \<not> py_isspace c))"

lemma split_ws_acc_props:
  "acc = [] \<or> is_word acc \<Longrightarrow> w \<in> set (split_ws_acc acc s) \<Longrightarrow> is_word w"
proof (induction s arbitrary: acc)
  case (Cons c s)
  have rev_word: "is_word (rev acc)" if "acc \<noteq> []"
    using that Cons.prems(1) by (auto simp: is_word_def)
  have ext_word: "is_word (c # acc)" if "\<not> py_isspace c"
    using that Cons.prems(1) by (auto simp: is_word_def)
  from Cons.prems(2) show ?case
    by (auto split: if_splits intro: Cons.IH rev_word ext_word)
qed (auto simp: is_word_def split: if_splits)

lemma py_words_props:
  "w \<in> set (py_words s) \<Longrightarrow> w \<noteq> []"
  "w \<in> set (py_words s) \<Longrightarrow> c \<in> set w \<Longrightarrow> \<not> py_isspace c"
  using split_ws_acc_props [of "[]" w s] unfolding py_words_def is_word_def by blast+

lemma space_isspace [simp]: "py_isspace CHR '' ''"
  by (simp add: py_isspace_def)

lemma py_words_no_space: "w \<in> set (py_words s) \<Longrightarrow> CHR '' '' \<notin> set w"
  using py_words_props(2) space_isspace by blast

lemma split_ws_acc_Nil: "\<forall>c \<in> set s. py_isspace c \<Longrightarrow> split_ws_acc [] s = []"
  by (induction s) auto

text \<open>Joining words with a space and splitting again gives the words back.\<close>

lemma py_words_join:
  "(\<And>w. w \<in> set ws \<Longrightarrow> w \<noteq> [] \<and> (\<forall>c \<in> set w. \<not> py_isspace c)) \<Longrightarrow>
   py_words (py_join '' '' ws) = ws"
proof (induction ws rule: induct_list012)
  case 1
  then show ?case by (simp add: py_words_def)
next
  case (2 w)
  then show ?case
    using split_ws_acc_word [of w "[]" "[]"] by (simp add: py_words_def)
next
  case (3 w v ws)
  have w: "w \<noteq> []" "\<forall>c \<in> set w. \<not> py_isspace c" using "3.prems" by auto
  have "split_ws_acc [] (w @ '' '' @ py_join '' '' (v # ws))
      = split_ws_acc (rev w) ('' '' @ py_join '' '' (v # ws))"
    using split_ws_acc_word [OF w(2), of "[]"] by simp
  also have "\<dots> = w # split_ws_acc [] (py_join '' '' (v # ws))"
    using w(1) by simp
  also have "split_ws_acc [] (py_join '' '' (v # ws)) = v # ws"
  proof -
    have "py_words (py_join '' '' (v # ws)) = v # ws"
      by (rule "3.IH"(2)) (use "3.prems" in auto)
    then show ?thesis by (simp add: py_words_def)
  qed
  finally show ?case by (simp add: py_words_def)
qed

lemma round_half_even_mono: "x \<le> y \<Longrightarrow> round_half_even x \<le> round_half_even y"
proof -
  assume le: "x \<le> y"
  then have fl: "\<lfloor>x\<rfloor> \<le> \<lfloor>y\<rfloor>" by (rule floor_mono)
  show ?thesis
  proof (cases "\<lfloor>x\<rfloor> = \<lfloor>y\<rfloor>")
    case True
    with le show ?thesis by (auto simp: round_half_even_def Let_def)
  next
    case False
    with fl have "\<lfloor>x\<rfloor> + 1 \<le> \<lfloor>y\<rfloor>" by simp
    moreover have "round_half_even x \<le> \<lfloor>x\<rfloor> + 1" and "\<lfloor>y\<rfloor> \<le> round_half_even y"
      by (auto simp: round_half_even_def Let_def)
    ultimately show ?thesis by linarith
  qed
qed

lemma round_half_even_of_int [simp]: "round_half_even (of_int i) = i"
  by (simp add: round_half_even_def)

lemma round_to_mono: "x \<le> y \<Longrightarrow> round_to n x \<le> round_to n y"
  by (simp add: round_to_def divide_right_mono round_half_even_mono)

lemma round_to_of_int [simp]: "round_to n (of_int i) = of_int i"
proof -
  have "(of_int i :: rat) * 10 ^ n = of_int (i * 10 ^ n)" by simp
  then show ?thesis unfolding round_to_def by (simp only: round_half_even_of_int) simp
qed

lemma round_to_0_1 [simp]: "round_to n 0 = 0" "round_to n 1 = 1"
  using round_to_of_int [of n 0] round_to_of_int [of n 1] by simp_all

subsection \<open>Database sessions\<close>

text \<open>
  An \<open>AsyncSession\<close> is the committed database together with the working copy the request has
  changed so far. An operation takes the session and returns a result (\<open>Inl\<close>: the exception it
  raised) with the session it leaves.
\<close>

record 'd session =
  committed :: 'd
  working :: 'd

type_synonym ('d, 'e, 'a) tx = "'d session \<Rightarrow> ('e + 'a) \<times> 'd session"

definition tx_return :: "'a \<Rightarrow> ('d, 'e, 'a) tx" where
  "tx_return x = (\<lambda>s. (Inr x, s))"

definition tx_raise :: "'e \<Rightarrow> ('d, 'e, 'a) tx" where
  "tx_raise e = (\<lambda>s. (Inl e, s))"

definition tx_bind :: "('d, 'e, 'a) tx \<Rightarrow> ('a \<Rightarrow> ('d, 'e, 'b) tx) \<Rightarrow> ('d, 'e, 'b) tx" where
  "tx_bind m f = (\<lambda>s. case m s of (Inl e, s') \<Rightarrow> (Inl e, s') | (Inr x, s') \<Rightarrow> f x s')"

definition tx_seq :: "('d, 'e, 'a) tx \<Rightarrow> ('d, 'e, 'b) tx \<Rightarrow> ('d, 'e, 'b) tx" where
  "tx_seq m k = tx_bind m (\<lambda>_. k)"

definition tx_lift :: "'e + 'a \<Rightarrow> ('d, 'e, 'a) tx" where
  "tx_lift r = (\<lambda>s. (r, s))"

definition tx_read :: "('d \<Rightarrow> 'a) \<Rightarrow> ('d, 'e, 'a) tx" where
  "tx_read f = (\<lambda>s. (Inr (f (working s)), s))"

definition tx_query :: "('d \<Rightarrow> 'e + 'a) \<Rightarrow> ('d, 'e, 'a) tx" where
  "tx_query f = (\<lambda>s. (f (working s), s))"

definition tx_modify :: "('d \<Rightarrow> 'd) \<Rightarrow> ('d, 'e, unit) tx" where
  "tx_modify f = (\<lambda>s. (Inr (), s\<lparr>working := f (working s)\<rparr>))"

definition tx_update :: "('d \<Rightarrow> 'e + 'd) \<Rightarrow> ('d, 'e, unit) tx" where
  "tx_update f = (\<lambda>s. case f (working s) of
     Inl e \<Rightarrow> (Inl e, s) | Inr d \<Rightarrow> (Inr (), s\<lparr>working := d\<rparr>))"

definition tx_commit :: "('d, 'e, unit) tx" where
  "tx_commit = (\<lambda>s. (Inr (), s\<lparr>committed := working s\<rparr>))"

definition open_session :: "'d \<Rightarrow> 'd session" where
  "open_session d = \<lparr>committed = d, working = d\<rparr>"

text \<open>
  \<open>get_db\<close>: a request runs in its own session, which commits when the handler returns and rolls
  back when it raises; the result is what the caller sees and the database left behind.
\<close>

definition get_db :: "('d, 'e, 'a) tx \<Rightarrow> 'd \<Rightarrow> ('e + 'a) \<times> 'd" where
  "get_db op d =
     (case op (open_session d) of
        (Inl e, s) \<Rightarrow> (Inl e, committed s)
      | (Inr x, s) \<Rightarrow> (Inr x, working s))"

lemma tx_bind_simps [tx_simps]:
  "tx_bind (tx_return x) f s = f x s"
  "tx_bind (tx_raise e) f s = (Inl e, s)"
  "tx_bind (tx_lift r) f s = (case r of Inl e \<Rightarrow> (Inl e, s) | Inr x \<Rightarrow> f x s)"
  "tx_bind (tx_read rd) f s = f (rd (working s)) s"
  "tx_bind (tx_modify h) k s = k () (s\<lparr>working := h (working s)\<rparr>)"
  "tx_bind tx_commit k s = k () (s\<lparr>committed := working s\<rparr>)"
  "tx_bind (tx_query q) f s = (case q (working s) of Inl e \<Rightarrow> (Inl e, s) | Inr x \<Rightarrow> f x s)"
  "tx_bind (tx_update u) k s =
     (case u (working s) of Inl e \<Rightarrow> (Inl e, s) | Inr d \<Rightarrow> k () (s\<lparr>working := d\<rparr>))"
  "tx_bind (tx_bind m0 g) f s = tx_bind m0 (\<lambda>x. tx_bind (g x) f) s"
  "tx_bind (if b then m1 else m2) f s = (if b then tx_bind m1 f s else tx_bind m2 f s)"
  by (auto simp: tx_bind_def tx_return_def tx_raise_def tx_lift_def tx_read_def tx_modify_def
      tx_commit_def tx_query_def tx_update_def split: prod.splits sum.splits)

lemma tx_run_simps [tx_simps]:
  "tx_return x s = (Inr x, s)"
  "tx_raise e s = (Inl e, s)"
  "tx_lift r s = (r, s)"
  "tx_modify h s = (Inr (), s\<lparr>working := h (working s)\<rparr>)"
  "tx_commit s = (Inr (), s\<lparr>committed := working s\<rparr>)"
  "tx_seq m k = tx_bind m (\<lambda>_. k)"
  by (simp_all add: tx_return_def tx_raise_def tx_lift_def tx_modify_def tx_commit_def tx_seq_def)

lemma open_session_simps [simp]:
  "committed (open_session d) = d" "working (open_session d) = d"
  by (simp_all add: open_session_def)

text \<open>An operation keeps a property of the database if it does so in both copies, however it ends.\<close>

definition tx_keeps :: "('d \<Rightarrow> bool) \<Rightarrow> ('d, 'e, 'a) tx \<Rightarrow> bool" where
  "tx_keeps P m \<longleftrightarrow> (\<forall>s. P (committed s) \<longrightarrow> P (working s) \<longrightarrow>
     P (committed (snd (m s))) \<and> P (working (snd (m s))))"

lemma tx_keeps_intros [inv_intros]:
  "tx_keeps P (tx_return x)"
  "tx_keeps P (tx_raise e)"
  "tx_keeps P (tx_lift r)"
  "tx_keeps P (tx_read f)"
  "tx_keeps P (tx_query q)"
  "tx_keeps P tx_commit"
  by (auto simp: tx_keeps_def tx_return_def tx_raise_def tx_lift_def tx_read_def tx_query_def
      tx_commit_def split: sum.splits)

lemma tx_keeps_modify: "(\<And>d. P d \<Longrightarrow> P (h d)) \<Longrightarrow> tx_keeps P (tx_modify h)"
  by (simp add: tx_keeps_def tx_modify_def)

lemma tx_keeps_update: "(\<And>d d'. P d \<Longrightarrow> u d = Inr d' \<Longrightarrow> P d') \<Longrightarrow> tx_keeps P (tx_update u)"
  by (auto simp: tx_keeps_def tx_update_def split: sum.split)

lemma tx_keeps_bind [inv_intros]:
  fixes m :: "('a, 'e, 'b) tx"
  shows "tx_keeps P m \<Longrightarrow> (\<And>x. tx_keeps P (f x)) \<Longrightarrow> tx_keeps P (tx_bind m f)"
proof -
  assume m: "tx_keeps P m" and f: "\<And>x. tx_keeps P (f x)"
  show "tx_keeps P (tx_bind m f)"
    unfolding tx_keeps_def
  proof (intro allI impI)
    fix s :: "'a session"
    assume s: "P (committed s)" "P (working s)"
    obtain r s' where run: "m s = (r, s')" by fastforce
    then have s': "P (committed s')" "P (working s')" using m s unfolding tx_keeps_def by fastforce+
    show "P (committed (snd (tx_bind m f s))) \<and> P (working (snd (tx_bind m f s)))"
      using s' f run by (cases r) (auto simp: tx_bind_def tx_keeps_def)
  qed
qed

lemma tx_keeps_seq [inv_intros]: "tx_keeps P m \<Longrightarrow> tx_keeps P k \<Longrightarrow> tx_keeps P (tx_seq m k)"
  by (simp add: tx_seq_def tx_keeps_bind)

lemma tx_keeps_if [inv_intros]:
  "(b \<Longrightarrow> tx_keeps P m) \<Longrightarrow> (\<not> b \<Longrightarrow> tx_keeps P k) \<Longrightarrow> tx_keeps P (if b then m else k)"
  by simp

lemma tx_keeps_option [inv_intros]:
  "(x = None \<Longrightarrow> tx_keeps P m) \<Longrightarrow> (\<And>y. x = Some y \<Longrightarrow> tx_keeps P (f y)) \<Longrightarrow>
   tx_keeps P (case x of None \<Rightarrow> m | Some y \<Rightarrow> f y)"
  by (cases x) auto

lemma tx_keeps_pair [inv_intros]: "(\<And>a b. tx_keeps P (f a b)) \<Longrightarrow> tx_keeps P (case x of (a, b) \<Rightarrow> f a b)"
  by (cases x) auto

lemma get_db_keeps: "tx_keeps P m \<Longrightarrow> P d \<Longrightarrow> P (snd (get_db m d))"
proof -
  assume m: "tx_keeps P m" and d: "P d"
  obtain r s where run: "m (open_session d) = (r, s)" by fastforce
  have "P (committed s)" "P (working s)"
    using m d run unfolding tx_keeps_def by (metis open_session_simps snd_conv)+
  then show "P (snd (get_db m d))" using run by (cases r) (auto simp: get_db_def)
qed

text \<open>
  An operation that does not commit leaves no trace when it raises; an operation frames a view of
  the database if it does not change it in the working copy.
\<close>

definition tx_clean :: "('d, 'e, 'a) tx \<Rightarrow> bool" where
  "tx_clean m \<longleftrightarrow> (\<forall>s. committed (snd (m s)) = committed s)"

definition tx_frame :: "('d \<Rightarrow> 'v) \<Rightarrow> ('d, 'e, 'a) tx \<Rightarrow> bool" where
  "tx_frame v m \<longleftrightarrow> (\<forall>s. v (working (snd (m s))) = v (working s))"

lemma tx_clean_intros [inv_intros]:
  "tx_clean (tx_return x)" "tx_clean (tx_raise e)" "tx_clean (tx_lift r)" "tx_clean (tx_read f)"
  "tx_clean (tx_query q)" "tx_clean (tx_modify h)" "tx_clean (tx_update u)"
  by (auto simp: tx_clean_def tx_return_def tx_raise_def tx_lift_def tx_read_def tx_query_def
      tx_modify_def tx_update_def split: sum.splits)

lemma tx_frame_intros [inv_intros]:
  "tx_frame v (tx_return x)" "tx_frame v (tx_raise e)" "tx_frame v (tx_lift r)" "tx_frame v (tx_read f)"
  "tx_frame v (tx_query q)" "tx_frame v tx_commit"
  by (auto simp: tx_frame_def tx_return_def tx_raise_def tx_lift_def tx_read_def tx_query_def
      tx_commit_def split: sum.splits)

lemma tx_frame_modify: "(\<And>d. v (h d) = v d) \<Longrightarrow> tx_frame v (tx_modify h)"
  by (simp add: tx_frame_def tx_modify_def)

lemma tx_frame_update: "(\<And>d d'. u d = Inr d' \<Longrightarrow> v d' = v d) \<Longrightarrow> tx_frame v (tx_update u)"
  by (auto simp: tx_frame_def tx_update_def split: sum.split)

lemma tx_bind_cases: "(\<exists>e s'. m s = (Inl e, s') \<and> tx_bind m f s = (Inl e, s')) \<or>
    (\<exists>x s'. m s = (Inr x, s') \<and> tx_bind m f s = f x s')"
  by (cases "m s"; cases "fst (m s)") (auto simp: tx_bind_def)

lemma tx_clean_bind [inv_intros]: "tx_clean m \<Longrightarrow> (\<And>x. tx_clean (f x)) \<Longrightarrow> tx_clean (tx_bind m f)"
  unfolding tx_clean_def using tx_bind_cases [of m _ f] by (metis snd_conv)

lemma tx_frame_bind [inv_intros]: "tx_frame v m \<Longrightarrow> (\<And>x. tx_frame v (f x)) \<Longrightarrow> tx_frame v (tx_bind m f)"
  unfolding tx_frame_def using tx_bind_cases [of m _ f] by (metis snd_conv)

lemma tx_clean_cases [inv_intros]:
  "tx_clean m \<Longrightarrow> tx_clean k \<Longrightarrow> tx_clean (tx_seq m k)"
  "tx_clean m1 \<Longrightarrow> tx_clean m2 \<Longrightarrow> tx_clean (if b then m1 else m2)"
  "tx_clean m0 \<Longrightarrow> (\<And>y. tx_clean (g y)) \<Longrightarrow> tx_clean (case x of None \<Rightarrow> m0 | Some y \<Rightarrow> g y)"
  "(\<And>a b. tx_clean (h a b)) \<Longrightarrow> tx_clean (case p of (a, b) \<Rightarrow> h a b)"
  by (auto simp: tx_seq_def intro: tx_clean_bind split: option.split prod.split)

lemma tx_frame_cases [inv_intros]:
  "tx_frame v m \<Longrightarrow> tx_frame v k \<Longrightarrow> tx_frame v (tx_seq m k)"
  "tx_frame v m1 \<Longrightarrow> tx_frame v m2 \<Longrightarrow> tx_frame v (if b then m1 else m2)"
  "tx_frame v m0 \<Longrightarrow> (\<And>y. tx_frame v (g y)) \<Longrightarrow> tx_frame v (case x of None \<Rightarrow> m0 | Some y \<Rightarrow> g y)"
  "(\<And>a b. tx_frame v (h a b)) \<Longrightarrow> tx_frame v (case p of (a, b) \<Rightarrow> h a b)"
  by (auto simp: tx_seq_def intro: tx_frame_bind split: option.split prod.split)

lemma get_db_clean: "tx_clean m \<Longrightarrow> fst (get_db m d) = Inl e \<Longrightarrow> snd (get_db m d) = d"
  by (auto simp: tx_clean_def get_db_def split: prod.splits sum.splits)
    (metis open_session_simps(1) snd_conv)

lemma get_db_frame: "tx_frame v m \<Longrightarrow> get_db m d = (Inr x, d') \<Longrightarrow> v d' = v d"
  unfolding get_db_def tx_frame_def
  by (cases "m (open_session d)"; cases "fst (m (open_session d))")
    (auto, metis open_session_simps(2) snd_conv)

text \<open>An operation keeps a property of the working copy.\<close>

definition tx_works :: "('d \<Rightarrow> bool) \<Rightarrow> ('d, 'e, 'a) tx \<Rightarrow> bool" where
  "tx_works P m \<longleftrightarrow> (\<forall>s. P (working s) \<longrightarrow> P (working (snd (m s))))"

lemma tx_works_intros [inv_intros]:
  "tx_works P (tx_return x)" "tx_works P (tx_raise e)" "tx_works P (tx_lift r)" "tx_works P (tx_read f)"
  "tx_works P (tx_query q)" "tx_works P tx_commit"
  by (auto simp: tx_works_def tx_return_def tx_raise_def tx_lift_def tx_read_def tx_query_def
      tx_commit_def split: sum.splits)

lemma tx_works_modify: "(\<And>d. P d \<Longrightarrow> P (h d)) \<Longrightarrow> tx_works P (tx_modify h)"
  by (simp add: tx_works_def tx_modify_def)

lemma tx_works_update: "(\<And>d d'. P d \<Longrightarrow> u d = Inr d' \<Longrightarrow> P d') \<Longrightarrow> tx_works P (tx_update u)"
  by (auto simp: tx_works_def tx_update_def split: sum.split)

lemma tx_works_bind [inv_intros]: "tx_works P m \<Longrightarrow> (\<And>x. tx_works P (f x)) \<Longrightarrow> tx_works P (tx_bind m f)"
  unfolding tx_works_def using tx_bind_cases [of m _ f] by (metis snd_conv)

lemma tx_works_cases [inv_intros]:
  "tx_works P m \<Longrightarrow> tx_works P k \<Longrightarrow> tx_works P (tx_seq m k)"
  "tx_works P m1 \<Longrightarrow> tx_works P m2 \<Longrightarrow> tx_works P (if b then m1 else m2)"
  "tx_works P m0 \<Longrightarrow> (\<And>y. tx_works P (g y)) \<Longrightarrow> tx_works P (case x of None \<Rightarrow> m0 | Some y \<Rightarrow> g y)"
  "(\<And>a b. tx_works P (h a b)) \<Longrightarrow> tx_works P (case p of (a, b) \<Rightarrow> h a b)"
  by (auto simp: tx_seq_def intro: tx_works_bind split: option.split prod.split)

lemma get_db_Inr: "get_db m d = (Inr x, d') \<longleftrightarrow> (\<exists>s. m (open_session d) = (Inr x, s) \<and> d' = working s)"
  by (auto simp: get_db_def split: prod.splits sum.splits)

lemma get_db_Inl: "get_db m d = (Inl e, d') \<longleftrightarrow> (\<exists>s. m (open_session d) = (Inl e, s) \<and> d' = committed s)"
  by (auto simp: get_db_def split: prod.splits sum.splits)

lemma tx_bind_InrD: "tx_bind m f s = (Inr y, s') \<Longrightarrow> \<exists>x s1. m s = (Inr x, s1) \<and> f x s1 = (Inr y, s')"
  by (auto simp: tx_bind_def split: prod.splits sum.splits)

subsection \<open>Runs of operations that keep an invariant\<close>

text \<open>
  A component is a step function over its operations; an invariant that every step keeps holds
  after every run. The components of the development interpret this locale.
\<close>

locale guarded_steps =
  fixes step :: "'s \<Rightarrow> 'op \<Rightarrow> 's"
    and inv :: "'s \<Rightarrow> bool"
  assumes step_inv: "inv s \<Longrightarrow> inv (step s x)"
begin

lemma run_inv: "inv s \<Longrightarrow> inv (foldl step s xs)"
  by (induction xs arbitrary: s) (auto intro: step_inv)

lemma run_prefix_inv: "inv s \<Longrightarrow> inv (foldl step s (take n xs))"
  by (rule run_inv)

end

subsection \<open>Tenants\<close>

text \<open>
  A component shared by workspaces: every operation has an owner, and a view shows what one
  workspace sees. If an operation leaves the views of the other workspaces alone, and what it does
  to the view of its owner depends on that view only, then a run looks to a workspace as if
  only its own operations had happened.
\<close>

locale tenant_scoped =
  fixes step :: "'s \<Rightarrow> 'op \<Rightarrow> 's"
    and owner :: "'op \<Rightarrow> 'ws"
    and view :: "'ws \<Rightarrow> 's \<Rightarrow> 'v"
  assumes step_other: "owner x \<noteq> ws \<Longrightarrow> view ws (step s x) = view ws s"
    and step_own: "owner x = ws \<Longrightarrow> view ws s = view ws s' \<Longrightarrow> view ws (step s x) = view ws (step s' x)"
begin

lemma run_own:
  "view ws s = view ws s' \<Longrightarrow>
   view ws (foldl step s xs) = view ws (foldl step s' (filter (\<lambda>x. owner x = ws) xs))"
proof (induction xs arbitrary: s s')
  case (Cons x xs)
  show ?case
  proof (cases "owner x = ws")
    case True
    with Cons.prems have "view ws (step s x) = view ws (step s' x)" by (intro step_own)
    from Cons.IH [OF this] True show ?thesis by simp
  next
    case False
    then have "view ws (step s x) = view ws s'" using Cons.prems step_other [of x ws s] by simp
    from Cons.IH [OF this] False show ?thesis by simp
  qed
qed simp

lemma run_isolated: "view ws (foldl step s xs) = view ws (foldl step s (filter (\<lambda>x. owner x = ws) xs))"
  by (rule run_own) simp

lemma run_others: "\<forall>x \<in> set xs. owner x \<noteq> ws \<Longrightarrow> view ws (foldl step s xs) = view ws s"
proof (induction xs arbitrary: s)
  case (Cons x xs)
  then show ?case using step_other [of x ws s] by simp
qed simp

end

end
