(* ===== verification/Errors.thy ===== *)
theory Errors
  imports Prelude
begin

text \<open>
  The application error hierarchy (\<^verbatim>\<open>app/core/errors.py\<close>), the handlers of
  \<^verbatim>\<open>app/main.py\<close> that turn an exception into the JSON error envelope, and the request-id
  middleware (\<^verbatim>\<open>app/core/middleware.py\<close>).
\<close>

datatype app_class =
    AppErrorBase
  | BadRequestError
  | InvalidFileTypeError
  | UnauthorizedError
  | ForbiddenError
  | NotFoundError
  | ConflictError
  | UnprocessableError
  | LastAdminError
  | RateLimitError
  | UpstreamAIError

fun status_code :: "app_class \<Rightarrow> nat" where
  "status_code AppErrorBase = 400"
| "status_code BadRequestError = 400"
| "status_code InvalidFileTypeError = 400"
| "status_code UnauthorizedError = 401"
| "status_code ForbiddenError = 403"
| "status_code NotFoundError = 404"
| "status_code ConflictError = 409"
| "status_code UnprocessableError = 422"
| "status_code LastAdminError = 422"
| "status_code RateLimitError = 429"
| "status_code UpstreamAIError = 502"

fun class_error_code :: "app_class \<Rightarrow> string" where
  "class_error_code AppErrorBase = ''BAD_REQUEST''"
| "class_error_code BadRequestError = ''BAD_REQUEST''"
| "class_error_code InvalidFileTypeError = ''INVALID_FILE_TYPE''"
| "class_error_code UnauthorizedError = ''UNAUTHENTICATED''"
| "class_error_code ForbiddenError = ''FORBIDDEN''"
| "class_error_code NotFoundError = ''NOT_FOUND''"
| "class_error_code ConflictError = ''CONFLICT''"
| "class_error_code UnprocessableError = ''UNPROCESSABLE''"
| "class_error_code LastAdminError = ''LAST_ADMIN''"
| "class_error_code RateLimitError = ''RATE_LIMITED''"
| "class_error_code UpstreamAIError = ''UPSTREAM_AI_ERROR''"

record app_error =
  ae_class :: app_class
  ae_message :: string
  ae_error_code :: string
  ae_retry_after :: "int option"

text \<open>\<open>AppError.__init__\<close>: an error code that is given and not empty replaces the class's.\<close>

definition app_error :: "app_class \<Rightarrow> string \<Rightarrow> string option \<Rightarrow> app_error" where
  "app_error cls message code =
     \<lparr>ae_class = cls, ae_message = message,
      ae_error_code = (case code of
          None \<Rightarrow> class_error_code cls
        | Some c \<Rightarrow> (if c = [] then class_error_code cls else c)),
      ae_retry_after = None\<rparr>"

definition rate_limit_error :: "string \<Rightarrow> int \<Rightarrow> app_error" where
  "rate_limit_error message retry_after =
     (app_error RateLimitError message None)\<lparr>ae_retry_after := Some retry_after\<rparr>"

text \<open>
  Every exception the program raises or handles: its own hierarchy, the framework's HTTP and
  validation errors (a validation error carries the \<open>msg\<close> of each entry, if it has one), and any
  other Python exception by class name and text.
\<close>

datatype exn =
    AppError app_error
  | HttpError nat string
  | ValidationError "string option list"
  | PyError string string

definition raise_app :: "app_class \<Rightarrow> string \<Rightarrow> exn" where
  "raise_app cls message = AppError (app_error cls message None)"

definition raise_code :: "app_class \<Rightarrow> string \<Rightarrow> string \<Rightarrow> exn" where
  "raise_code cls message code = AppError (app_error cls message (Some code))"

fun app_class_name :: "app_class \<Rightarrow> string" where
  "app_class_name AppErrorBase = ''AppError''"
| "app_class_name BadRequestError = ''BadRequestError''"
| "app_class_name InvalidFileTypeError = ''InvalidFileTypeError''"
| "app_class_name UnauthorizedError = ''UnauthorizedError''"
| "app_class_name ForbiddenError = ''ForbiddenError''"
| "app_class_name NotFoundError = ''NotFoundError''"
| "app_class_name ConflictError = ''ConflictError''"
| "app_class_name UnprocessableError = ''UnprocessableError''"
| "app_class_name LastAdminError = ''LastAdminError''"
| "app_class_name RateLimitError = ''RateLimitError''"
| "app_class_name UpstreamAIError = ''UpstreamAIError''"

text \<open>\<open>type(exc).__name__\<close> and \<open>str(exc)\<close>.\<close>

fun exn_name :: "exn \<Rightarrow> string" where
  "exn_name (AppError a) = app_class_name (ae_class a)"
| "exn_name (HttpError _ _) = ''HTTPException''"
| "exn_name (ValidationError _) = ''RequestValidationError''"
| "exn_name (PyError name _) = name"

fun exn_str :: "exn \<Rightarrow> string" where
  "exn_str (AppError a) = ae_message a"
| "exn_str (HttpError _ detail) = detail"
| "exn_str (ValidationError _) = ''''"
| "exn_str (PyError _ msg) = msg"

fun is_app :: "app_class \<Rightarrow> exn \<Rightarrow> bool" where
  "is_app cls (AppError a) = (ae_class a = cls)"
| "is_app cls _ = False"

subsection \<open>The error envelope\<close>

record envelope =
  env_status :: string
  env_error_code :: string
  env_message :: string
  env_request_id :: string
  env_detail :: "string option list option"

record http_response =
  rs_status :: nat
  rs_body :: envelope
  rs_headers :: "(string \<times> string) list"

definition make_envelope ::
    "string option \<Rightarrow> string \<Rightarrow> string \<Rightarrow> string option list option \<Rightarrow> envelope" where
  "make_envelope request_id code message detail =
     \<lparr>env_status = ''fail'', env_error_code = code, env_message = message,
      env_request_id = (case request_id of None \<Rightarrow> '''' | Some r \<Rightarrow> r),
      env_detail = detail\<rparr>"

definition handle_app_error :: "string option \<Rightarrow> app_error \<Rightarrow> http_response" where
  "handle_app_error rid exc =
     \<lparr>rs_status = status_code (ae_class exc),
      rs_body = make_envelope rid (ae_error_code exc) (ae_message exc) None,
      rs_headers =
        (if ae_class exc = RateLimitError
         then [(''Retry-After'', str_int (case ae_retry_after exc of Some n \<Rightarrow> n | None \<Rightarrow> 60))]
         else [])\<rparr>"

definition handle_validation :: "string option \<Rightarrow> string option list \<Rightarrow> http_response" where
  "handle_validation rid errors =
     (let msg = (case errors of
           [] \<Rightarrow> ''Validation error''
         | None # _ \<Rightarrow> ''Validation error''
         | Some m # _ \<Rightarrow> m)
      in \<lparr>rs_status = 422,
          rs_body = make_envelope rid ''VALIDATION_ERROR'' msg (Some errors),
          rs_headers = []\<rparr>)"

definition handle_http :: "string option \<Rightarrow> nat \<Rightarrow> string \<Rightarrow> http_response" where
  "handle_http rid status detail =
     (let code = (if status = 401 then ''UNAUTHENTICATED''
                  else if status = 403 then ''FORBIDDEN''
                  else if status = 404 then ''NOT_FOUND'' else ''HTTP_ERROR'')
      in \<lparr>rs_status = status, rs_body = make_envelope rid code detail None, rs_headers = []\<rparr>)"

definition handle_unexpected :: "string option \<Rightarrow> http_response" where
  "handle_unexpected rid =
     \<lparr>rs_status = 500,
      rs_body = make_envelope rid ''INTERNAL_ERROR'' ''Internal server error'' None,
      rs_headers = []\<rparr>"

fun handle_exn :: "string option \<Rightarrow> exn \<Rightarrow> http_response" where
  "handle_exn rid (AppError a) = handle_app_error rid a"
| "handle_exn rid (HttpError status detail) = handle_http rid status detail"
| "handle_exn rid (ValidationError errors) = handle_validation rid errors"
| "handle_exn rid (PyError _ _) = handle_unexpected rid"

text \<open>
  \<open>RequestIDMiddleware.dispatch\<close>: the inbound header is reused when it is present and not empty;
  the id is echoed on the response; an exception passes through (the context variable is reset).
\<close>

definition request_id :: "string option \<Rightarrow> string \<Rightarrow> string" where
  "request_id header fresh_hex =
     (case header of None \<Rightarrow> fresh_hex | Some h \<Rightarrow> (if h = [] then fresh_hex else h))"

definition dispatch ::
    "string option \<Rightarrow> string \<Rightarrow> (string option \<Rightarrow> exn + http_response) \<Rightarrow> exn + http_response" where
  "dispatch header fresh_hex call_next =
     (let rid = request_id header fresh_hex
      in case call_next (Some rid) of
           Inl e \<Rightarrow> Inl e
         | Inr response \<Rightarrow>
             Inr (response\<lparr>rs_headers := rs_headers response @ [(''X-Request-ID'', rid)]\<rparr>))"

text \<open>
  The stack around a handler: the framework runs the handlers of \<open>AppError\<close>, HTTP and validation
  errors inside the middleware, and the handler of \<open>Exception\<close> outside of it, where the context
  variable is reset to its default. \<open>result\<close> is what the route's function does.
\<close>

definition serve :: "string option \<Rightarrow> string \<Rightarrow> exn + http_response \<Rightarrow> http_response" where
  "serve header fresh_hex result =
     (case dispatch header fresh_hex
             (\<lambda>rid. case result of
                Inr response \<Rightarrow> Inr response
              | Inl (PyError name msg) \<Rightarrow> Inl (PyError name msg)
              | Inl e \<Rightarrow> Inr (handle_exn rid e)) of
        Inr response \<Rightarrow> response
      | Inl e \<Rightarrow> handle_unexpected None)"

subsection \<open>The envelope of every error\<close>

lemma class_error_code_nonempty: "class_error_code cls \<noteq> []"
  by (cases cls) auto

lemma status_code_range: "400 \<le> status_code cls \<and> status_code cls < 600"
  by (cases cls) auto

lemma app_error_simps [simp]:
  "ae_class (app_error cls msg code) = cls"
  "ae_message (app_error cls msg code) = msg"
  "ae_retry_after (app_error cls msg code) = None"
  by (simp_all add: app_error_def)

lemma rate_limit_error_simps [simp]:
  "ae_class (rate_limit_error msg n) = RateLimitError"
  "ae_retry_after (rate_limit_error msg n) = Some n"
  by (simp_all add: rate_limit_error_def)

lemma raise_app_neq [simp]: "raise_app c m \<noteq> PyError n t"
  by (simp add: raise_app_def)

definition http_error_ok :: "exn \<Rightarrow> bool" where
  "http_error_ok e \<longleftrightarrow> (case e of HttpError status detail \<Rightarrow> 400 \<le> status \<and> status < 600 | _ \<Rightarrow> True)"

lemma app_error_code_nonempty: "ae_error_code (app_error cls msg code) \<noteq> []"
  using class_error_code_nonempty by (auto simp: app_error_def split: option.splits)

text \<open>
  C14: Every error leaves through one envelope: a request that raises answers with an HTTP error
  status, \<open>status: "fail"\<close>, an error code that is not empty, and, for the errors the application
  knows, the request's own id in the body and in the \<open>X-Request-ID\<close> header. An unexpected
  exception answers 500 without a word of its text, but with an empty request id and no
  \<open>X-Request-ID\<close> header.
\<close>

theorem error_envelope:
  assumes "http_error_ok e" and "\<And>a. e = AppError a \<Longrightarrow> ae_error_code a \<noteq> []"
  shows "let r = serve header fresh_hex (Inl e)
         in 400 \<le> rs_status r \<and> rs_status r < 600 \<and> env_status (rs_body r) = ''fail'' \<and>
            env_error_code (rs_body r) \<noteq> [] \<and>
            (case e of
               PyError name msg \<Rightarrow>
                 r = \<lparr>rs_status = 500,
                      rs_body = \<lparr>env_status = ''fail'', env_error_code = ''INTERNAL_ERROR'',
                        env_message = ''Internal server error'', env_request_id = [], env_detail = None\<rparr>,
                      rs_headers = []\<rparr>
             | _ \<Rightarrow> env_request_id (rs_body r) = request_id header fresh_hex \<and>
                   (''X-Request-ID'', request_id header fresh_hex) \<in> set (rs_headers r))"
proof (cases e)
  case (AppError a)
  then show ?thesis
    using assms(2) [of a] status_code_range [of "ae_class a"]
    by (simp add: serve_def dispatch_def handle_app_error_def make_envelope_def Let_def)
next
  case (HttpError status detail)
  then show ?thesis
    using assms(1)
    by (simp add: serve_def dispatch_def handle_http_def make_envelope_def http_error_ok_def Let_def)
next
  case (ValidationError errors)
  then show ?thesis
    by (simp add: serve_def dispatch_def handle_validation_def make_envelope_def Let_def)
next
  case (PyError name msg)
  then show ?thesis
    by (simp add: serve_def dispatch_def handle_unexpected_def make_envelope_def Let_def)
qed

lemma error_envelope_witness:
  "let r = serve None ''f00'' (Inl (raise_app LastAdminError ''m''))
   in 400 \<le> rs_status r \<and> env_request_id (rs_body r) = ''f00''"
  using error_envelope [of "raise_app LastAdminError ''m''" None "''f00''"]
  by (simp add: http_error_ok_def raise_app_def app_error_code_nonempty request_id_def Let_def)

end
