(* ===== verification/Models.thy ===== *)
theory Models
  imports Errors "HOL-Library.Word"
begin

text \<open>
  The data model (\<^verbatim>\<open>app/models/*.py\<close>): the string enums, one record per table, and the database
  as a record of tables. A table is the list of its rows in heap order; a query without
  \<open>ORDER BY\<close> returns rows in that order. Times are microseconds since the epoch. A column that
  stores an enum's string value is a string.
\<close>

subsection \<open>UUIDs\<close>

type_synonym uuid = "128 word"
type_synonym timestamp = int

text \<open>\<open>str(u)\<close>: 32 lower-case hexadecimal digits in groups of 8-4-4-4-12.\<close>

definition hex_char :: "nat \<Rightarrow> char" where
  "hex_char d = (if d < 10 then char_of (48 + d) else char_of (87 + d))"

fun hex_digits :: "nat \<Rightarrow> nat \<Rightarrow> string" where
  "hex_digits 0 n = []"
| "hex_digits (Suc k) n = hex_digits k (n div 16) @ [hex_char (n mod 16)]"

definition uuid_hex :: "uuid \<Rightarrow> string" where
  "uuid_hex u = hex_digits 32 (unat u)"

definition str_uuid :: "uuid \<Rightarrow> string" where
  "str_uuid u =
     (let h = uuid_hex u
      in take 8 h @ ''-'' @ take 4 (drop 8 h) @ ''-'' @ take 4 (drop 12 h) @ ''-''
         @ take 4 (drop 16 h) @ ''-'' @ drop 20 h)"

text \<open>
  \<open>uuid.UUID(s)\<close>: drops \<open>urn:\<close>, \<open>uuid:\<close>, outer braces and hyphens, wants 32 characters and reads
  them with \<open>int(hex, 16)\<close>, which takes outer white space, a sign, a \<open>0x\<close> prefix and single
  underscores between digits; \<open>None\<close> is the \<open>ValueError\<close>.
\<close>

definition hex_val :: "char \<Rightarrow> nat option" where
  "hex_val c =
     (let n = (of_char c :: nat)
      in if 48 \<le> n \<and> n \<le> 57 then Some (n - 48)
         else if 97 \<le> n \<and> n \<le> 102 then Some (n - 87)
         else if 65 \<le> n \<and> n \<le> 70 then Some (n - 55)
         else None)"

fun hex_run :: "bool \<Rightarrow> nat \<Rightarrow> string \<Rightarrow> nat option" where
  "hex_run after_digit acc [] = (if after_digit then Some acc else None)"
| "hex_run after_digit acc (c # cs) =
     (if c = CHR ''_'' then (if after_digit then hex_run False acc cs else None)
      else case hex_val c of
             None \<Rightarrow> None
           | Some d \<Rightarrow> hex_run True (16 * acc + d) cs)"

definition int_base16 :: "string \<Rightarrow> int option" where
  "int_base16 s =
     (let t = py_strip s;
          neg = startswith t ''-'';
          u = (if neg \<or> startswith t ''+'' then tl t else t);
          v = (if startswith u ''0x'' \<or> startswith u ''0X''
               then (if startswith (drop 2 u) ''_'' then drop 3 u else drop 2 u) else u)
      in map_option (\<lambda>n. if neg then - int n else int n) (hex_run False 0 v))"

definition parse_uuid :: "string \<Rightarrow> uuid option" where
  "parse_uuid s =
     (let a = concat (py_split ''urn:'' s);
          b = concat (py_split ''uuid:'' a);
          h = filter (\<lambda>c. c \<noteq> CHR ''-'') (strip_by (\<lambda>c. c \<in> {CHR ''{'', CHR ''}''}) b)
      in if length h \<noteq> 32 then None
         else case int_base16 h of
                None \<Rightarrow> None
              | Some i \<Rightarrow> (if 0 \<le> i \<and> i < 2 ^ 128 then Some (word_of_int i) else None))"

subsection \<open>Enums\<close>

datatype role = Admin | Standard

fun role_value :: "role \<Rightarrow> string" where
  "role_value Admin = ''admin''"
| "role_value Standard = ''standard''"

text \<open>\<open>Role(s)\<close>, a \<open>ValueError\<close> for a string that is no value of the enum.\<close>

definition role_of :: "string \<Rightarrow> exn + role" where
  "role_of s = (if s = role_value Admin then Inr Admin
                else if s = role_value Standard then Inr Standard
                else Inl (PyError ''ValueError'' s))"

datatype source_type = ManualUpload | GoogleDrive | OneDrive | ApiPush

fun source_value :: "source_type \<Rightarrow> string" where
  "source_value ManualUpload = ''manual_upload''"
| "source_value GoogleDrive = ''google_drive''"
| "source_value OneDrive = ''onedrive''"
| "source_value ApiPush = ''api_push''"

datatype ingestion_status =
  Queued | Processing | Parsing | Tagging | Chunking | Embedding | EntityExtraction
| GraphMapping | Finalizing | Completed | Failed | Duplicate

fun status_value :: "ingestion_status \<Rightarrow> string" where
  "status_value Queued = ''queued''"
| "status_value Processing = ''processing''"
| "status_value Parsing = ''parsing''"
| "status_value Tagging = ''tagging''"
| "status_value Chunking = ''chunking''"
| "status_value Embedding = ''embedding''"
| "status_value EntityExtraction = ''entity_extraction''"
| "status_value GraphMapping = ''graph_mapping''"
| "status_value Finalizing = ''finalizing''"
| "status_value Completed = ''completed''"
| "status_value Failed = ''failed''"
| "status_value Duplicate = ''duplicate''"

datatype embedding_status = EmbPending | EmbInProgress | EmbCompleted | EmbFailed

fun emb_value :: "embedding_status \<Rightarrow> string" where
  "emb_value EmbPending = ''pending''"
| "emb_value EmbInProgress = ''in_progress''"
| "emb_value EmbCompleted = ''completed''"
| "emb_value EmbFailed = ''failed''"

definition file_types :: "string list" where
  "file_types = [''pdf'', ''docx'', ''txt'', ''csv'', ''xlsx'', ''pptx'', ''png'', ''jpg'']"

datatype api_key_scope = ReadOnly | ReadWrite

fun scope_value :: "api_key_scope \<Rightarrow> string" where
  "scope_value ReadOnly = ''read_only''"
| "scope_value ReadWrite = ''read_write''"

datatype connector_status = Connected | Disconnected | ComingSoon

fun conn_status_value :: "connector_status \<Rightarrow> string" where
  "conn_status_value Connected = ''connected''"
| "conn_status_value Disconnected = ''disconnected''"
| "conn_status_value ComingSoon = ''coming_soon''"

datatype connector_type = CT_GoogleDrive | CT_OneDrive

fun conn_type_value :: "connector_type \<Rightarrow> string" where
  "conn_type_value CT_GoogleDrive = ''google_drive''"
| "conn_type_value CT_OneDrive = ''onedrive''"

subsection \<open>Tables\<close>

record organization =
  o_id :: uuid
  o_name :: string
  o_slug :: string

record workspace =
  w_id :: uuid
  w_organization_id :: uuid
  w_name :: string
  w_embedding_model :: string
  w_embedding_dims :: int
  w_chat_model :: string
  w_chat_top_k :: int
  w_min_similarity :: rat
  w_auto_start_ingestion :: bool
  w_rest_api_enabled :: bool
  w_default_rate_limit_per_minute :: int

record user =
  u_id :: uuid
  u_email :: string
  u_full_name :: string
  u_password_hash :: string
  u_is_active :: bool
  u_is_verified :: bool
  u_mfa_enabled :: bool
  u_last_active_at :: "timestamp option"
  u_failed_login_count :: int
  u_lockout_until :: "timestamp option"

record member =
  m_organization_id :: uuid
  m_workspace_id :: uuid
  m_user_id :: uuid
  m_role :: string
  m_invited_email :: "string option"
  m_invite_accepted :: bool

record refresh_token =
  rt_user_id :: uuid
  rt_workspace_id :: uuid
  rt_token_hash :: string
  rt_expires_at :: timestamp
  rt_revoked_at :: "timestamp option"

record api_key =
  k_id :: uuid
  k_workspace_id :: uuid
  k_name :: string
  k_key_prefix :: string
  k_key_hash :: string
  k_scope :: string
  k_rate_limit_per_minute :: int
  k_last_used_at :: "timestamp option"
  k_request_count :: int
  k_revoked :: bool
  k_created_by_id :: "uuid option"
  k_created_at :: timestamp

record api_call_log =
  l_workspace_id :: uuid
  l_endpoint :: string
  l_api_key_id :: "uuid option"
  l_created_at :: timestamp

text \<open>
  JSON values, for the columns and payloads that hold them; a dict is the list of its items.
  \<open>str(v)\<close> of a float, a list or a dict is the argument \<open>rep\<close> of \<open>py_str\<close>.
\<close>

datatype pyval =
    PNone
  | PBool bool
  | PInt int
  | PFloat rat
  | PStr string
  | PList "pyval list"
  | PDict "(string \<times> pyval) list"

fun py_truthy :: "pyval \<Rightarrow> bool" where
  "py_truthy PNone = False"
| "py_truthy (PBool b) = b"
| "py_truthy (PInt i) = (i \<noteq> 0)"
| "py_truthy (PFloat x) = (x \<noteq> 0)"
| "py_truthy (PStr s) = (s \<noteq> [])"
| "py_truthy (PList xs) = (xs \<noteq> [])"
| "py_truthy (PDict d) = (d \<noteq> [])"

fun py_str :: "(pyval \<Rightarrow> string) \<Rightarrow> pyval \<Rightarrow> string" where
  "py_str rep PNone = ''None''"
| "py_str rep (PBool b) = (if b then ''True'' else ''False'')"
| "py_str rep (PInt i) = str_int i"
| "py_str rep (PStr s) = s"
| "py_str rep v = rep v"

text \<open>\<open>{**d, k: v}\<close> for one key.\<close>

fun dict_set :: "string \<Rightarrow> pyval \<Rightarrow> (string \<times> pyval) list \<Rightarrow> (string \<times> pyval) list" where
  "dict_set k v [] = [(k, v)]"
| "dict_set k v ((k', v') # d) = (if k = k' then (k, v) # d else (k', v') # dict_set k v d)"

record document =
  d_id :: uuid
  d_workspace_id :: uuid
  d_name :: string
  d_filename :: string
  d_file_type :: string
  d_mime_type :: "string option"
  d_size_bytes :: int
  d_source_type :: string
  d_connector_id :: "uuid option"
  d_external_document_id :: "string option"
  d_storage_path :: "string option"
  d_tags :: "string list"
  d_metadata :: "(string \<times> pyval) list"
  d_ingestion_status :: string
  d_current_step :: "string option"
  d_chunk_count :: "int option"
  d_embedding_status :: string
  d_content_hash :: "string option"
  d_uploaded_by_id :: "uuid option"
  d_uploaded_by :: string
  d_created_at :: timestamp
  d_updated_at :: timestamp

record document_chunk =
  c_id :: uuid
  c_document_id :: uuid
  c_workspace_id :: uuid
  c_chunk_index :: nat
  c_chunk_text :: string
  c_token_count :: nat
  c_section_ref :: "string option"
  c_source_type :: string
  c_metadata :: "(string \<times> pyval) list"

record ingestion_job =
  j_id :: uuid
  j_document_id :: uuid
  j_workspace_id :: uuid
  j_status :: string
  j_current_step :: string
  j_steps_completed :: nat
  j_steps_total :: nat
  j_error :: "string option"
  j_completed_at :: "timestamp option"
  j_created_at :: timestamp

record ingestion_error =
  e_document_id :: uuid
  e_workspace_id :: uuid
  e_step_failed :: string
  e_error_type :: string
  e_error_message :: string
  e_retry_count :: nat

record token_usage =
  t_workspace_id :: uuid
  t_operation :: string
  t_model :: string
  t_prompt_tokens :: int
  t_completion_tokens :: int
  t_total_tokens :: int
  t_cost_usd :: rat
  t_request_id :: "string option"

record conversation =
  cv_id :: uuid
  cv_workspace_id :: uuid
  cv_user_id :: uuid
  cv_title :: string
  cv_updated_at :: timestamp

record evidence_chunk =
  ev_chunk_id :: string
  ev_document_id :: string
  ev_document_name :: string
  ev_source_type :: string
  ev_section_ref :: "string option"
  ev_excerpt :: string
  ev_similarity_score :: rat

record chat_message =
  cm_id :: uuid
  cm_conversation_id :: uuid
  cm_workspace_id :: uuid
  cm_role :: string
  cm_content :: string
  cm_confidence :: "rat option"
  cm_retrieved_chunk_ids :: "uuid list option"
  cm_evidence :: "evidence_chunk list"
  cm_created_at :: timestamp

record connector =
  cn_id :: uuid
  cn_workspace_id :: uuid
  cn_type :: string
  cn_name :: string
  cn_status :: string
  cn_last_synced_at :: "timestamp option"
  cn_last_sync_document_count :: "int option"

record connector_credential =
  cc_connector_id :: uuid
  cc_encrypted_refresh_token :: "string option"
  cc_scopes :: "string option"

record db =
  organizations :: "organization list"
  workspaces :: "workspace list"
  users :: "user list"
  members :: "member list"
  refresh_tokens :: "refresh_token list"
  api_keys :: "api_key list"
  api_call_logs :: "api_call_log list"
  documents :: "document list"
  document_chunks :: "document_chunk list"
  ingestion_jobs :: "ingestion_job list"
  ingestion_errors :: "ingestion_error list"
  token_usages :: "token_usage list"
  conversations :: "conversation list"
  chat_messages :: "chat_message list"
  connectors :: "connector list"
  connector_credentials :: "connector_credential list"

definition empty_db :: db where
  "empty_db =
     \<lparr>organizations = [], workspaces = [], users = [], members = [], refresh_tokens = [],
      api_keys = [], api_call_logs = [], documents = [], document_chunks = [],
      ingestion_jobs = [], ingestion_errors = [], token_usages = [], conversations = [],
      chat_messages = [], connectors = [], connector_credentials = []\<rparr>"

subsection \<open>Queries\<close>

type_synonym 'a db_tx = "(db, exn, 'a) tx"

text \<open>\<open>db.get(Model, id)\<close>.\<close>

definition get_by :: "('r \<Rightarrow> 'k) \<Rightarrow> 'k \<Rightarrow> 'r list \<Rightarrow> 'r option" where
  "get_by key k rows = find (\<lambda>r. key r = k) rows"

text \<open>\<open>scalar_one_or_none()\<close> of a query's rows.\<close>

definition one_or_none :: "'r list \<Rightarrow> exn + 'r option" where
  "one_or_none rows =
     (case rows of [] \<Rightarrow> Inr None
      | [r] \<Rightarrow> Inr (Some r)
      | _ \<Rightarrow> Inl (PyError ''MultipleResultsFound'' ''''))"

text \<open>\<open>.scalars().first()\<close>.\<close>

definition first_row :: "'r list \<Rightarrow> 'r option" where
  "first_row rows = (case rows of [] \<Rightarrow> None | r # _ \<Rightarrow> Some r)"

text \<open>Attribute assignment on the rows that match, flushed to their table.\<close>

definition set_rows :: "('r \<Rightarrow> bool) \<Rightarrow> ('r \<Rightarrow> 'r) \<Rightarrow> 'r list \<Rightarrow> 'r list" where
  "set_rows P f rows = map (\<lambda>r. if P r then f r else r) rows"

text \<open>Update the row with this key, or append a new one.\<close>

definition merge_row :: "('r \<Rightarrow> bool) \<Rightarrow> ('r \<Rightarrow> 'r) \<Rightarrow> 'r \<Rightarrow> 'r list \<Rightarrow> 'r list" where
  "merge_row P f r rows = (if \<exists>x \<in> set rows. P x then set_rows P f rows else rows @ [r])"

definition dict_get :: "string \<Rightarrow> (string \<times> pyval) list \<Rightarrow> pyval \<Rightarrow> pyval" where
  "dict_get k d dflt = (case map_of d k of None \<Rightarrow> dflt | Some v \<Rightarrow> v)"

definition integrity_error :: "string \<Rightarrow> exn" where
  "integrity_error constraint_name = PyError ''IntegrityError'' constraint_name"

lemma get_by_Some: "get_by key k rows = Some r \<Longrightarrow> r \<in> set rows \<and> key r = k"
  by (auto simp: get_by_def find_Some_iff)

lemma get_by_None: "get_by key k rows = None \<longleftrightarrow> (\<forall>r \<in> set rows. key r \<noteq> k)"
  by (auto simp: get_by_def find_None_iff)

lemma get_by_Nil [simp]: "get_by key k [] = None"
  by (simp add: get_by_def)

lemma get_by_Cons [simp]:
  "get_by key k (r # rows) = (if key r = k then Some r else get_by key k rows)"
  by (simp add: get_by_def)

lemma one_or_none_simps [simp]:
  "one_or_none [] = Inr None"
  "one_or_none [r] = Inr (Some r)"
  "one_or_none (r # r' # rows) = Inl (PyError ''MultipleResultsFound'' '''')"
  by (simp_all add: one_or_none_def)

lemma one_or_none_Some: "one_or_none rows = Inr (Some r) \<longleftrightarrow> rows = [r]"
  by (auto simp: one_or_none_def split: list.splits)

lemma one_or_none_None: "one_or_none rows = Inr None \<longleftrightarrow> rows = []"
  by (auto simp: one_or_none_def split: list.splits)

lemma one_or_none_Inl: "one_or_none rows = Inl e \<Longrightarrow> e = PyError ''MultipleResultsFound'' ''''"
  by (auto simp: one_or_none_def split: list.splits)

lemma first_row_simps [simp]: "first_row [] = None" "first_row (r # rows) = Some r"
  by (simp_all add: first_row_def)

lemma set_rows_simps [simp]:
  "set_rows P f [] = []"
  "set_rows P f (r # rows) = (if P r then f r else r) # set_rows P f rows"
  "length (set_rows P f rows) = length rows"
  by (simp_all add: set_rows_def)

lemma set_rows_key: "(\<And>r. key (f r) = key r) \<Longrightarrow> map key (set_rows P f rows) = map key rows"
  by (simp add: set_rows_def)

lemma set_rows_image: "(\<And>r. key (f r) = key r) \<Longrightarrow> key ` set (set_rows P f rows) = key ` set rows"
  using arg_cong [OF set_rows_key [of key f P rows], of set] by simp

lemma set_rows_mem: "x \<in> set (set_rows P f rows) \<Longrightarrow> \<exists>y \<in> set rows. x = (if P y then f y else y)"
  by (auto simp: set_rows_def)

lemma set_rows_memI: "y \<in> set rows \<Longrightarrow> (if P y then f y else y) \<in> set (set_rows P f rows)"
  by (auto simp: set_rows_def)

lemma get_by_set_rows:
  "(\<And>r. key (f r) = key r) \<Longrightarrow>
   get_by key k (set_rows P f rows) = map_option (\<lambda>r. if P r then f r else r) (get_by key k rows)"
  by (induction rows) auto

lemma role_value_inject [simp]: "role_value r = role_value r' \<longleftrightarrow> r = r'"
  by (cases r; cases r') auto

lemma role_of_value [simp]: "role_of (role_value r) = Inr r"
  by (cases r) (simp_all add: role_of_def)

lemma status_value_inject [simp]: "status_value s = status_value s' \<longleftrightarrow> s = s'"
  by (cases s; cases s') auto

lemma set_rows_filter_other: "(\<And>r. P r \<Longrightarrow> \<not> Q r \<and> \<not> Q (f r)) \<Longrightarrow> filter Q (set_rows P f rows) = filter Q rows"
  by (induction rows) auto

lemma set_rows_filter_own:
  "(\<And>r. P r \<Longrightarrow> Q r) \<Longrightarrow> (\<And>r. P r \<Longrightarrow> Q (f r)) \<Longrightarrow>
   filter Q (set_rows P f rows) = set_rows P f (filter Q rows)"
  by (induction rows) auto

lemma merge_row_other:
  "(\<And>x. P x \<Longrightarrow> \<not> Q x \<and> \<not> Q (f x)) \<Longrightarrow> \<not> Q r \<Longrightarrow> filter Q (merge_row P f r rows) = filter Q rows"
  by (simp add: merge_row_def set_rows_filter_other)

lemma merge_row_own:
  assumes "\<And>x. P x \<Longrightarrow> Q x" and "\<And>x. P x \<Longrightarrow> Q (f x)" and "Q r"
  shows "filter Q (merge_row P f r rows) = merge_row P f r (filter Q rows)"
  using assms set_rows_filter_own [of P Q f rows] by (auto simp: merge_row_def)

lemma set_merge_row:
  "x \<in> set (merge_row P f r rows) \<Longrightarrow> x = r \<or> x \<in> set rows \<or> (\<exists>y \<in> set rows. P y \<and> x = f y)"
  by (auto simp: merge_row_def set_rows_def split: if_splits)

text \<open>A merge on a key keeps the key unique.\<close>

lemma distinct_merge_row:
  assumes "\<And>x. P x \<longleftrightarrow> key x = key r" and "\<And>x. key (f x) = key x" and "distinct (map key rows)"
  shows "distinct (map key (merge_row P f r rows))"
  using assms set_rows_key [of key f P rows] by (auto simp: merge_row_def)

lemma merge_row_present: "(\<And>x. P x \<Longrightarrow> P (f x)) \<Longrightarrow> P r \<Longrightarrow> \<exists>x \<in> set (merge_row P f r rows). P x"
  by (auto simp: merge_row_def set_rows_def)

lemma dict_get_simps [simp]:
  "dict_get k [] v = v"
  "dict_get k ((k', x) # d) v = (if k = k' then x else dict_get k d v)"
  by (simp_all add: dict_get_def)

subsection \<open>Printing and reading a UUID\<close>

lemma split_sep_acc_none: "sep \<noteq> [] \<Longrightarrow> hd sep \<notin> set s \<Longrightarrow> split_sep_acc sep acc s = [rev acc @ s]"
proof (induction s arbitrary: acc)
  case Nil
  then show ?case by (subst split_sep_acc.simps) simp
next
  case (Cons c s)
  then have "\<not> startswith (c # s) sep" by (cases sep) (auto simp: startswith_def)
  with Cons show ?case by (subst split_sep_acc.simps) simp
qed

lemma py_split_none: "sep \<noteq> [] \<Longrightarrow> hd sep \<notin> set s \<Longrightarrow> py_split sep s = [s]"
  by (simp add: py_split_def split_sep_acc_none)

lemma strip_by_none: "(\<And>c. c \<in> set s \<Longrightarrow> \<not> P c) \<Longrightarrow> strip_by P s = s"
  unfolding strip_by_def
  by (subst dropWhile_eq_self_iff [THEN iffD2], fastforce simp: hd_in_set)
     (subst dropWhile_eq_self_iff [THEN iffD2], auto simp: hd_rev)

definition hex_alphabet :: "char set" where
  "hex_alphabet = hex_char ` {..<16}"

lemma hex_char_alphabet: "d < 16 \<Longrightarrow> hex_char d \<in> hex_alphabet"
  by (simp add: hex_alphabet_def)

lemma of_hex_char: "d < 16 \<Longrightarrow> of_char (hex_char d) = (if d < 10 then 48 + d else 87 + d)"
  by (simp add: hex_char_def)

lemma hex_val_char: "d < 16 \<Longrightarrow> hex_val (hex_char d) = Some d"
  by (simp add: hex_val_def Let_def of_hex_char)

lemma length_hex_digits [simp]: "length (hex_digits k n) = k"
  by (induction k arbitrary: n) auto

lemma set_hex_digits: "set (hex_digits k n) \<subseteq> hex_alphabet"
  by (induction k arbitrary: n) (auto simp: hex_char_alphabet)

lemma hex_alphabet_props:
  assumes "c \<in> hex_alphabet"
  shows "\<not> py_isspace c"
    "c \<notin> {CHR ''-'', CHR ''+'', CHR ''u'', CHR ''x'', CHR ''X'', CHR ''_'', CHR ''{'', CHR ''}''}"
proof -
  obtain d where "d < 16" "c = hex_char d" using assms by (auto simp: hex_alphabet_def)
  then have n: "of_char c = (if d < 10 then 48 + d else 87 + d :: nat)" "d < 16"
    by (simp_all add: of_hex_char)
  then show "\<not> py_isspace c" by (auto simp: py_isspace_def Let_def)
  from n show "c \<notin> {CHR ''-'', CHR ''+'', CHR ''u'', CHR ''x'', CHR ''X'', CHR ''_'', CHR ''{'', CHR ''}''}"
    by (auto split: if_splits)
qed

lemma hex_run_digits:
  "hex_run b acc (hex_digits (Suc k) n @ s) = hex_run True (acc * 16 ^ Suc k + n mod 16 ^ Suc k) s"
proof (induction k arbitrary: n b acc s)
  case 0
  have "hex_char (n mod 16) \<noteq> CHR ''_''"
    using hex_alphabet_props(2) [OF hex_char_alphabet [of "n mod 16"]] by simp
  then show ?case by (simp add: hex_val_char mult.commute)
next
  case (Suc k)
  have "hex_char (n mod 16) \<noteq> CHR ''_''"
    using hex_alphabet_props(2) [OF hex_char_alphabet [of "n mod 16"]] by simp
  moreover have "n mod 16 ^ Suc (Suc k) = 16 * (n div 16 mod 16 ^ Suc k) + n mod 16"
    using mod_mult2_eq [of n 16 "16 ^ Suc k"] by (simp add: mult.commute)
  ultimately show ?case
    using Suc.IH [of b acc "n div 16" "hex_char (n mod 16) # s"]
    by (subst hex_digits.simps) (simp add: hex_val_char algebra_simps del: hex_digits.simps)
qed

lemma str_uuid_hex: "filter (\<lambda>c. c \<noteq> CHR ''-'') (str_uuid u) = uuid_hex u"
proof -
  let ?h = "uuid_hex u"
  have h: "filter (\<lambda>c. c \<noteq> CHR ''-'') xs = xs" if "set xs \<subseteq> set ?h" for xs
    using that set_hex_digits [of 32 "unat u"] hex_alphabet_props(2)
    by (intro filter_True) (auto simp: uuid_hex_def)
  have part: "drop n ?h = take 4 (drop n ?h) @ drop (n + 4) ?h" for n
    using append_take_drop_id [of 4 "drop n ?h"] by (simp add: add.commute)
  have "?h = take 8 ?h @ take 4 (drop 8 ?h) @ take 4 (drop 12 ?h) @ take 4 (drop 16 ?h) @ drop 20 ?h"
    using append_take_drop_id [of 8 ?h] part [of 8] part [of 12] part [of 16] by simp
  moreover have "set (take n (drop m ?h)) \<subseteq> set ?h" "set (drop m ?h) \<subseteq> set ?h" "set (take n ?h) \<subseteq> set ?h" for n m
    by (meson set_take_subset set_drop_subset subset_trans)+
  ultimately show ?thesis
    unfolding str_uuid_def Let_def by (simp add: h)
qed

lemma str_uuid_inject [simp]: "str_uuid u = str_uuid v \<longleftrightarrow> u = v"
proof
  assume "str_uuid u = str_uuid v"
  then have "uuid_hex u = uuid_hex v" by (metis str_uuid_hex)
  then have "hex_run False 0 (hex_digits (Suc 31) (unat u) @ []) = hex_run False 0 (hex_digits (Suc 31) (unat v) @ [])"
    by (simp add: uuid_hex_def)
  then have "unat u mod 16 ^ Suc 31 = unat v mod 16 ^ Suc 31"
    unfolding hex_run_digits by simp
  moreover have "unat x < 16 ^ Suc 31" for x :: uuid
    using unsigned_less [of x] by simp
  ultimately show "u = v" by (simp add: unsigned_word_eqI)
qed simp

lemma parse_str_uuid: "parse_uuid (str_uuid u) = Some u"
proof -
  let ?s = "str_uuid u" and ?h = "uuid_hex u"
  have hs: "set ?h \<subseteq> hex_alphabet" using set_hex_digits by (simp add: uuid_hex_def)
  have "set ?s \<subseteq> insert CHR ''-'' (set ?h)"
    unfolding str_uuid_hex [of u, symmetric] by auto
  then have ss: "set ?s \<subseteq> insert CHR ''-'' hex_alphabet" using hs by blast
  have chars: "c \<notin> {CHR ''u'', CHR ''{'', CHR ''}''}" if "c \<in> set ?s" for c
    using that ss hex_alphabet_props(2) [of c] by auto
  have nohd: "CHR ''u'' \<notin> set ?s" using chars by auto
  have split: "py_split ''urn:'' ?s = [?s]" "py_split ''uuid:'' ?s = [?s]"
    by (rule py_split_none; use nohd in simp)+
  have strip: "strip_by (\<lambda>c. c \<in> {CHR ''{'', CHR ''}''}) ?s = ?s"
    by (rule strip_by_none) (use chars in auto)
  have len: "length ?h = 32" by (simp add: uuid_hex_def)
  then obtain c1 c2 h' where h: "?h = c1 # c2 # h'" by (cases ?h; cases "tl ?h") auto
  have c: "c1 \<in> hex_alphabet" "c2 \<in> hex_alphabet" using hs h by auto
  have sp: "py_strip ?h = ?h"
    unfolding py_strip_def by (rule strip_by_none) (use hs hex_alphabet_props(1) in auto)
  have "unat u < 16 ^ Suc 31" using unsigned_less [of u] by simp
  then have run: "hex_run False 0 ?h = Some (unat u)"
    using hex_run_digits [of False 0 31 "unat u" "[]"] by (simp add: uuid_hex_def del: hex_digits.simps)
  have "int_base16 ?h = Some (int (unat u))"
    using hex_alphabet_props(2) [OF c(1)] hex_alphabet_props(2) [OF c(2)] run h
    by (simp add: int_base16_def sp [unfolded h] Let_def startswith_def)
  then show ?thesis
    using len uint_lt2p [of u] unfolding parse_uuid_def split Let_def
    by (simp add: split strip [simplified] str_uuid_hex)
qed

lemma hex_alphabet_code: "c \<in> hex_alphabet \<Longrightarrow> 48 \<le> (of_char c :: nat) \<and> (of_char c \<le> (57 :: nat) \<or> 97 \<le> (of_char c :: nat))"
  by (auto simp: hex_alphabet_def of_hex_char split: if_splits)

lemma str_uuid_alphabet: "set (str_uuid u) \<subseteq> insert CHR ''-'' hex_alphabet"
proof -
  have "set (uuid_hex u) \<subseteq> hex_alphabet" using set_hex_digits by (simp add: uuid_hex_def)
  then show ?thesis by (auto simp: str_uuid_def Let_def dest: in_set_takeD in_set_dropD)
qed

lemma str_uuid_free: "c \<noteq> CHR ''-'' \<Longrightarrow> (of_char c :: nat) < 48 \<Longrightarrow> c \<notin> set (str_uuid u)"
  using str_uuid_alphabet [of u] hex_alphabet_code [of c] by auto

end
