(* ===== verification/Gateway.thy ===== *)
theory Gateway
  imports Config Models
begin

text \<open>
  The LLM and embedding gateway (\<^verbatim>\<open>app/services/llm_gateway.py\<close>) with usage logging
  (\<^verbatim>\<open>app/services/usage.py\<close>). The vendor SDK is behind the provider protocol
  (\<^verbatim>\<open>app/services/providers/base.py\<close>): the record \<open>provider\<close>, a parameter whose calls act on a
  world of their own. Sleeping advances the gateway's clock (seconds).
\<close>

subsection \<open>Provider protocol\<close>

type_synonym message = "string \<times> string"

record chat_params =
  cp_temperature :: rat
  cp_max_tokens :: "int option"
  cp_json_object :: bool

record chat_result =
  cr_content :: string
  cr_prompt_tokens :: int
  cr_completion_tokens :: int
  cr_total_tokens :: int

record stream_usage =
  su_prompt_tokens :: int
  su_completion_tokens :: int
  su_total_tokens :: int

record stream_event =
  se_text :: "string option"
  se_usage :: "stream_usage option"

type_synonym vector = "rat list"

record embedding_result =
  er_vectors :: "vector list"
  er_prompt_tokens :: int
  er_total_tokens :: int

text \<open>A stream is its events and the exception that ended it, if any.\<close>

record 'w provider =
  pv_chat :: "string \<Rightarrow> message list \<Rightarrow> chat_params \<Rightarrow> 'w \<Rightarrow> (exn + chat_result) \<times> 'w"
  pv_stream :: "string \<Rightarrow> message list \<Rightarrow> rat \<Rightarrow> 'w \<Rightarrow> (stream_event list \<times> exn option) \<times> 'w"
  pv_embed :: "string \<Rightarrow> string list \<Rightarrow> 'w \<Rightarrow> (exn + embedding_result) \<times> 'w"

subsection \<open>Cost and usage rows\<close>

definition prices :: "string \<Rightarrow> rat \<times> rat" where
  "prices model =
     (if model = ''text-embedding-3-small'' then (2 / 100000, 0)
      else if model = ''text-embedding-3-large'' then (13 / 100000, 0)
      else if model = ''gpt-4o-mini'' then (15 / 100000, 6 / 10000)
      else if model = ''gpt-4o'' then (25 / 10000, 1 / 100)
      else (0, 0))"

definition estimate_cost :: "string \<Rightarrow> int \<Rightarrow> int \<Rightarrow> rat" where
  "estimate_cost model prompt_tokens completion_tokens =
     round_to 6 (of_int prompt_tokens / 1000 * fst (prices model)
                 + of_int completion_tokens / 1000 * snd (prices model))"

subsection \<open>Token bucket\<close>

record token_bucket =
  tb_capacity :: rat
  tb_tokens :: rat
  tb_refill_per_sec :: rat
  tb_updated :: rat

definition new_bucket :: "int \<Rightarrow> rat \<Rightarrow> token_bucket" where
  "new_bucket rate_per_minute now =
     (let capacity = of_int (max 1 rate_per_minute)
      in \<lparr>tb_capacity = capacity, tb_tokens = capacity, tb_refill_per_sec = capacity / 60,
          tb_updated = now\<rparr>)"

text \<open>\<open>acquire\<close> at \<open>now\<close>: the bucket it leaves and the instant at which it returns.\<close>

definition acquire :: "token_bucket \<Rightarrow> rat \<Rightarrow> token_bucket \<times> rat" where
  "acquire b now =
     (let tokens = min (tb_capacity b) (tb_tokens b + (now - tb_updated b) * tb_refill_per_sec b);
          b' = b\<lparr>tb_tokens := tokens, tb_updated := now\<rparr>
      in if tokens < 1
         then (b'\<lparr>tb_tokens := 0\<rparr>, now + (1 - tokens) / tb_refill_per_sec b)
         else (b'\<lparr>tb_tokens := tokens - 1\<rparr>, now))"

subsection \<open>Gateway state\<close>

text \<open>
  \<open>gw_usage_ok n\<close> says whether the \<open>n\<close>-th write of a usage row succeeds; \<open>gw_writes\<close> counts the
  writes tried, \<open>gw_usage\<close> holds the rows written, the last one first.
\<close>

record 'w gateway =
  gw_world :: 'w
  gw_clock :: rat
  gw_bucket :: "token_bucket option"
  gw_usage :: "token_usage list"
  gw_writes :: nat
  gw_usage_ok :: "nat \<Rightarrow> bool"

definition record_usage ::
    "uuid \<Rightarrow> string \<Rightarrow> string \<Rightarrow> int \<Rightarrow> int \<Rightarrow> int \<Rightarrow> string option \<Rightarrow> 'w gateway \<Rightarrow> 'w gateway" where
  "record_usage ws operation model prompt_tokens completion_tokens total_tokens req_id gw =
     (let row = \<lparr>t_workspace_id = ws, t_operation = operation, t_model = model,
                 t_prompt_tokens = prompt_tokens, t_completion_tokens = completion_tokens,
                 t_total_tokens = total_tokens,
                 t_cost_usd = estimate_cost model prompt_tokens completion_tokens,
                 t_request_id = req_id\<rparr>
      in gw\<lparr>gw_writes := gw_writes gw + 1,
            gw_usage := (if gw_usage_ok gw (gw_writes gw) then row # gw_usage gw else gw_usage gw)\<rparr>)"

definition sleep :: "rat \<Rightarrow> 'w gateway \<Rightarrow> 'w gateway" where
  "sleep seconds gw = gw\<lparr>gw_clock := gw_clock gw + seconds\<rparr>"

subsection \<open>Retry\<close>

definition max_retries :: nat where "max_retries = 3"

definition transient_names :: "string list" where
  "transient_names = [''RateLimitError'', ''APIConnectionError'', ''APITimeoutError'', ''InternalServerError'']"

definition is_transient :: "exn \<Rightarrow> bool" where
  "is_transient exc \<longleftrightarrow> exn_name exc \<in> set transient_names"

fun retry_loop ::
    "('s \<Rightarrow> (exn + 'a) \<times> 's) \<Rightarrow> (rat \<Rightarrow> 's \<Rightarrow> 's) \<Rightarrow> nat list \<Rightarrow> exn option \<Rightarrow> 's \<Rightarrow>
     (exn option + 'a) \<times> 's" where
  "retry_loop coro slp [] last_exc s = (Inl last_exc, s)"
| "retry_loop coro slp (attempt # attempts) last_exc s =
     (case coro s of
        (Inr x, s') \<Rightarrow> (Inr x, s')
      | (Inl exc, s') \<Rightarrow>
          if \<not> is_transient exc \<or> attempt = max_retries then (Inl (Some exc), s')
          else retry_loop coro slp attempts (Some exc) (slp (of_nat (min (2 ^ attempt) 10)) s'))"

definition with_retry ::
    "('s \<Rightarrow> (exn + 'a) \<times> 's) \<Rightarrow> (rat \<Rightarrow> 's \<Rightarrow> 's) \<Rightarrow> string \<Rightarrow> 's \<Rightarrow> (exn + 'a) \<times> 's" where
  "with_retry coro slp what s =
     (case retry_loop coro slp [1..<max_retries + 1] None s of
        (Inr x, s') \<Rightarrow> (Inr x, s')
      | (Inl _, s') \<Rightarrow>
          (Inl (raise_app UpstreamAIError (''AI provider error during '' @ what)), s'))"

text \<open>A provider call inside the gateway.\<close>

definition on_world :: "('w \<Rightarrow> 'a \<times> 'w) \<Rightarrow> 'w gateway \<Rightarrow> 'a \<times> 'w gateway" where
  "on_world f gw = (case f (gw_world gw) of (r, w) \<Rightarrow> (r, gw\<lparr>gw_world := w\<rparr>))"

subsection \<open>Public operations\<close>

record llm_result =
  lr_content :: string
  lr_model :: string
  lr_prompt_tokens :: int
  lr_completion_tokens :: int
  lr_total_tokens :: int

definition call_llm ::
    "settings \<Rightarrow> 'w provider \<Rightarrow> message list \<Rightarrow> chat_params \<Rightarrow> uuid \<Rightarrow> string \<Rightarrow> string option \<Rightarrow>
     string option \<Rightarrow> 'w gateway \<Rightarrow> (exn + llm_result) \<times> 'w gateway" where
  "call_llm cfg pv messages params ws operation model req_id gw =
     (let use_model = str_or model (chat_model cfg)
      in case with_retry (on_world (pv_chat pv use_model messages params)) sleep
                (''call_llm:'' @ operation) gw of
           (Inl e, gw') \<Rightarrow> (Inl e, gw')
         | (Inr chat, gw') \<Rightarrow>
             (Inr \<lparr>lr_content = cr_content chat, lr_model = use_model,
                   lr_prompt_tokens = cr_prompt_tokens chat,
                   lr_completion_tokens = cr_completion_tokens chat,
                   lr_total_tokens = cr_total_tokens chat\<rparr>,
              record_usage ws operation use_model (cr_prompt_tokens chat)
                (cr_completion_tokens chat) (cr_total_tokens chat) req_id gw'))"

text \<open>
  \<open>stream_llm\<close>: the texts it yields (an empty delta is not yielded) and the exception it ends with.
  The usage of the last event that carries one is recorded in the \<open>finally\<close> block.
\<close>

fun stream_texts :: "stream_event list \<Rightarrow> string list" where
  "stream_texts [] = []"
| "stream_texts (ev # evs) =
     (case se_text ev of
        None \<Rightarrow> stream_texts evs
      | Some t \<Rightarrow> (if t = [] then stream_texts evs else t # stream_texts evs))"

fun stream_tokens :: "stream_event list \<Rightarrow> int \<times> int \<times> int \<Rightarrow> int \<times> int \<times> int" where
  "stream_tokens [] acc = acc"
| "stream_tokens (ev # evs) acc =
     (case se_usage ev of
        None \<Rightarrow> stream_tokens evs acc
      | Some u \<Rightarrow> stream_tokens evs (su_prompt_tokens u, su_completion_tokens u, su_total_tokens u))"

definition stream_llm ::
    "settings \<Rightarrow> 'w provider \<Rightarrow> message list \<Rightarrow> rat \<Rightarrow> uuid \<Rightarrow> string \<Rightarrow> string option \<Rightarrow>
     string option \<Rightarrow> 'w gateway \<Rightarrow> (string list \<times> exn option) \<times> 'w gateway" where
  "stream_llm cfg pv messages temperature ws operation model req_id gw =
     (let use_model = str_or model (chat_model cfg)
      in case on_world (pv_stream pv use_model messages temperature) gw of
           ((events, failure), gw') \<Rightarrow>
             (case stream_tokens events (0, 0, 0) of
                (prompt_tokens, completion_tokens, total_tokens) \<Rightarrow>
                  ((stream_texts events,
                    (case failure of
                       None \<Rightarrow> None
                     | Some _ \<Rightarrow> Some (raise_app UpstreamAIError ''AI provider error during chat stream''))),
                   record_usage ws operation use_model prompt_tokens completion_tokens total_tokens req_id gw')))"

definition acquire_slot :: "settings \<Rightarrow> 'w gateway \<Rightarrow> 'w gateway" where
  "acquire_slot cfg gw =
     (let b = (case gw_bucket gw of
                 None \<Rightarrow> new_bucket (embed_max_rpm cfg) (gw_clock gw)
               | Some b \<Rightarrow> b)
      in case acquire b (gw_clock gw) of
           (b', t) \<Rightarrow> gw\<lparr>gw_bucket := Some b', gw_clock := t\<rparr>)"

definition batches :: "nat \<Rightarrow> 'a list \<Rightarrow> 'a list list" where
  "batches b xs = map (\<lambda>n. take b (drop (b * n) xs)) [0..<(length xs + b - 1) div b]"

fun embed_loop ::
    "settings \<Rightarrow> 'w provider \<Rightarrow> uuid \<Rightarrow> string \<Rightarrow> string list list \<Rightarrow> vector list \<Rightarrow> 'w gateway \<Rightarrow>
     (exn + vector list) \<times> 'w gateway" where
  "embed_loop cfg pv ws use_model [] out gw = (Inr out, gw)"
| "embed_loop cfg pv ws use_model (chunk # chunks) out gw =
     (case with_retry (on_world (pv_embed pv use_model chunk)) sleep ''embed'' (acquire_slot cfg gw) of
        (Inl e, gw') \<Rightarrow> (Inl e, gw')
      | (Inr emb, gw') \<Rightarrow>
          embed_loop cfg pv ws use_model chunks (out @ er_vectors emb)
            (record_usage ws ''embedding'' use_model (er_prompt_tokens emb) 0 (er_total_tokens emb)
               None gw'))"

text \<open>\<open>range(0, n, 0)\<close> is a \<open>ValueError\<close>; a negative step gives no batch.\<close>

definition embed ::
    "settings \<Rightarrow> 'w provider \<Rightarrow> string list \<Rightarrow> uuid \<Rightarrow> string option \<Rightarrow> 'w gateway \<Rightarrow>
     (exn + vector list) \<times> 'w gateway" where
  "embed cfg pv texts ws model gw =
     (if texts = [] then (Inr [], gw)
      else
        let use_model = str_or model (embedding_model cfg);
            b = embed_batch_size cfg
        in if b = 0 then (Inl (PyError ''ValueError'' ''range() arg 3 must not be zero''), gw)
           else embed_loop cfg pv ws use_model (if b < 0 then [] else batches (nat b) texts) [] gw)"

subsection \<open>The token bucket\<close>

definition bucket_ok :: "token_bucket \<Rightarrow> bool" where
  "bucket_ok b \<longleftrightarrow>
     1 \<le> tb_capacity b \<and> tb_refill_per_sec b = tb_capacity b / 60 \<and>
     0 \<le> tb_tokens b \<and> tb_tokens b \<le> tb_capacity b"

text \<open>
  The lock serialises the calls: the next one starts when the one before has returned, or later by
  the idle time \<open>d\<close>. The run lists the instants at which the calls return.
\<close>

fun run_acquires :: "token_bucket \<Rightarrow> rat \<Rightarrow> rat list \<Rightarrow> rat list" where
  "run_acquires b t [] = []"
| "run_acquires b t (d # ds) =
     (case acquire b (t + d) of (b', t') \<Rightarrow> t' # run_acquires b' t' ds)"

lemma new_bucket_ok: "bucket_ok (new_bucket rate now)"
  by (simp add: bucket_ok_def new_bucket_def Let_def)

lemma acquire_ok:
  assumes "bucket_ok b" and "tb_updated b \<le> now" and "acquire b now = (b', t')"
  shows "bucket_ok b'" "now \<le> t'" "tb_updated b' = now"
    "tb_refill_per_sec b' = tb_refill_per_sec b" "tb_capacity b' = tb_capacity b"
proof -
  have r: "0 < tb_refill_per_sec b" using assms(1) by (simp add: bucket_ok_def)
  have "0 \<le> (now - tb_updated b) * tb_refill_per_sec b" using assms(2) r by simp
  then have a0: "0 \<le> min (tb_capacity b) (tb_tokens b + (now - tb_updated b) * tb_refill_per_sec b)"
    using assms(1) by (simp add: bucket_ok_def)
  show "bucket_ok b'" "now \<le> t'" "tb_updated b' = now"
    "tb_refill_per_sec b' = tb_refill_per_sec b" "tb_capacity b' = tb_capacity b"
    using assms(1,3) a0 r by (auto simp: acquire_def Let_def bucket_ok_def split: if_splits)
qed

definition bucket_level :: "token_bucket \<Rightarrow> rat \<Rightarrow> rat" where
  "bucket_level b t = tb_tokens b + (t - tb_updated b) * tb_refill_per_sec b"

lemma acquire_bucket_level:
  assumes "bucket_ok b" and "acquire b now = (b', t')"
  shows "1 + bucket_level b' t' \<le> bucket_level b now + 2 * tb_refill_per_sec b * (t' - now)"
proof -
  let ?r = "tb_refill_per_sec b" and ?a = "min (tb_capacity b) (bucket_level b now)"
  have r: "0 < ?r" using assms(1) by (simp add: bucket_ok_def)
  show ?thesis
  proof (cases "?a < 1")
    case True
    then have res: "b' = b\<lparr>tb_tokens := 0, tb_updated := now\<rparr>" "t' = now + (1 - ?a) / ?r"
      using assms(2) by (auto simp: acquire_def Let_def bucket_level_def)
    have w: "?r * (t' - now) = 1 - ?a" using r by (simp add: res(2))
    have "bucket_level b' t' = 1 - ?a" using w by (simp add: res(1) bucket_level_def mult.commute)
    then show ?thesis using w by (simp add: mult.assoc)
  next
    case False
    then have "b' = b\<lparr>tb_tokens := ?a - 1, tb_updated := now\<rparr>" "t' = now"
      using assms(2) by (auto simp: acquire_def Let_def bucket_level_def)
    then show ?thesis by (simp add: bucket_level_def)
  qed
qed

lemma run_acquires_bound:
  assumes "bucket_ok b" and "tb_updated b \<le> t" and "\<forall>d \<in> set ds. 0 \<le> d"
  shows "of_nat (length ds) \<le> bucket_level b t
           + 2 * tb_refill_per_sec b * (last (t # run_acquires b t ds) - t)"
  using assms
proof (induction ds arbitrary: b t)
  case Nil
  then have "0 \<le> bucket_level b t" by (simp add: bucket_level_def bucket_ok_def)
  then show ?case by simp
next
  case (Cons d ds)
  obtain b' t' where step: "acquire b (t + d) = (b', t')" by (cases "acquire b (t + d)")
  let ?r = "tb_refill_per_sec b" and ?e = "last (t' # run_acquires b' t' ds)"
  have now: "tb_updated b \<le> t + d" using Cons.prems by simp
  note ok = acquire_ok [OF Cons.prems(1) now step]
  have IH: "of_nat (length ds) \<le> bucket_level b' t' + 2 * ?r * (?e - t')"
    using Cons.IH [of b' t'] ok Cons.prems(3) by simp
  have "1 + bucket_level b' t' \<le> bucket_level b (t + d) + 2 * ?r * (t' - (t + d))"
    by (rule acquire_bucket_level [OF Cons.prems(1) step])
  also have "bucket_level b (t + d) = bucket_level b t + ?r * d"
    by (simp add: bucket_level_def algebra_simps)
  finally have "1 + of_nat (length ds) \<le> bucket_level b t + ?r * d + 2 * ?r * (?e - (t + d))"
    using IH by (simp add: algebra_simps)
  moreover have "0 \<le> ?r * d" using Cons.prems(1,3) by (simp add: bucket_ok_def)
  ultimately show ?case using step by (simp add: algebra_simps)
qed

text \<open>A bucket with no token left, just updated: two calls per refilled token.\<close>

definition drained :: "token_bucket \<Rightarrow> rat \<Rightarrow> bool" where
  "drained b t \<longleftrightarrow> bucket_ok b \<and> tb_tokens b = 0 \<and> tb_updated b = t"

lemma acquire_drained:
  assumes "drained b t"
  defines "w \<equiv> 1 / tb_refill_per_sec b"
  shows "acquire b t = (b, t + w)" and "acquire b (t + w) = (b\<lparr>tb_updated := t + w\<rparr>, t + w)"
    and "drained (b\<lparr>tb_updated := t + w\<rparr>) (t + w)"
proof -
  have b: "1 \<le> tb_capacity b" "tb_tokens b = 0" "tb_updated b = t" "0 < tb_refill_per_sec b"
    using assms(1) by (auto simp: drained_def bucket_ok_def)
  then have upd: "b\<lparr>tb_tokens := 0, tb_updated := t\<rparr> = b" by (cases b) simp
  show "acquire b t = (b, t + w)"
    using b upd by (simp add: acquire_def Let_def w_def)
  have "b\<lparr>tb_tokens := 0, tb_updated := t + w\<rparr> = b\<lparr>tb_updated := t + w\<rparr>"
    using b by (cases b) simp
  then show "acquire b (t + w) = (b\<lparr>tb_updated := t + w\<rparr>, t + w)"
    using b by (simp add: acquire_def Let_def w_def)
  show "drained (b\<lparr>tb_updated := t + w\<rparr>) (t + w)"
    using assms(1) by (simp add: drained_def bucket_ok_def)
qed

lemma run_drained:
  assumes "drained b t"
  shows "run_acquires b t (replicate (2 * n) 0)
           = concat (map (\<lambda>k. [t + of_nat k / tb_refill_per_sec b, t + of_nat k / tb_refill_per_sec b])
               [1..<Suc n])"
  using assms
proof (induction n arbitrary: b t)
  case (Suc n)
  let ?w = "1 / tb_refill_per_sec b"
  note acq = acquire_drained [OF Suc.prems]
  have "[1..<Suc (Suc n)] = 1 # map Suc [1..<Suc n]"
    by (simp add: upt_conv_Cons map_Suc_upt del: upt_Suc)
  then show ?case
    using Suc.IH [OF acq(3)] acq(1,2)
    by (simp add: comp_def add_divide_distrib add.assoc del: upt_Suc)
qed simp

lemma run_full:
  assumes "tb_updated b = t" and "tb_tokens b = of_nat n" and "bucket_ok b"
  shows "run_acquires b t (replicate (n + m) 0)
           = replicate n t @ run_acquires (b\<lparr>tb_tokens := 0\<rparr>) t (replicate m 0)"
  using assms
proof (induction n arbitrary: b)
  case 0
  then have "b\<lparr>tb_tokens := 0\<rparr> = b" by (cases b) simp
  then show ?case by simp
next
  case (Suc n)
  have "tb_tokens b \<le> tb_capacity b" using Suc.prems(3) by (simp add: bucket_ok_def)
  then have acq: "acquire b t = (b\<lparr>tb_tokens := of_nat n\<rparr>, t)"
    using Suc.prems(1,2) by (cases b) (simp add: acquire_def Let_def)
  have "bucket_ok (b\<lparr>tb_tokens := of_nat n\<rparr>)" using Suc.prems by (simp add: bucket_ok_def)
  with Suc.IH [of "b\<lparr>tb_tokens := of_nat n\<rparr>"] Suc.prems(1) acq show ?case by simp
qed

lemma run_acquires_sorted:
  assumes "bucket_ok b" and "tb_updated b \<le> t" and "\<forall>d \<in> set ds. 0 \<le> d"
  shows "sorted (t # run_acquires b t ds)"
  using assms
proof (induction ds arbitrary: b t)
  case (Cons d ds)
  obtain b' t' where step: "acquire b (t + d) = (b', t')" by (cases "acquire b (t + d)")
  have now: "tb_updated b \<le> t + d" using Cons.prems by simp
  note ok = acquire_ok [OF Cons.prems(1) now step]
  have tt: "t \<le> t'" using ok(2) Cons.prems(3) by auto
  have "sorted (t' # run_acquires b' t' ds)"
    using Cons.IH [of b' t'] ok Cons.prems(3) by simp
  then show ?case using step tt by auto
qed simp

interpretation bucket: guarded_steps "\<lambda>(b, t) d. acquire b (t + max 0 d)"
    "\<lambda>(b, t). bucket_ok b \<and> tb_capacity b = cap \<and> tb_updated b \<le> t" for cap
proof unfold_locales
  fix s :: "token_bucket \<times> rat" and d
  assume inv: "case s of (b, t) \<Rightarrow> bucket_ok b \<and> tb_capacity b = cap \<and> tb_updated b \<le> t"
  obtain b t where s: "s = (b, t)" by (cases s)
  obtain b' t' where acq: "acquire b (t + max 0 d) = (b', t')" by (cases "acquire b (t + max 0 d)")
  have "0 \<le> max 0 d" by simp
  then have "tb_updated b \<le> t + max 0 d" using inv s by simp linarith
  from acquire_ok [OF _ this acq] inv s acq
  show "case (case s of (b, t) \<Rightarrow> \<lambda>d. acquire b (t + max 0 d)) d of
      (b, t) \<Rightarrow> bucket_ok b \<and> tb_capacity b = cap \<and> tb_updated b \<le> t"
    by simp
qed

lemma new_bucket_simps [simp]:
  "tb_capacity (new_bucket rate now) = of_int (max 1 rate)"
  "tb_tokens (new_bucket rate now) = of_int (max 1 rate)"
  "tb_refill_per_sec (new_bucket rate now) = of_int (max 1 rate) / 60"
  "tb_updated (new_bucket rate now) = now"
  by (simp_all add: new_bucket_def Let_def)

text \<open>
  The embedding limiter never lets more calls through than the bucket holds plus twice the
  refill: from a new bucket at time \<open>t\<close>, if \<open>k\<close> serialised calls have returned by the instant
  \<open>e\<close>, then \<open>k\<close> is at most \<open>R + 2 * R/60 * (e - t)\<close> for the configured rate \<open>R\<close>; no call
  returns before it started and the bucket stays between empty and its capacity.
\<close>

theorem embed_rate_bound:
  assumes "\<forall>d \<in> set ds. 0 \<le> d"
  shows "of_nat (length ds) \<le> of_int (max 1 rate)
           + 2 * (of_int (max 1 rate) / 60) * (last (t # run_acquires (new_bucket rate t) t ds) - t) \<and>
         sorted (t # run_acquires (new_bucket rate t) t ds) \<and>
         (case foldl (\<lambda>(b, t) d. acquire b (t + max 0 d)) (new_bucket rate t, t) ds of
            (b, t') \<Rightarrow> 0 \<le> tb_tokens b \<and> tb_tokens b \<le> of_int (max 1 rate) \<and> tb_updated b \<le> t')"
proof (intro conjI)
  let ?b = "new_bucket rate t"
  show "of_nat (length ds) \<le> of_int (max 1 rate)
           + 2 * (of_int (max 1 rate) / 60) * (last (t # run_acquires ?b t ds) - t)"
    using run_acquires_bound [OF new_bucket_ok, of rate t t ds] assms
    by (simp only: bucket_level_def new_bucket_simps) simp
  show "sorted (t # run_acquires ?b t ds)"
    by (rule run_acquires_sorted) (use assms in \<open>auto simp: new_bucket_ok\<close>)
  show "case foldl (\<lambda>(b, t) d. acquire b (t + max 0 d)) (?b, t) ds of
      (b, t') \<Rightarrow> 0 \<le> tb_tokens b \<and> tb_tokens b \<le> of_int (max 1 rate) \<and> tb_updated b \<le> t'"
    using bucket.run_inv [of "of_int (max 1 rate)" "(?b, t)" ds]
    by (auto simp: new_bucket_ok bucket_ok_def max.coboundedI1 split: prod.splits)
qed

lemma embed_rate_bound_witness:
  "(1 :: rat) \<le> of_int (max 1 6)
     + 2 * (of_int (max 1 6) / 60) * (last (0 # run_acquires (new_bucket 6 0) 0 [5]) - 0)"
  using embed_rate_bound [of "[5]" 6 0] by simp

text \<open>
  The bound is reached, at twice the configured rate: with \<open>R\<close> calls a minute configured,
  \<open>R + 2 * n\<close> back-to-back calls return within \<open>n * 60 / R\<close> seconds, because \<open>acquire\<close> leaves
  \<open>_updated\<close> at the instant before it slept and so refills the slept time a second time. The first
  \<open>R\<close> calls return at once, the others in pairs.
\<close>

theorem embed_rate_doubled:
  assumes "0 < R"
  shows "run_acquires (new_bucket (int R) t) t (replicate (R + 2 * n) 0)
           = replicate R t @ concat (map (\<lambda>k. [t + of_nat k / (of_nat R / 60), t + of_nat k / (of_nat R / 60)])
               [1..<Suc n])"
proof -
  have R: "max 1 (int R) = int R" using assms by simp
  let ?b = "new_bucket (int R) t"
  have "drained (?b\<lparr>tb_tokens := 0\<rparr>) t"
    using new_bucket_ok [of "int R" t] by (simp add: drained_def bucket_ok_def)
  from run_drained [OF this, of n]
  have "run_acquires (?b\<lparr>tb_tokens := 0\<rparr>) t (replicate (2 * n) 0)
      = concat (map (\<lambda>k. [t + of_nat k / (of_nat R / 60), t + of_nat k / (of_nat R / 60)]) [1..<Suc n])"
    using R by simp
  then show ?thesis
    using run_full [of ?b t R "2 * n"] R by (simp add: new_bucket_ok)
qed

lemma embed_rate_doubled_witness:
  "run_acquires (new_bucket 60 0) 0 (replicate 180 0)
     = replicate 60 0 @ concat (map (\<lambda>k. [rat_of_nat k, rat_of_nat k]) [1..<61])"
  using embed_rate_doubled [of 60 0 60] by simp

subsection \<open>Retry and usage logging\<close>

lemma upt_retries: "[1..<max_retries + 1] = [1, 2, 3]"
  by (simp add: max_retries_def upt_rec numeral_eq_Suc)

definition upstream :: "string \<Rightarrow> exn" where
  "upstream what = raise_app UpstreamAIError (''AI provider error during '' @ what)"

lemma with_retry_unroll:
  "with_retry coro slp what s =
     (case coro s of
        (Inr x, s1) \<Rightarrow> (Inr x, s1)
      | (Inl e1, s1) \<Rightarrow>
          if \<not> is_transient e1 then (Inl (upstream what), s1) else
          case coro (slp 2 s1) of
            (Inr x, s2) \<Rightarrow> (Inr x, s2)
          | (Inl e2, s2) \<Rightarrow>
              if \<not> is_transient e2 then (Inl (upstream what), s2) else
              case coro (slp 4 s2) of
                (Inr x, s3) \<Rightarrow> (Inr x, s3)
              | (Inl e3, s3) \<Rightarrow> (Inl (upstream what), s3))"
  unfolding with_retry_def upt_retries
  by (simp add: max_retries_def upstream_def split: prod.splits sum.splits)

text \<open>What holds of one call, whatever its outcome, and of sleeping holds of the retried call.\<close>

lemma with_retry_rel:
  assumes "with_retry coro slp what s = (r, s')"
    and "\<And>s. Q s \<Longrightarrow> Q (snd (coro s))" and "\<And>d s. Q s \<Longrightarrow> Q (slp d s)" and "Q s"
  shows "Q s'"
  using assms(1) assms(2) [OF assms(4)] assms(2) [OF assms(3)] assms(3)
  unfolding with_retry_unroll
  by (auto split: prod.splits sum.splits if_splits) (metis snd_conv)+

lemma with_retry_result:
  assumes "with_retry coro slp what s = (r, s')"
  shows "case r of Inl e \<Rightarrow> e = upstream what | Inr x \<Rightarrow> \<exists>s0. coro s0 = (Inr x, s')"
  using assms unfolding with_retry_unroll by (auto split: prod.splits sum.splits if_splits)

lemma with_retry_commute:
  assumes "\<And>s. coro (u s) = map_prod id u (coro s)" and "\<And>d s. slp d (u s) = u (slp d s)"
  shows "with_retry coro slp what (u s) = map_prod id u (with_retry coro slp what s)"
proof -
  have "retry_loop coro slp ns e (u s) = map_prod id u (retry_loop coro slp ns e s)" for ns e s
    by (induction ns arbitrary: e s) (auto simp: assms split: prod.split sum.split)
  then show ?thesis by (auto simp: with_retry_def split: prod.split sum.split)
qed

lemma record_usage_simps [simp]:
  "gw_world (record_usage ws op m p c t rid gw) = gw_world gw"
  "gw_clock (record_usage ws op m p c t rid gw) = gw_clock gw"
  "gw_writes (record_usage ws op m p c t rid gw) = gw_writes gw + 1"
  "gw_usage_ok (record_usage ws op m p c t rid gw) = gw_usage_ok gw"
  "gw_bucket (record_usage ws op m p c t rid gw) = gw_bucket gw"
  by (simp_all add: record_usage_def Let_def)

definition same_log :: "'w gateway \<Rightarrow> 'w gateway \<Rightarrow> bool" where
  "same_log gw gw' \<longleftrightarrow> gw_writes gw' = gw_writes gw \<and> gw_usage gw' = gw_usage gw \<and>
     gw_usage_ok gw' = gw_usage_ok gw"

lemma same_log_steps [simp]:
  "same_log gw (sleep d gw') = same_log gw gw'"
  "same_log gw (snd (on_world f gw')) = same_log gw gw'"
  "same_log gw (acquire_slot cfg gw') = same_log gw gw'"
  "same_log gw gw"
  by (simp_all add: same_log_def sleep_def on_world_def acquire_slot_def Let_def
      split: prod.split option.split)

lemma retried_call_same_log:
  "with_retry (on_world f) sleep what gw = (r, gw') \<Longrightarrow> same_log gw gw'"
  using with_retry_rel [where Q = "same_log gw" and coro = "on_world f" and slp = sleep]
  by (metis same_log_steps)

lemma acquire_slot_log: "gw_writes (acquire_slot cfg gw) = gw_writes gw"
  using same_log_steps(3) [of gw cfg gw] by (simp add: same_log_def)

lemma embed_loop_result:
  assumes law: "\<And>xs w e w'. pv_embed pv m xs w = (Inr e, w') \<Longrightarrow> er_vectors e = map f xs"
    and "embed_loop cfg pv ws m chunks out gw = (r, gw')"
  shows "(r = Inr (out @ map f (concat chunks)) \<and> gw_writes gw' = gw_writes gw + length chunks) \<or>
         (r = Inl (upstream ''embed'') \<and>
          gw_writes gw \<le> gw_writes gw' \<and> gw_writes gw' < gw_writes gw + length chunks)"
  using assms(2)
proof (induction chunks arbitrary: out gw)
  case (Cons chunk chunks)
  obtain r1 gw1 where call:
    "with_retry (on_world (pv_embed pv m chunk)) sleep ''embed'' (acquire_slot cfg gw) = (r1, gw1)"
    by fastforce
  have writes: "gw_writes gw1 = gw_writes gw"
    using retried_call_same_log [OF call] by (simp add: same_log_def acquire_slot_log)
  show ?case
  proof (cases r1)
    case (Inl e)
    then show ?thesis using with_retry_result [OF call] Cons.prems call writes by auto
  next
    case (Inr emb)
    then obtain s0 where "on_world (pv_embed pv m chunk) s0 = (Inr emb, gw1)"
      using with_retry_result [OF call] by auto
    then have "er_vectors emb = map f chunk"
      using law by (fastforce simp: on_world_def split: prod.splits)
    then show ?thesis using Cons.IH [of "out @ er_vectors emb"] Cons.prems call Inr writes
      by fastforce
  qed
qed simp

lemma embed_loop_succeeds:
  assumes "\<And>xs w. \<exists>e w'. pv_embed pv m xs w = (Inr e, w')"
  shows "\<exists>v gw'. embed_loop cfg pv ws m chunks out gw = (Inr v, gw')"
proof (induction chunks arbitrary: out gw)
  case (Cons chunk chunks)
  obtain e w' where "pv_embed pv m chunk (gw_world (acquire_slot cfg gw)) = (Inr e, w')"
    using assms by blast
  then show ?case using Cons.IH by (simp add: with_retry_unroll on_world_def)
qed simp

text \<open>Changing the usage log commutes with every part of the gateway.\<close>

definition relog :: "(nat \<Rightarrow> bool) \<Rightarrow> token_usage list \<Rightarrow> nat \<Rightarrow> 'w gateway \<Rightarrow> 'w gateway" where
  "relog ok rows n gw = gw\<lparr>gw_usage_ok := ok, gw_usage := rows, gw_writes := n\<rparr>"

lemma relog_simps [simp]:
  "gw_world (relog ok rows n gw) = gw_world gw"
  "gw_clock (relog ok rows n gw) = gw_clock gw"
  "on_world f (relog ok rows n gw) = map_prod id (relog ok rows n) (on_world f gw)"
  "sleep d (relog ok rows n gw) = relog ok rows n (sleep d gw)"
  "acquire_slot cfg (relog ok rows n gw) = relog ok rows n (acquire_slot cfg gw)"
  by (simp_all add: relog_def on_world_def sleep_def acquire_slot_def Let_def
      split: prod.split option.split)

lemma record_usage_relog:
  "record_usage ws op m p c t rid (relog ok rows n gw)
     = relog ok (gw_usage (record_usage ws op m p c t rid (relog ok rows n gw))) (n + 1)
         (record_usage ws op m p c t rid gw)"
  by (simp add: relog_def record_usage_def Let_def)

lemma retry_relog:
  "with_retry (on_world f) sleep what (relog ok rows n gw)
     = map_prod id (relog ok rows n) (with_retry (on_world f) sleep what gw)"
  by (rule with_retry_commute) simp_all

lemma embed_loop_relog:
  "\<exists>rows' n'. embed_loop cfg pv ws m chunks out (relog ok rows n gw)
     = map_prod id (relog ok rows' n') (embed_loop cfg pv ws m chunks out gw)"
proof (induction chunks arbitrary: out gw rows n)
  case Nil
  then show ?case by auto
next
  case (Cons chunk chunks)
  obtain r1 gw1 where call:
    "with_retry (on_world (pv_embed pv m chunk)) sleep ''embed'' (acquire_slot cfg gw) = (r1, gw1)"
    by fastforce
  show ?case
  proof (cases r1)
    case (Inl e)
    then show ?thesis using call by (auto simp: retry_relog)
  next
    case (Inr emb)
    have "\<exists>rows' n'. embed_loop cfg pv ws m chunks (out @ er_vectors emb)
            (record_usage ws ''embedding'' m (er_prompt_tokens emb) 0 (er_total_tokens emb) None
               (relog ok rows n gw1))
          = map_prod id (relog ok rows' n') (embed_loop cfg pv ws m chunks (out @ er_vectors emb)
            (record_usage ws ''embedding'' m (er_prompt_tokens emb) 0 (er_total_tokens emb) None gw1))"
      by (subst record_usage_relog) (rule Cons.IH)
    then show ?thesis using call Inr by (simp add: retry_relog id_def)
  qed
qed

lemma concat_batches [simp]: "0 < b \<Longrightarrow> concat (batches b xs) = xs"
  unfolding batches_def by (rule concat_slices)

definition gw_seen :: "'w gateway \<Rightarrow> 'w \<times> rat \<times> token_bucket option" where
  "gw_seen gw = (gw_world gw, gw_clock gw, gw_bucket gw)"

lemma gw_seen_simps [simp]:
  "gw_seen (relog ok rows n gw) = gw_seen gw"
  "gw_seen (record_usage ws op m p c t rid gw) = gw_seen gw"
  "gw_seen \<circ> relog ok rows n = gw_seen"
  by (simp_all add: gw_seen_def relog_def fun_eq_iff)

text \<open>A provider whose first call ends in a rate-limit error, and a gateway to run it in.\<close>

definition demo_provider :: "nat provider" where
  "demo_provider =
     \<lparr>pv_chat = (\<lambda>m msgs params n.
        if n = 0 then (Inl (PyError ''RateLimitError'' []), 1)
        else (Inr \<lparr>cr_content = ''ok'', cr_prompt_tokens = 1000, cr_completion_tokens = 2000,
                   cr_total_tokens = 3000\<rparr>, n + 1)),
      pv_stream = (\<lambda>m msgs temp n. (([], None), n + 1)),
      pv_embed = (\<lambda>m xs n.
        if n = 0 then (Inl (PyError ''RateLimitError'' []), 1)
        else (Inr \<lparr>er_vectors = map (\<lambda>x. [rat_of_nat (length x)]) xs, er_prompt_tokens = 5,
                   er_total_tokens = 5\<rparr>, n + 1))\<rparr>"

definition demo_gateway :: "nat gateway" where
  "demo_gateway = \<lparr>gw_world = 0, gw_clock = 0, gw_bucket = None, gw_usage = [], gw_writes = 0,
     gw_usage_ok = (\<lambda>n. n \<noteq> 1)\<rparr>"

text \<open>
  C6: \<open>embed\<close> is complete, in order and accounts for every batch: when the provider returns one
  vector per text in order, the result is the vector of every text at its position, however the
  texts are cut into batches and however often a batch is retried, with one usage row tried per
  batch; otherwise it is the upstream error of the gateway, after fewer usage rows than batches. If
  the provider answers every call, it is the first of the two.
\<close>

theorem embed_complete:
  assumes "\<And>m xs w e w'. pv_embed pv m xs w = (Inr e, w') \<Longrightarrow> er_vectors e = map (f m) xs"
    and "0 < embed_batch_size cfg"
    and "embed cfg pv texts ws model gw = (r, gw')"
  shows "let b = nat (embed_batch_size cfg);
             n = (length texts + b - 1) div b;
             vectors = map (f (str_or model (embedding_model cfg))) texts
         in ((r = Inr vectors \<and> gw_writes gw' = gw_writes gw + n) \<or>
             (r = Inl (upstream ''embed'') \<and>
              gw_writes gw \<le> gw_writes gw' \<and> gw_writes gw' < gw_writes gw + n)) \<and>
            ((\<forall>m xs w. \<exists>e w'. pv_embed pv m xs w = (Inr e, w')) \<longrightarrow> r = Inr vectors)"
proof (cases "texts = []")
  case True
  then show ?thesis using assms(2,3) by (auto simp: embed_def Let_def)
next
  case False
  let ?b = "nat (embed_batch_size cfg)" and ?m = "str_or model (embedding_model cfg)"
  have run: "embed_loop cfg pv ws ?m (batches ?b texts) [] gw = (r, gw')"
    using assms(2,3) False by (simp add: embed_def Let_def)
  have len: "length (batches ?b texts) = (length texts + ?b - 1) div ?b"
    by (simp add: batches_def)
  note res = embed_loop_result [OF assms(1) run]
  have ok: "r = Inr (map (f ?m) texts)" if "\<forall>m xs w. \<exists>e w'. pv_embed pv m xs w = (Inr e, w')"
    using res embed_loop_succeeds [of pv ?m cfg ws "batches ?b texts" "[]" gw] that run assms(2)
    by auto
  from res ok assms(2) len show ?thesis by (auto simp: Let_def)
qed


lemma call_llm_writes:
  assumes "call_llm cfg pv messages params ws operation model rid gw = (r, gw')"
  shows "gw_writes gw \<le> gw_writes gw' \<and> gw_writes gw' \<le> gw_writes gw + 1"
  using assms retried_call_same_log [of "pv_chat pv (str_or model (chat_model cfg)) messages params"
      "''call_llm:'' @ operation" gw]
  by (auto simp: call_llm_def same_log_def Let_def split: prod.splits sum.splits)

text \<open>
  C8: Usage logging never breaks a call: for any outcome of the usage writes and any log so far,
  \<open>call_llm\<close>, \<open>embed\<close> and \<open>stream_llm\<close> give the same result, the same provider calls and the same
  waiting.
\<close>

theorem usage_log_transparent:
  "map_prod id gw_seen (call_llm cfg pv messages params ws operation model rid (relog ok rows n gw))
     = map_prod id gw_seen (call_llm cfg pv messages params ws operation model rid gw) \<and>
   map_prod id gw_seen (embed cfg pv texts ws model (relog ok rows n gw))
     = map_prod id gw_seen (embed cfg pv texts ws model gw) \<and>
   map_prod id gw_seen (stream_llm cfg pv messages temperature ws operation model rid (relog ok rows n gw))
     = map_prod id gw_seen (stream_llm cfg pv messages temperature ws operation model rid gw)"
proof (intro conjI)
  show "map_prod id gw_seen (call_llm cfg pv messages params ws operation model rid (relog ok rows n gw))
          = map_prod id gw_seen (call_llm cfg pv messages params ws operation model rid gw)"
    by (auto simp: call_llm_def Let_def retry_relog split: prod.split sum.split)
  show "map_prod id gw_seen (stream_llm cfg pv messages temperature ws operation model rid (relog ok rows n gw))
          = map_prod id gw_seen (stream_llm cfg pv messages temperature ws operation model rid gw)"
    by (auto simp: stream_llm_def Let_def split: prod.split)
  have loop: "map_prod id gw_seen (embed_loop cfg pv ws m chunks out (relog ok rows n gw))
      = map_prod id gw_seen (embed_loop cfg pv ws m chunks out gw)" for m chunks out
    using embed_loop_relog [of cfg pv ws m chunks out ok rows n gw]
    by (auto simp: prod.map_comp)
  show "map_prod id gw_seen (embed cfg pv texts ws model (relog ok rows n gw))
          = map_prod id gw_seen (embed cfg pv texts ws model gw)"
    by (simp add: embed_def Let_def loop)
qed

lemma embed_complete_witness:
  "\<exists>r gw'. embed (default_settings\<lparr>embed_batch_size := 2\<rparr>) demo_provider [''a'', ''bb'', ''ccc''] 1
      None demo_gateway = (r, gw') \<and> r = Inr [[1], [2], [3]] \<and> gw_writes gw' = 2"
proof -
  let ?cfg = "default_settings\<lparr>embed_batch_size := 2\<rparr>"
  obtain r gw' where run: "embed ?cfg demo_provider [''a'', ''bb'', ''ccc''] 1 None demo_gateway = (r, gw')"
    by fastforce
  have law: "pv_embed demo_provider m xs w = (Inr e, w') \<Longrightarrow>
      er_vectors e = map ((\<lambda>m x. [rat_of_nat (length x)]) m) xs" for m xs w e w'
    by (auto simp: demo_provider_def split: if_splits)
  have "\<not> (\<exists>e. r = Inl e)"
    using run by (auto simp: embed_def batches_def upt_rec acquire_slot_def acquire_def new_bucket_def
        on_world_def with_retry_unroll demo_provider_def demo_gateway_def is_transient_def
        transient_names_def sleep_def record_usage_def default_settings_def str_or_def Let_def)
  moreover have "gw_writes demo_gateway = 0" by (simp add: demo_gateway_def)
  ultimately show ?thesis
    using embed_complete [OF law _ run] run by (auto simp: Let_def)
qed


end
