(* ===== verification/Openai.thy ===== *)
theory Openai
  imports Gateway
begin

text \<open>
  The OpenAI provider (\<^verbatim>\<open>app/services/providers/openai.py\<close>). The vendor's SDK is the record \<open>sdk\<close>,
  a parameter: the constructor of a client, which may raise, and the calls of a client, which act on
  the remote world. The module caches its client; the cache is part of the world a provider acts on.
\<close>

subsection \<open>The SDK\<close>

record usage_object =
  uo_prompt_tokens :: "int option"
  uo_completion_tokens :: "int option"
  uo_total_tokens :: "int option"

text \<open>A choice of a completion is the content of its message; a choice of a chunk is its delta.\<close>

record chat_completion =
  cc_choices :: "string option list"
  cc_usage :: "usage_object option"

record stream_chunk =
  sc_choices :: "string option option list"
  sc_usage :: "usage_object option"

record embeddings_response =
  eb_data :: "vector list"
  eb_usage :: "usage_object option"

record chat_request =
  rq_model :: string
  rq_messages :: "message list"
  rq_temperature :: rat
  rq_max_tokens :: "int option"
  rq_json_object :: bool

record ('c, 'w) sdk =
  sdk_client :: "string \<Rightarrow> exn + 'c"
  sdk_chat :: "'c \<Rightarrow> chat_request \<Rightarrow> 'w \<Rightarrow> (exn + chat_completion) \<times> 'w"
  sdk_stream :: "'c \<Rightarrow> chat_request \<Rightarrow> 'w \<Rightarrow> (exn + stream_chunk list \<times> exn option) \<times> 'w"
  sdk_embed :: "'c \<Rightarrow> string \<Rightarrow> string list \<Rightarrow> 'w \<Rightarrow> (exn + embeddings_response) \<times> 'w"

record ('c, 'w) openai_world =
  ow_client :: "'c option"
  ow_remote :: 'w

subsection \<open>The client\<close>

definition get_client :: "settings \<Rightarrow> ('c, 'w) sdk \<Rightarrow> ('c, 'w) openai_world \<Rightarrow> (exn + 'c) \<times> ('c, 'w) openai_world" where
  "get_client cfg sd w =
     (case ow_client w of
        Some c \<Rightarrow> (Inr c, w)
      | None \<Rightarrow>
          (let key = str_or (openai_api_key cfg) ''''
           in if key = '''' then (Inl (raise_app UpstreamAIError ''OPENAI_API_KEY is not configured''), w)
              else case sdk_client sd key of
                Inl e \<Rightarrow> (Inl e, w)
              | Inr c \<Rightarrow> (Inr c, w\<lparr>ow_client := Some c\<rparr>)))"

definition reset_client :: "('c, 'w) openai_world \<Rightarrow> ('c, 'w) openai_world" where
  "reset_client w = w\<lparr>ow_client := None\<rparr>"

text \<open>A call of the client on the remote world.\<close>

definition on_remote :: "('w \<Rightarrow> 'a \<times> 'w) \<Rightarrow> ('c, 'w) openai_world \<Rightarrow> 'a \<times> ('c, 'w) openai_world" where
  "on_remote f w = (case f (ow_remote w) of (r, v) \<Rightarrow> (r, w\<lparr>ow_remote := v\<rparr>))"

subsection \<open>Reading the answers\<close>

text \<open>\<open>getattr(usage, name, 0) or 0\<close>\<close>

definition tokens_of :: "(usage_object \<Rightarrow> int option) \<Rightarrow> usage_object option \<Rightarrow> int" where
  "tokens_of field usage =
     (case usage of None \<Rightarrow> 0 | Some u \<Rightarrow> (case field u of None \<Rightarrow> 0 | Some n \<Rightarrow> n))"

definition chat_result_of :: "chat_completion \<Rightarrow> exn + chat_result" where
  "chat_result_of resp =
     (case cc_choices resp of
        [] \<Rightarrow> Inl (PyError ''IndexError'' ''list index out of range'')
      | content # _ \<Rightarrow>
          Inr \<lparr>cr_content = str_or content '''',
               cr_prompt_tokens = tokens_of uo_prompt_tokens (cc_usage resp),
               cr_completion_tokens = tokens_of uo_completion_tokens (cc_usage resp),
               cr_total_tokens = tokens_of uo_total_tokens (cc_usage resp)\<rparr>)"

definition chunk_usage :: "stream_chunk \<Rightarrow> stream_usage option" where
  "chunk_usage chunk =
     (case sc_usage chunk of
        None \<Rightarrow> None
      | Some u \<Rightarrow> Some \<lparr>su_prompt_tokens = tokens_of uo_prompt_tokens (Some u),
                       su_completion_tokens = tokens_of uo_completion_tokens (Some u),
                       su_total_tokens = tokens_of uo_total_tokens (Some u)\<rparr>)"

definition chunk_text_delta :: "stream_chunk \<Rightarrow> string option" where
  "chunk_text_delta chunk =
     (case sc_choices chunk of
        Some (Some (c # cs)) # _ \<Rightarrow> Some (c # cs)
      | _ \<Rightarrow> None)"

fun stream_events :: "stream_chunk list \<Rightarrow> stream_event list" where
  "stream_events [] = []"
| "stream_events (chunk # chunks) =
     (if chunk_text_delta chunk \<noteq> None \<or> chunk_usage chunk \<noteq> None
      then \<lparr>se_text = chunk_text_delta chunk, se_usage = chunk_usage chunk\<rparr> # stream_events chunks
      else stream_events chunks)"

definition embedding_of :: "embeddings_response \<Rightarrow> embedding_result" where
  "embedding_of resp =
     \<lparr>er_vectors = eb_data resp, er_prompt_tokens = tokens_of uo_prompt_tokens (eb_usage resp),
      er_total_tokens = tokens_of uo_total_tokens (eb_usage resp)\<rparr>"

subsection \<open>The calls of a client\<close>

definition chat_kwargs :: "string \<Rightarrow> message list \<Rightarrow> chat_params \<Rightarrow> chat_request" where
  "chat_kwargs model messages params =
     \<lparr>rq_model = model, rq_messages = messages, rq_temperature = cp_temperature params,
      rq_max_tokens = (if cp_max_tokens params = Some 0 then None else cp_max_tokens params),
      rq_json_object = cp_json_object params\<rparr>"

definition stream_kwargs :: "string \<Rightarrow> message list \<Rightarrow> rat \<Rightarrow> chat_request" where
  "stream_kwargs model messages temperature =
     \<lparr>rq_model = model, rq_messages = messages, rq_temperature = temperature,
      rq_max_tokens = None, rq_json_object = False\<rparr>"

definition client_provider :: "('c, 'w) sdk \<Rightarrow> 'c \<Rightarrow> 'w provider" where
  "client_provider sd c =
     \<lparr>pv_chat = (\<lambda>model messages params w.
        case sdk_chat sd c (chat_kwargs model messages params) w of
          (Inl e, w') \<Rightarrow> (Inl e, w') | (Inr resp, w') \<Rightarrow> (chat_result_of resp, w')),
      pv_stream = (\<lambda>model messages temperature w.
        case sdk_stream sd c (stream_kwargs model messages temperature) w of
          (Inl e, w') \<Rightarrow> (([], Some e), w')
        | (Inr (chunks, failure), w') \<Rightarrow> ((stream_events chunks, failure), w')),
      pv_embed = (\<lambda>model texts w.
        case sdk_embed sd c model texts w of
          (Inl e, w') \<Rightarrow> (Inl e, w') | (Inr resp, w') \<Rightarrow> (Inr (embedding_of resp), w'))\<rparr>"

text \<open>The provider itself: every call asks for the client first.\<close>

definition with_client ::
    "settings \<Rightarrow> ('c, 'w) sdk \<Rightarrow> (exn \<Rightarrow> 'a) \<Rightarrow> ('c \<Rightarrow> 'w \<Rightarrow> 'a \<times> 'w) \<Rightarrow> ('c, 'w) openai_world \<Rightarrow>
     'a \<times> ('c, 'w) openai_world" where
  "with_client cfg sd raised f w =
     (case get_client cfg sd w of
        (Inl e, w') \<Rightarrow> (raised e, w')
      | (Inr c, w') \<Rightarrow> on_remote (f c) w')"

definition openai_provider :: "settings \<Rightarrow> ('c, 'w) sdk \<Rightarrow> ('c, 'w) openai_world provider" where
  "openai_provider cfg sd =
     \<lparr>pv_chat = (\<lambda>model messages params.
        with_client cfg sd Inl (\<lambda>c. pv_chat (client_provider sd c) model messages params)),
      pv_stream = (\<lambda>model messages temperature.
        with_client cfg sd (\<lambda>e. ([], Some e))
          (\<lambda>c. pv_stream (client_provider sd c) model messages temperature)),
      pv_embed = (\<lambda>model texts.
        with_client cfg sd Inl (\<lambda>c. pv_embed (client_provider sd c) model texts))\<rparr>"

subsection \<open>Backends that refine others\<close>

text \<open>A gateway over another world.\<close>

definition gw_map :: "('w \<Rightarrow> 'v) \<Rightarrow> 'w gateway \<Rightarrow> 'v gateway" where
  "gw_map f gw =
     \<lparr>gw_world = f (gw_world gw), gw_clock = gw_clock gw, gw_bucket = gw_bucket gw,
      gw_usage = gw_usage gw, gw_writes = gw_writes gw, gw_usage_ok = gw_usage_ok gw\<rparr>"

lemma gw_map_simps [simp]:
  "gw_world (gw_map f gw) = f (gw_world gw)" "gw_clock (gw_map f gw) = gw_clock gw"
  "gw_bucket (gw_map f gw) = gw_bucket gw" "gw_usage (gw_map f gw) = gw_usage gw"
  "gw_writes (gw_map f gw) = gw_writes gw" "gw_usage_ok (gw_map f gw) = gw_usage_ok gw"
  "gw_map f (gw\<lparr>gw_world := w\<rparr>) = (gw_map f gw)\<lparr>gw_world := f w\<rparr>"
  by (simp_all add: gw_map_def)

lemma gw_map_record_usage [simp]:
  "gw_map f (record_usage ws operation model p c t rid gw) =
     record_usage ws operation model p c t rid (gw_map f gw)"
  "gw_world (record_usage ws operation model p c t rid gw) = gw_world gw"
  by (simp_all add: record_usage_def gw_map_def Let_def)

lemma gw_map_sleep [simp]:
  "gw_map f (sleep s gw) = sleep s (gw_map f gw)" "gw_world (sleep s gw) = gw_world gw"
  by (simp_all add: sleep_def gw_map_def)

lemma gw_map_acquire_slot [simp]:
  "gw_map f (acquire_slot cfg gw) = acquire_slot cfg (gw_map f gw)"
  "gw_world (acquire_slot cfg gw) = gw_world gw"
  by (cases "gw_bucket gw"; simp add: acquire_slot_def gw_map_def Let_def split: prod.splits)+

text \<open>One computation refines another: equal results, related states, and \<open>good\<close> is kept.\<close>

definition refines_op :: "('s \<Rightarrow> 't) \<Rightarrow> ('s \<Rightarrow> bool) \<Rightarrow> ('s \<Rightarrow> 'a \<times> 's) \<Rightarrow> ('t \<Rightarrow> 'a \<times> 't) \<Rightarrow> bool" where
  "refines_op f good op op' \<longleftrightarrow>
     (\<forall>s. good s \<longrightarrow> op' (f s) = (fst (op s), f (snd (op s))) \<and> good (snd (op s)))"

lemma refines_opD:
  assumes "refines_op f good op op'" and "good s" and "op s = (r, s')"
  shows "op' (f s) = (r, f s')" "good s'"
  using assms by (auto simp: refines_op_def)

lemma refines_on_world:
  assumes "refines_op f good op op'"
  shows "refines_op (gw_map f) (\<lambda>gw. good (gw_world gw)) (on_world op) (on_world op')"
  using assms by (auto simp: refines_op_def on_world_def split: prod.splits)

lemma refines_retry_loop:
  assumes op: "refines_op (gw_map f) (\<lambda>gw. good (gw_world gw)) op op'" and "good (gw_world gw)"
    and "retry_loop op sleep attempts last_exc gw = (r, gw')"
  shows "retry_loop op' sleep attempts last_exc (gw_map f gw) = (r, gw_map f gw') \<and> good (gw_world gw')"
  using assms(2,3)
proof (induction attempts arbitrary: last_exc gw)
  case Nil
  then show ?case by simp
next
  case (Cons attempt attempts)
  obtain x gw1 where call: "op gw = (x, gw1)" by (cases "op gw")
  note step = refines_opD [OF op Cons.prems(1) call]
  show ?case
  proof (cases x)
    case (Inr a)
    then show ?thesis using Cons.prems(2) call step by auto
  next
    case (Inl e)
    then show ?thesis using Cons.prems(2) Cons.IH [of "sleep _ gw1"] call step by (auto split: if_splits)
  qed
qed

lemma refines_with_retry:
  assumes "refines_op (gw_map f) (\<lambda>gw. good (gw_world gw)) op op'"
  shows "refines_op (gw_map f) (\<lambda>gw. good (gw_world gw)) (with_retry op sleep what) (with_retry op' sleep what)"
  using refines_retry_loop [of f good op op'] assms
  unfolding refines_op_def [of _ _ "with_retry op sleep what"] with_retry_def
  by (fastforce split: prod.splits sum.splits)

locale backend_refines =
  fixes pv :: "'w provider" and pv' :: "'v provider" and remote :: "'w \<Rightarrow> 'v" and good :: "'w \<Rightarrow> bool"
  assumes chat: "refines_op remote good (pv_chat pv model messages params) (pv_chat pv' model messages params)"
    and stream: "refines_op remote good (pv_stream pv model messages temperature)
                   (pv_stream pv' model messages temperature)"
    and embeds: "refines_op remote good (pv_embed pv model texts) (pv_embed pv' model texts)"
begin

abbreviation "refines \<equiv> refines_op (gw_map remote) (\<lambda>gw. good (gw_world gw))"

lemma call_refines:
  "refines (call_llm cfg pv messages params ws operation model rid)
     (call_llm cfg pv' messages params ws operation model rid)"
  unfolding refines_op_def [of _ _ "call_llm cfg pv messages params ws operation model rid"]
proof (intro allI impI)
  fix gw :: "'w gateway"
  assume ok: "good (gw_world gw)"
  let ?call = "\<lambda>pv. with_retry (on_world (pv_chat pv (str_or model (chat_model cfg)) messages params)) sleep
                 (''call_llm:'' @ operation)"
  obtain x gw1 where call: "?call pv gw = (x, gw1)" by (cases "?call pv gw")
  note step = refines_opD [OF refines_with_retry [OF refines_on_world [OF chat]] ok call]
  then show "call_llm cfg pv' messages params ws operation model rid (gw_map remote gw) =
      (fst (call_llm cfg pv messages params ws operation model rid gw),
       gw_map remote (snd (call_llm cfg pv messages params ws operation model rid gw))) \<and>
    good (gw_world (snd (call_llm cfg pv messages params ws operation model rid gw)))"
    using call by (cases x) (simp_all add: call_llm_def Let_def)
qed

lemma stream_refines:
  "refines (stream_llm cfg pv messages temperature ws operation model rid)
     (stream_llm cfg pv' messages temperature ws operation model rid)"
  unfolding refines_op_def [of _ _ "stream_llm cfg pv messages temperature ws operation model rid"]
proof (intro allI impI)
  fix gw :: "'w gateway"
  assume ok: "good (gw_world gw)"
  let ?call = "\<lambda>pv. on_world (pv_stream pv (str_or model (chat_model cfg)) messages temperature)"
  obtain events failure gw1 where call: "?call pv gw = ((events, failure), gw1)" by (metis surj_pair)
  note step = refines_opD [OF refines_on_world [OF stream] ok call]
  then show "stream_llm cfg pv' messages temperature ws operation model rid (gw_map remote gw) =
      (fst (stream_llm cfg pv messages temperature ws operation model rid gw),
       gw_map remote (snd (stream_llm cfg pv messages temperature ws operation model rid gw))) \<and>
    good (gw_world (snd (stream_llm cfg pv messages temperature ws operation model rid gw)))"
    using call by (simp add: stream_llm_def Let_def split: prod.splits)
qed

lemma embed_loop_refines:
  "refines (embed_loop cfg pv ws model chunks out) (embed_loop cfg pv' ws model chunks out)"
proof (induction chunks arbitrary: out)
  case Nil
  then show ?case by (simp add: refines_op_def)
next
  case (Cons chunk chunks)
  note retry = refines_with_retry [OF refines_on_world [OF embeds [of model chunk]], of "''embed''"]
  show ?case
    unfolding refines_op_def
  proof (intro allI impI)
    fix gw :: "'w gateway"
    assume "good (gw_world gw)"
    obtain x gw1 where call: "with_retry (on_world (pv_embed pv model chunk)) sleep ''embed'' (acquire_slot cfg gw) = (x, gw1)"
      by (cases "with_retry (on_world (pv_embed pv model chunk)) sleep ''embed'' (acquire_slot cfg gw)")
    from \<open>good (gw_world gw)\<close> have "good (gw_world (acquire_slot cfg gw))" by simp
    note step = refines_opD [OF retry this call]
    show "embed_loop cfg pv' ws model (chunk # chunks) out (gw_map remote gw) =
        (fst (embed_loop cfg pv ws model (chunk # chunks) out gw),
         gw_map remote (snd (embed_loop cfg pv ws model (chunk # chunks) out gw))) \<and>
      good (gw_world (snd (embed_loop cfg pv ws model (chunk # chunks) out gw)))"
    proof (cases x)
      case (Inl e)
      then show ?thesis using call step by simp
    next
      case (Inr emb)
      let ?gw2 = "record_usage ws ''embedding'' model (er_prompt_tokens emb) 0 (er_total_tokens emb) None gw1"
      have "good (gw_world ?gw2)" using step by simp
      obtain r gw3 where loop: "embed_loop cfg pv ws model chunks (out @ er_vectors emb) ?gw2 = (r, gw3)"
        by (metis surj_pair)
      then show ?thesis
        using refines_opD [OF Cons.IH \<open>good (gw_world ?gw2)\<close> loop] Inr call step by simp
    qed
  qed
qed

lemma embed_refines:
  "refines (embed cfg pv texts ws model) (embed cfg pv' texts ws model)"
  using embed_loop_refines
  unfolding refines_op_def embed_def Let_def
  by simp

end

text \<open>
  With a key, the cached client makes no difference: the provider is the client built from the key.
  Without one and with nothing cached, every call raises before it reaches the network.
\<close>

definition client_ready :: "settings \<Rightarrow> ('c, 'w) sdk \<Rightarrow> 'c \<Rightarrow> ('c, 'w) openai_world \<Rightarrow> bool" where
  "client_ready cfg sd c w \<longleftrightarrow>
     str_or (openai_api_key cfg) '''' \<noteq> '''' \<and>
     sdk_client sd (str_or (openai_api_key cfg) '''') = Inr c \<and>
     (ow_client w = None \<or> ow_client w = Some c)"

definition without_key :: "settings \<Rightarrow> ('c, 'w) openai_world \<Rightarrow> bool" where
  "without_key cfg w \<longleftrightarrow> str_or (openai_api_key cfg) '''' = '''' \<and> ow_client w = None"

definition no_key_error :: exn where
  "no_key_error = raise_app UpstreamAIError ''OPENAI_API_KEY is not configured''"

definition raising_provider :: "'w provider" where
  "raising_provider =
     \<lparr>pv_chat = (\<lambda>model messages params w. (Inl no_key_error, w)),
      pv_stream = (\<lambda>model messages temperature w. (([], Some no_key_error), w)),
      pv_embed = (\<lambda>model texts w. (Inl no_key_error, w))\<rparr>"

lemma with_client_ready:
  "refines_op ow_remote (client_ready cfg sd c) (with_client cfg sd raised f) (f c)"
  by (auto simp: refines_op_def with_client_def get_client_def on_remote_def client_ready_def Let_def
      split: prod.splits option.splits)

lemma with_client_missing:
  "refines_op ow_remote (without_key cfg) (with_client cfg sd raised f) (\<lambda>w. (raised no_key_error, w))"
  by (auto simp: refines_op_def with_client_def get_client_def without_key_def no_key_error_def)

interpretation lazy_client: backend_refines "openai_provider cfg sd" "client_provider sd c" ow_remote
    "client_ready cfg sd c" for cfg sd c
  by unfold_locales (simp add: openai_provider_def, rule with_client_ready)+

interpretation missing_key: backend_refines "openai_provider cfg sd" raising_provider ow_remote
    "without_key cfg" for cfg sd
  by unfold_locales (simp add: openai_provider_def raising_provider_def, rule with_client_missing)+

lemma no_key_not_transient [simp]: "\<not> is_transient no_key_error"
  by (simp add: is_transient_def no_key_error_def raise_app_def transient_names_def)

lemma raising_retry:
  "with_retry (on_world (\<lambda>w. (Inl no_key_error, w))) sleep what gw =
     (Inl (raise_app UpstreamAIError (''AI provider error during '' @ what)), gw)"
  by (simp add: with_retry_def on_world_def max_retries_def upt_rec)

lemma raising_calls:
  "call_llm cfg raising_provider messages params ws operation model rid gw =
     (Inl (raise_app UpstreamAIError (''AI provider error during call_llm:'' @ operation)), gw)"
  "stream_llm cfg raising_provider messages temperature ws operation model rid gw =
     (([], Some (raise_app UpstreamAIError ''AI provider error during chat stream'')),
      record_usage ws operation (str_or model (chat_model cfg)) 0 0 0 rid gw)"
  "embed cfg raising_provider (t # ts) ws model gw =
     (if embed_batch_size cfg = 0
      then (Inl (PyError ''ValueError'' ''range() arg 3 must not be zero''), gw)
      else if embed_batch_size cfg < 0 then (Inr [], gw)
      else (Inl (raise_app UpstreamAIError ''AI provider error during embed''), acquire_slot cfg gw))"
proof -
  show "call_llm cfg raising_provider messages params ws operation model rid gw =
     (Inl (raise_app UpstreamAIError (''AI provider error during call_llm:'' @ operation)), gw)"
    by (simp add: call_llm_def Let_def raising_provider_def raising_retry)
  show "stream_llm cfg raising_provider messages temperature ws operation model rid gw =
     (([], Some (raise_app UpstreamAIError ''AI provider error during chat stream'')),
      record_usage ws operation (str_or model (chat_model cfg)) 0 0 0 rid gw)"
    by (simp add: stream_llm_def Let_def raising_provider_def on_world_def)
  show "embed cfg raising_provider (t # ts) ws model gw =
     (if embed_batch_size cfg = 0
      then (Inl (PyError ''ValueError'' ''range() arg 3 must not be zero''), gw)
      else if embed_batch_size cfg < 0 then (Inr [], gw)
      else (Inl (raise_app UpstreamAIError ''AI provider error during embed''), acquire_slot cfg gw))"
  proof (cases "0 < embed_batch_size cfg")
    case True
    then obtain c cs where "batches (nat (embed_batch_size cfg)) (t # ts) = c # cs"
      by (cases "batches (nat (embed_batch_size cfg)) (t # ts)") (auto simp: batches_def)
    then show ?thesis using True
      by (simp add: embed_def Let_def raising_provider_def raising_retry)
  next
    case False
    then show ?thesis by (simp add: embed_def Let_def)
  qed
qed

subsection \<open>Any number of calls\<close>

datatype gateway_call =
    ChatCall "message list" chat_params uuid string "string option" "string option"
  | StreamCall "message list" rat uuid string "string option" "string option"
  | EmbedCall "string list" uuid "string option"

datatype gateway_answer =
    Completed "exn + llm_result"
  | Streamed "string list" "exn option"
  | Embedded "exn + vector list"

fun gateway_step :: "settings \<Rightarrow> 'w provider \<Rightarrow> gateway_call \<Rightarrow> 'w gateway \<Rightarrow> gateway_answer \<times> 'w gateway" where
  "gateway_step cfg pv (ChatCall messages params ws operation model rid) gw =
     apfst Completed (call_llm cfg pv messages params ws operation model rid gw)"
| "gateway_step cfg pv (StreamCall messages temperature ws operation model rid) gw =
     apfst (\<lambda>(texts, failure). Streamed texts failure)
       (stream_llm cfg pv messages temperature ws operation model rid gw)"
| "gateway_step cfg pv (EmbedCall texts ws model) gw = apfst Embedded (embed cfg pv texts ws model gw)"

fun gateway_run ::
    "settings \<Rightarrow> 'w provider \<Rightarrow> gateway_call list \<Rightarrow> 'w gateway \<Rightarrow> gateway_answer list \<times> 'w gateway" where
  "gateway_run cfg pv [] gw = ([], gw)"
| "gateway_run cfg pv (call # calls) gw =
     (case gateway_step cfg pv call gw of
        (a, gw') \<Rightarrow> apfst (Cons a) (gateway_run cfg pv calls gw'))"

context backend_refines
begin

lemmas calls_refine =
  call_refines [unfolded refines_op_def, rule_format]
  stream_refines [unfolded refines_op_def, rule_format]
  embed_refines [unfolded refines_op_def, rule_format]

lemma step_refines: "refines (gateway_step cfg pv call) (gateway_step cfg pv' call)"
  unfolding refines_op_def
  by (cases call) (simp_all add: calls_refine apfst_def map_prod_def case_prod_unfold)

lemma run_refines:
  assumes "good (gw_world gw)" and "gateway_run cfg pv calls gw = (answers, gw')"
  shows "gateway_run cfg pv' calls (gw_map remote gw) = (answers, gw_map remote gw') \<and> good (gw_world gw')"
  using assms
proof (induction calls arbitrary: gw answers)
  case Nil
  then show ?case by simp
next
  case (Cons call calls)
  obtain a gw1 where call: "gateway_step cfg pv call gw = (a, gw1)" by (cases "gateway_step cfg pv call gw")
  note step = refines_opD [OF step_refines Cons.prems(1) call]
  obtain as gw2 where rest: "gateway_run cfg pv calls gw1 = (as, gw2)" by (cases "gateway_run cfg pv calls gw1")
  with Cons.prems(2) call have "answers = a # as" "gw' = gw2" by auto
  then show ?case using Cons.IH [of gw1 as] step rest by simp
qed

end

subsection \<open>What the provider promises\<close>

text \<open>What a call is answered when no key is configured, with batches of a positive size.\<close>

fun refusal :: "gateway_call \<Rightarrow> gateway_answer" where
  "refusal (ChatCall messages params ws operation model rid) =
     Completed (Inl (raise_app UpstreamAIError (''AI provider error during call_llm:'' @ operation)))"
| "refusal (StreamCall messages temperature ws operation model rid) =
     Streamed [] (Some (raise_app UpstreamAIError ''AI provider error during chat stream''))"
| "refusal (EmbedCall texts ws model) =
     Embedded (if texts = [] then Inr []
               else Inl (raise_app UpstreamAIError ''AI provider error during embed''))"

definition free_rows :: "'w gateway \<Rightarrow> 'w gateway \<Rightarrow> bool" where
  "free_rows gw gw' \<longleftrightarrow>
     gw_world gw' = gw_world gw \<and>
     (\<forall>row \<in> set (gw_usage gw'). row \<in> set (gw_usage gw) \<or> t_total_tokens row = 0 \<and> t_cost_usd row = 0)"

lemma no_tokens_no_cost [simp]: "estimate_cost model 0 0 = 0"
  using round_to_of_int [of 6 0] by (simp add: estimate_cost_def)

lemma embed_nothing [simp]: "embed cfg pv [] ws model gw = (Inr [], gw)"
  by (simp add: embed_def)

lemma raising_step:
  assumes "0 < embed_batch_size cfg" and "gateway_step cfg raising_provider call gw = (a, gw')"
  shows "a = refusal call" "free_rows gw gw'"
proof -
  have slot: "gw_usage (acquire_slot cfg gw) = gw_usage gw"
    by (simp add: acquire_slot_def Let_def split: prod.splits)
  show "a = refusal call"
  proof (cases call)
    case (EmbedCall texts ws model)
    then show ?thesis using assms by (cases texts) (auto simp: raising_calls)
  qed (use assms(2) in \<open>simp_all add: raising_calls\<close>)
  show "free_rows gw gw'"
  proof (cases call)
    case (EmbedCall texts ws model)
    then show ?thesis using assms slot
      by (cases texts) (auto simp: raising_calls free_rows_def)
  qed (use assms(2) in \<open>auto simp: raising_calls free_rows_def record_usage_def Let_def split: if_splits\<close>)
qed

lemma raising_run:
  assumes "0 < embed_batch_size cfg" and "gateway_run cfg raising_provider calls gw = (answers, gw')"
  shows "answers = map refusal calls \<and> free_rows gw gw'"
  using assms(2)
proof (induction calls arbitrary: gw answers)
  case Nil
  then show ?case by (simp add: free_rows_def)
next
  case (Cons call calls)
  obtain a gw1 where call: "gateway_step cfg raising_provider call gw = (a, gw1)"
    by (cases "gateway_step cfg raising_provider call gw")
  note step = raising_step [OF assms(1) call]
  obtain as gw2 where rest: "gateway_run cfg raising_provider calls gw1 = (as, gw2)"
    by (cases "gateway_run cfg raising_provider calls gw1")
  with Cons.prems call have "answers = a # as" "gw' = gw2" by auto
  then show ?case using Cons.IH [of gw1 as] step rest by (auto simp: free_rows_def)
qed

text \<open>
  C38: The cached client is transparent: with a key, any sequence of gateway calls has the answers, the
  usage rows, the waiting times and the effects it would have with the client built from that key, and
  no other client ever enters the cache.
\<close>

theorem lazy_client_transparent:
  assumes "client_ready cfg sd c (gw_world gw)"
    and "gateway_run cfg (openai_provider cfg sd) calls gw = (answers, gw')"
  shows "gateway_run cfg (client_provider sd c) calls (gw_map ow_remote gw) = (answers, gw_map ow_remote gw') \<and>
     client_ready cfg sd c (gw_world gw')"
  by (rule lazy_client.run_refines [OF assms])

text \<open>
  C39: Without a key nothing reaches the network: every call is answered with the 502 error, the remote
  world stays as it is, and the usage rows written are those of streams that used no tokens and cost
  nothing.
\<close>

theorem missing_key_refused:
  assumes "without_key cfg (gw_world gw)" and "0 < embed_batch_size cfg"
    and "gateway_run cfg (openai_provider cfg sd) calls gw = (answers, gw')"
  shows "answers = map refusal calls \<and> ow_remote (gw_world gw') = ow_remote (gw_world gw) \<and>
     without_key cfg (gw_world gw') \<and>
     (\<forall>row \<in> set (gw_usage gw'). row \<in> set (gw_usage gw) \<or> t_total_tokens row = 0 \<and> t_cost_usd row = 0)"
  using missing_key.run_refines [OF assms(1,3)] raising_run [OF assms(2)] by (fastforce simp: free_rows_def)

definition demo_sdk :: "(string, nat) sdk" where
  "demo_sdk =
     \<lparr>sdk_client = Inr,
      sdk_chat = (\<lambda>c rq w. (Inr \<lparr>cc_choices = [Some ''ok''], cc_usage = None\<rparr>, w + 1)),
      sdk_stream = (\<lambda>c rq w. (Inr ([\<lparr>sc_choices = [Some (Some ''ok'')], sc_usage = None\<rparr>], None), w + 1)),
      sdk_embed = (\<lambda>c model texts w. (Inr \<lparr>eb_data = map (\<lambda>t. [1]) texts, eb_usage = None\<rparr>, w + 1))\<rparr>"

definition demo_openai_gateway :: "(string, nat) openai_world gateway" where
  "demo_openai_gateway =
     \<lparr>gw_world = \<lparr>ow_client = None, ow_remote = 0\<rparr>, gw_clock = 0, gw_bucket = None, gw_usage = [],
      gw_writes = 0, gw_usage_ok = (\<lambda>n. True)\<rparr>"

definition demo_calls :: "gateway_call list" where
  "demo_calls = [StreamCall [] 0 1 ''chat'' None None, EmbedCall [''a''] 1 None]"

lemma lazy_client_transparent_witness:
  "\<exists>answers gw'. gateway_run (default_settings\<lparr>openai_api_key := Some ''k''\<rparr>)
       (openai_provider (default_settings\<lparr>openai_api_key := Some ''k''\<rparr>) demo_sdk) demo_calls demo_openai_gateway
       = (answers, gw') \<and>
     gateway_run (default_settings\<lparr>openai_api_key := Some ''k''\<rparr>) (client_provider demo_sdk ''k'') demo_calls
       (gw_map ow_remote demo_openai_gateway) = (answers, gw_map ow_remote gw')"
proof -
  let ?cfg = "default_settings\<lparr>openai_api_key := Some ''k''\<rparr>"
  obtain answers gw' where run: "gateway_run ?cfg (openai_provider ?cfg demo_sdk) demo_calls demo_openai_gateway
      = (answers, gw')" by (metis surj_pair)
  have "client_ready ?cfg demo_sdk ''k'' (gw_world demo_openai_gateway)"
    by (simp add: client_ready_def str_or_def demo_sdk_def demo_openai_gateway_def)
  from lazy_client_transparent [OF this run] run show ?thesis by blast
qed

lemma missing_key_refused_witness:
  "\<exists>answers gw'. gateway_run default_settings (openai_provider default_settings demo_sdk) demo_calls
       demo_openai_gateway = (answers, gw') \<and>
     answers = [Streamed [] (Some (raise_app UpstreamAIError ''AI provider error during chat stream'')),
                Embedded (Inl (raise_app UpstreamAIError ''AI provider error during embed''))] \<and>
     ow_remote (gw_world gw') = 0"
proof -
  obtain answers gw' where run: "gateway_run default_settings (openai_provider default_settings demo_sdk)
      demo_calls demo_openai_gateway = (answers, gw')" by (metis surj_pair)
  have "without_key default_settings (gw_world demo_openai_gateway)" "0 < embed_batch_size default_settings"
    by (simp_all add: without_key_def str_or_def default_settings_def demo_openai_gateway_def)
  from missing_key_refused [OF this run] run show ?thesis
    by (auto simp: demo_calls_def demo_openai_gateway_def)
qed

end
