(* ===== verification/Rate_Limit.thy ===== *)
theory Rate_Limit
  imports Errors "HOL-Library.Finite_Map"
begin

text \<open>
  The sliding-window rate limiter for API keys (\<^verbatim>\<open>app/core/rate_limit.py\<close>). Redis is not part
  of the sources: its sorted-set commands are the record \<open>zset_ops\<close>, a parameter of the model, and
  \<open>zset_laws\<close> states what their documentation promises. Times are seconds (rationals).
\<close>

record 'z zset_ops =
  zempty :: 'z
  zremrangebyscore :: "rat \<Rightarrow> rat \<Rightarrow> 'z \<Rightarrow> 'z"
  zadd :: "string \<Rightarrow> rat \<Rightarrow> 'z \<Rightarrow> 'z"
  zcard :: "'z \<Rightarrow> nat"
  zrem :: "string \<Rightarrow> 'z \<Rightarrow> 'z"

text \<open>
  \<open>entries\<close> reads a sorted set as the map from members to scores. The documented commands:
  \<open>ZREMRANGEBYSCORE\<close> drops the members with a score in the closed range, \<open>ZADD\<close> sets a member's
  score, \<open>ZCARD\<close> counts members, \<open>ZREM\<close> drops one.
\<close>

definition zset_laws :: "'z zset_ops \<Rightarrow> ('z \<Rightarrow> (string \<rightharpoonup> rat)) \<Rightarrow> bool" where
  "zset_laws ops entries \<longleftrightarrow>
     entries (zempty ops) = Map.empty \<and>
     (\<forall>lo hi z. entries (zremrangebyscore ops lo hi z) =
        (\<lambda>m. case entries z m of None \<Rightarrow> None
             | Some x \<Rightarrow> (if lo \<le> x \<and> x \<le> hi then None else Some x))) \<and>
     (\<forall>m x z. entries (zadd ops m x z) = (entries z)(m \<mapsto> x)) \<and>
     (\<forall>m z. entries (zrem ops m z) = (entries z)(m := None)) \<and>
     (\<forall>z. finite (dom (entries z)) \<and> zcard ops z = card (dom (entries z)))"

text \<open>
  The value at a key \<open>ratelimit:<id>\<close>: the sorted set and the instant at which \<open>EXPIRE\<close> drops it.
\<close>

record 'z slot =
  sl_set :: 'z
  sl_expires :: "rat option"

definition window_sec :: rat where
  "window_sec = 60"

definition live_set :: "'z zset_ops \<Rightarrow> rat \<Rightarrow> 'z slot \<Rightarrow> 'z" where
  "live_set ops now sl =
     (case sl_expires sl of
        None \<Rightarrow> sl_set sl
      | Some t \<Rightarrow> (if t \<le> now then zempty ops else sl_set sl))"

definition rate_key :: "string \<Rightarrow> string" where
  "rate_key api_key_id = ''ratelimit:'' @ api_key_id"

text \<open>
  \<open>enforce\<close>. The pipeline is one transaction: \<open>pipe_ok = False\<close> is a Redis error in it, and
  \<open>zrem_ok = False\<close> one in the later \<open>zrem\<close>; both are caught and let the request through.
\<close>

definition enforce ::
    "'z zset_ops \<Rightarrow> bool \<Rightarrow> bool \<Rightarrow> rat \<Rightarrow> string \<Rightarrow> string \<Rightarrow> int \<Rightarrow>
     (string \<Rightarrow> 'z slot) \<Rightarrow> (exn + unit) \<times> (string \<Rightarrow> 'z slot)" where
  "enforce ops pipe_ok zrem_ok now member api_key_id limit_per_minute redis =
     (let limit = max 1 limit_per_minute;
          key = rate_key api_key_id
      in if \<not> pipe_ok then (Inr (), redis)
         else
           let z0 = live_set ops now (redis key);
               z1 = zremrangebyscore ops 0 (now - window_sec) z0;
               z2 = zadd ops member now z1;
               count = zcard ops z2;
               redis' = redis(key := \<lparr>sl_set = z2, sl_expires = Some (now + window_sec)\<rparr>)
           in if int count > limit then
                (if zrem_ok
                 then (Inl (AppError (rate_limit_error ''Rate limit exceeded'' 60)),
                       redis'(key := \<lparr>sl_set = zrem ops member z2,
                                      sl_expires = Some (now + window_sec)\<rparr>))
                 else (Inr (), redis'))
              else (Inr (), redis'))"

text \<open>A run of requests with one key: each call's instant, and whether it was let through.\<close>

fun run_calls ::
    "'z zset_ops \<Rightarrow> string \<Rightarrow> int \<Rightarrow> (string \<Rightarrow> 'z slot) \<Rightarrow> (rat \<times> string) list \<Rightarrow>
     (rat \<times> bool) list" where
  "run_calls ops k limit redis [] = []"
| "run_calls ops k limit redis ((now, member) # cs) =
     (case enforce ops True True now member k limit redis of
        (Inl _, redis') \<Rightarrow> (now, False) # run_calls ops k limit redis' cs
      | (Inr _, redis') \<Rightarrow> (now, True) # run_calls ops k limit redis' cs)"

subsection \<open>One call\<close>

text \<open>The entries still inside the window at \<open>now\<close>.\<close>

definition recent :: "(string \<rightharpoonup> rat) \<Rightarrow> rat \<Rightarrow> (string \<rightharpoonup> rat)" where
  "recent e now = (\<lambda>m. case e m of None \<Rightarrow> None
       | Some x \<Rightarrow> (if 0 \<le> x \<and> x \<le> now - window_sec then None else Some x))"

lemma recent_simps:
  "recent e now m = Some x \<longleftrightarrow> e m = Some x \<and> \<not> (0 \<le> x \<and> x \<le> now - window_sec)"
  by (auto simp: recent_def split: option.splits if_splits)

lemma recent_dom: "dom (recent e now) \<subseteq> dom e"
  by (auto simp: recent_def split: option.splits)

text \<open>
  A healthy call, on a member that is not in the set: it is accepted exactly when fewer than the
  limit are inside the window, and only an accepted call leaves an entry.
\<close>

lemma enforce_healthy:
  fixes ops k now limit redis entries
  defines "e \<equiv> recent (entries (live_set ops now (redis (rate_key k)))) now"
  assumes laws: "zset_laws ops entries"
    and fresh: "entries (live_set ops now (redis (rate_key k))) member = None"
  shows "\<exists>z. enforce ops True True now member k limit redis =
           (if int (card (dom e)) < max 1 limit then Inr ()
            else Inl (AppError (rate_limit_error ''Rate limit exceeded'' 60)),
            redis(rate_key k := \<lparr>sl_set = z, sl_expires = Some (now + window_sec)\<rparr>))
         \<and> entries z = (if int (card (dom e)) < max 1 limit then e(member \<mapsto> now) else e)"
proof -
  define z1 where "z1 = zremrangebyscore ops 0 (now - window_sec) (live_set ops now (redis (rate_key k)))"
  define z2 where "z2 = zadd ops member now z1"
  have e1: "entries z1 = e"
    using laws by (simp add: zset_laws_def z1_def e_def recent_def)
  have e2: "entries z2 = e(member \<mapsto> now)"
    using laws by (simp add: zset_laws_def z2_def e1)
  have nomem: "e member = None"
    using fresh by (simp add: e_def recent_def)
  have fin: "finite (dom e)"
    using laws e1 by (metis zset_laws_def)
  have card2: "zcard ops z2 = Suc (card (dom e))"
  proof -
    have "zcard ops z2 = card (dom (entries z2))" using laws by (simp add: zset_laws_def)
    also have "\<dots> = Suc (card (dom e))"
      using fin nomem by (simp add: e2 card_insert_if domIff)
    finally show ?thesis .
  qed
  have e3: "entries (zrem ops member z2) = e"
    using laws nomem by (auto simp: zset_laws_def e2)
  show ?thesis
    using card2 e2 e3 by (auto simp: enforce_def Let_def z1_def [symmetric] z2_def [symmetric])
qed

subsection \<open>The abstract limiter\<close>

text \<open>
  What the limiter promises: a call at \<open>t\<close> is accepted exactly when fewer than \<open>limit\<close> calls were
  accepted in the minute before it. \<open>acc\<close> holds the instants accepted so far.
\<close>

fun window_spec :: "nat \<Rightarrow> rat list \<Rightarrow> rat list \<Rightarrow> (rat \<times> bool) list" where
  "window_spec limit acc [] = []"
| "window_spec limit acc (t # ts) =
     (if length (filter (\<lambda>x. t - window_sec < x) acc) < limit
      then (t, True) # window_spec limit (t # acc) ts
      else (t, False) # window_spec limit acc ts)"

definition accepted_in :: "rat \<Rightarrow> (rat \<times> bool) list \<Rightarrow> nat" where
  "accepted_in T run = length (filter (\<lambda>(t, ok). ok \<and> T - window_sec < t \<and> t \<le> T) run)"

lemma window_spec_bound_aux:
  assumes "sorted ts" and "\<forall>a \<in> set acc. \<forall>t \<in> set ts. a \<le> t"
    and "\<And>T. length (filter (\<lambda>x. T - window_sec < x \<and> x \<le> T) acc) \<le> limit"
  shows "length (filter (\<lambda>x. T - window_sec < x \<and> x \<le> T) acc)
           + accepted_in T (window_spec limit acc ts) \<le> limit"
  using assms
proof (induction limit acc ts rule: window_spec.induct)
  case (1 limit acc)
  then show ?case by (simp add: accepted_in_def)
next
  case (2 limit acc t ts)
  have sub: "length (filter (\<lambda>x. T - window_sec < x \<and> x \<le> T) acc)
      \<le> length (filter (\<lambda>x. t - window_sec < x) acc)" if "t \<le> T" for T
    using that by (intro length_filter_mono) auto
  show ?case
  proof (cases "length (filter (\<lambda>x. t - window_sec < x) acc) < limit")
    case True
    have "length (filter (\<lambda>x. T - window_sec < x \<and> x \<le> T) (t # acc)) \<le> limit" for T
      using sub [of T] True "2.prems"(3) [of T] by (cases "t \<le> T") auto
    with True "2.IH"(1) "2.prems"(1,2)
    have "length (filter (\<lambda>x. T - window_sec < x \<and> x \<le> T) (t # acc))
        + accepted_in T (window_spec limit (t # acc) ts) \<le> limit"
      by auto
    with True show ?thesis by (auto simp: accepted_in_def)
  next
    case False
    with "2.IH"(2) "2.prems" show ?thesis by (auto simp: accepted_in_def)
  qed
qed

lemma window_spec_bound: "sorted ts \<Longrightarrow> accepted_in T (window_spec limit [] ts) \<le> limit"
  using window_spec_bound_aux [of ts "[]" limit T] by simp

subsection \<open>The limiter refines it\<close>

text \<open>
  \<open>acc\<close> lists the accepted calls (member and instant) up to \<open>now0\<close>. At every later instant the set
  in Redis, pruned and expired, is exactly the accepted calls of the last minute.
\<close>

definition slot_repr ::
    "'z zset_ops \<Rightarrow> ('z \<Rightarrow> (string \<rightharpoonup> rat)) \<Rightarrow> rat \<Rightarrow> (string \<times> rat) list \<Rightarrow> 'z slot \<Rightarrow> bool" where
  "slot_repr ops entries now0 acc sl \<longleftrightarrow>
     distinct (map fst acc) \<and> (\<forall>(m, t) \<in> set acc. 0 \<le> t \<and> t \<le> now0) \<and>
     (\<forall>now \<ge> now0. recent (entries (live_set ops now sl)) now = recent (map_of acc) now) \<and>
     (\<forall>now \<ge> now0. dom (entries (live_set ops now sl)) \<subseteq> fst ` set acc)"

lemma recent_map_of:
  assumes "\<forall>(m, t) \<in> set acc. 0 \<le> t" and "distinct (map fst acc)"
  shows "card (dom (recent (map_of acc) now)) = length (filter (\<lambda>(m, t). now - window_sec < t) acc)"
proof -
  let ?f = "filter (\<lambda>(m, t). now - window_sec < t) acc"
  have dist: "distinct (map fst ?f)" using assms(2) by (simp add: distinct_map_filter)
  have "recent (map_of acc) now = map_of ?f"
  proof
    fix m
    show "recent (map_of acc) now m = map_of ?f m"
    proof (cases "map_of acc m")
      case None
      then have "map_of ?f m = None" by (auto simp: map_of_eq_None_iff)
      with None show ?thesis by (simp add: recent_def)
    next
      case (Some t)
      then have mem: "(m, t) \<in> set acc" by (rule map_of_SomeD)
      then have t0: "0 \<le> t" using assms(1) by auto
      show ?thesis
      proof (cases "now - window_sec < t")
        case True
        with mem have "(m, t) \<in> set ?f" by simp
        with dist have "map_of ?f m = Some t" by simp
        with Some True show ?thesis by (auto simp: recent_def)
      next
        case False
        have "map_of ?f m = None"
          using False mem assms(2) by (auto simp: map_of_eq_None_iff dest: eq_key_imp_eq_value)
        with Some False t0 show ?thesis by (simp add: recent_def)
      qed
    qed
  qed
  then show ?thesis
    using distinct_card [OF dist] by (simp add: dom_map_of_conv_image_fst)
qed

lemma recent_recent: "now \<le> now' \<Longrightarrow> recent (recent e now) now' = recent e now'"
  by (rule ext) (auto simp: recent_def split: option.splits)

lemma recent_upd: "recent (e(m \<mapsto> t)) now =
    (if 0 \<le> t \<and> t \<le> now - window_sec then (recent e now)(m := None) else (recent e now)(m \<mapsto> t))"
  by (rule ext) (auto simp: recent_def)

lemma recent_empty [simp]: "recent Map.empty now = Map.empty"
  by (simp add: recent_def)

lemma recent_old:
  assumes "\<forall>(m, t) \<in> set acc. 0 \<le> t \<and> t \<le> now - window_sec"
  shows "recent (map_of acc) now = Map.empty"
  using assms by (fastforce simp: recent_def dest: map_of_SomeD split: option.splits)

lemma slot_repr_step:
  assumes laws: "zset_laws ops entries" and repr: "slot_repr ops entries now0 acc sl"
    and now: "now0 \<le> now" "0 \<le> now"
    and z: "entries z = (if ok then (recent (map_of acc) now)(m \<mapsto> now) else recent (map_of acc) now)"
    and m: "m \<notin> fst ` set acc"
  shows "slot_repr ops entries now (if ok then (m, now) # acc else acc)
           \<lparr>sl_set = z, sl_expires = Some (now + window_sec)\<rparr>"
proof -
  let ?acc = "if ok then (m, now) # acc else acc"
  let ?sl = "\<lparr>sl_set = z, sl_expires = Some (now + window_sec)\<rparr>"
  have "0 \<le> t \<and> t \<le> now" if "(m', t) \<in> set acc" for m' t
    using that repr now(1) unfolding slot_repr_def by fastforce
  then have times: "\<forall>(m, t) \<in> set ?acc. 0 \<le> t \<and> t \<le> now"
    using now(2) by auto
  have ez: "entries (zempty ops) = Map.empty" using laws by (simp add: zset_laws_def)
  have "recent (entries (live_set ops now' ?sl)) now' = recent (map_of ?acc) now'"
    if "now \<le> now'" for now'
  proof (cases "now + window_sec \<le> now'")
    case True
    have "\<forall>(m, t) \<in> set ?acc. 0 \<le> t \<and> t \<le> now' - window_sec"
      using times True by fastforce
    then have "recent (map_of ?acc) now' = Map.empty" by (rule recent_old)
    with True show ?thesis by (simp add: live_set_def ez)
  next
    case False
    with that show ?thesis by (auto simp: live_set_def z recent_upd recent_recent)
  qed
  moreover have "dom (entries (live_set ops now' ?sl)) \<subseteq> fst ` set ?acc" for now'
    using recent_dom [of "map_of acc" now]
    by (auto simp: live_set_def z ez dom_map_of_conv_image_fst)
  moreover have "distinct (map fst ?acc)" using repr m by (simp add: slot_repr_def)
  ultimately show ?thesis using times by (auto simp: slot_repr_def)
qed

lemma run_calls_spec:
  assumes "zset_laws ops entries" and "slot_repr ops entries now0 acc (redis (rate_key k))"
    and "sorted (map fst calls)" and "\<forall>t \<in> fst ` set calls. now0 \<le> t \<and> 0 \<le> t"
    and "distinct (map snd calls)" and "snd ` set calls \<inter> fst ` set acc = {}"
  shows "run_calls ops k limit redis calls
           = window_spec (nat (max 1 limit)) (map snd acc) (map fst calls)"
  using assms
proof (induction calls arbitrary: now0 acc redis)
  case (Cons c cs)
  obtain now m where c: "c = (now, m)" by (cases c)
  let ?e = "recent (entries (live_set ops now (redis (rate_key k)))) now"
  let ?ok = "int (card (dom ?e)) < max 1 limit"
  have repr: "slot_repr ops entries now0 acc (redis (rate_key k))" by (rule Cons.prems(2))
  have now: "now0 \<le> now" "0 \<le> now" using Cons.prems(4) c by auto
  have m: "m \<notin> fst ` set acc" using Cons.prems(6) c by auto
  have e: "?e = recent (map_of acc) now" using repr now by (simp add: slot_repr_def)
  have "dom (entries (live_set ops now (redis (rate_key k)))) \<subseteq> fst ` set acc"
    using repr now by (simp add: slot_repr_def)
  with m have fresh: "entries (live_set ops now (redis (rate_key k))) m = None"
    by (meson domIff subsetD)
  from enforce_healthy [where ops = ops and entries = entries and redis = redis
      and k = k and member = m and limit = limit, OF Cons.prems(1) fresh]
  obtain z where en: "enforce ops True True now m k limit redis =
      (if ?ok then Inr () else Inl (AppError (rate_limit_error ''Rate limit exceeded'' 60)),
       redis(rate_key k := \<lparr>sl_set = z, sl_expires = Some (now + window_sec)\<rparr>))"
    and z: "entries z = (if ?ok then ?e(m \<mapsto> now) else ?e)"
    by blast
  have step: "slot_repr ops entries now (if ?ok then (m, now) # acc else acc)
      \<lparr>sl_set = z, sl_expires = Some (now + window_sec)\<rparr>"
    by (rule slot_repr_step [OF Cons.prems(1) repr now _ m]) (use z e in auto)
  define redis' where
    "redis' = redis(rate_key k := \<lparr>sl_set = z, sl_expires = Some (now + window_sec)\<rparr>)"
  define acc' where "acc' = (if ?ok then (m, now) # acc else acc)"
  have repr': "slot_repr ops entries now acc' (redis' (rate_key k))"
    using step by (simp add: redis'_def acc'_def)
  have IH: "run_calls ops k limit redis' cs
      = window_spec (nat (max 1 limit)) (map snd acc') (map fst cs)"
    using Cons.IH [where redis = redis', OF Cons.prems(1) repr'] Cons.prems(3,4,5,6) c now
    by (auto simp: acc'_def)
  have len: "card (dom ?e) = length (filter (\<lambda>x. now - window_sec < x) (map snd acc))"
    using repr recent_map_of [of acc now]
    by (auto simp: e slot_repr_def filter_map comp_def case_prod_unfold split_beta)
  have ok: "?ok \<longleftrightarrow> length (filter (\<lambda>x. now - window_sec < x) (map snd acc)) < nat (max 1 limit)"
    unfolding len by linarith
  show ?case
    using IH ok by (simp add: c en redis'_def acc'_def)
qed simp

subsection \<open>Properties\<close>

lemma slot_repr_initial:
  assumes "zset_laws ops entries" and "entries (sl_set sl) = Map.empty"
  shows "slot_repr ops entries 0 [] sl"
  using assms by (auto simp: slot_repr_def live_set_def zset_laws_def split: option.splits)

lemma run_calls_from_empty:
  assumes laws: "zset_laws ops entries" and empty: "entries (sl_set (redis (rate_key k))) = Map.empty"
    and "sorted (map fst calls)" and times: "\<forall>t \<in> fst ` set calls. 0 \<le> t"
    and "distinct (map snd calls)"
  shows "run_calls ops k limit redis calls = window_spec (nat (max 1 limit)) [] (map fst calls)"
proof -
  have repr: "slot_repr ops entries 0 [] (redis (rate_key k))"
    by (rule slot_repr_initial) (use laws empty in auto)
  have "\<forall>t \<in> fst ` set calls. 0 \<le> t \<and> 0 \<le> t" using times by simp
  with run_calls_spec [where ops = ops and entries = entries and redis = redis and k = k
      and acc = "[]" and calls = calls and limit = limit, OF laws repr] assms(3,5)
  show ?thesis by simp
qed

text \<open>
  C4: For requests with one key, in time order and with fresh members, on a healthy Redis that
  starts without entries for the key, the limiter decides every request as the abstract limiter
  does: accepted exactly when fewer than \<open>max 1 limit\<close> requests were accepted in the sixty seconds
  before it. Rejected requests do not count, and the key's expiry never drops a live entry.
\<close>

theorem rate_limit_refines_window:
  assumes "zset_laws ops entries" and "entries (sl_set (redis (rate_key k))) = Map.empty"
    and "sorted (map fst calls)" and "\<forall>t \<in> fst ` set calls. 0 \<le> t"
    and "distinct (map snd calls)"
  shows "run_calls ops k limit redis calls = window_spec (nat (max 1 limit)) [] (map fst calls)"
  using assms by (rule run_calls_from_empty)

text \<open>
  In every half-open window of sixty seconds, whatever the requests were, at most
  \<open>max 1 limit\<close> requests of a key are let through.
\<close>

theorem rate_limit_window_bound:
  assumes "zset_laws ops entries" and "entries (sl_set (redis (rate_key k))) = Map.empty"
    and "sorted (map fst calls)" and "\<forall>t \<in> fst ` set calls. 0 \<le> t"
    and "distinct (map snd calls)"
  shows "accepted_in T (run_calls ops k limit redis calls) \<le> nat (max 1 limit)"
  using run_calls_from_empty [where redis = redis, OF assms] window_spec_bound [OF assms(3)] by simp

text \<open>Finite maps satisfy the laws: an instance for the witnesses.\<close>

definition fm_zset :: "(string, rat) fmap zset_ops" where
  "fm_zset =
     \<lparr>zempty = fmempty,
      zremrangebyscore = (\<lambda>lo hi z. fmfilter (\<lambda>m. case fmlookup z m of
          None \<Rightarrow> True | Some x \<Rightarrow> \<not> (lo \<le> x \<and> x \<le> hi)) z),
      zadd = fmupd, zcard = (\<lambda>z. card (fmdom' z)), zrem = fmdrop\<rparr>"

lemma fm_zset_laws: "zset_laws fm_zset fmlookup"
proof -
  have "zcard fm_zset z = card (dom (fmlookup z))" for z :: "(string, rat) fmap"
    by (simp only: fm_zset_def zset_ops.simps fmdom'.rep_eq)
  moreover have "fmlookup (zremrangebyscore fm_zset lo hi z)
      = (\<lambda>m. case fmlookup z m of None \<Rightarrow> None
           | Some x \<Rightarrow> (if lo \<le> x \<and> x \<le> hi then None else Some x))" for lo hi z
    by (rule ext) (simp add: fm_zset_def split: option.split)
  moreover have "fmlookup (zrem fm_zset m z) = (fmlookup z)(m := None)" for m z
    by (rule ext) (simp add: fm_zset_def)
  ultimately show ?thesis
    unfolding zset_laws_def by (simp add: fm_zset_def) (simp add: fun_eq_iff)
qed

abbreviation demo_redis :: "string \<Rightarrow> (string, rat) fmap slot" where
  "demo_redis \<equiv> \<lambda>_. \<lparr>sl_set = fmempty, sl_expires = None\<rparr>"

abbreviation demo_calls :: "(rat \<times> string) list" where
  "demo_calls \<equiv> [(1, ''a''), (2, ''b''), (3, ''c''), (62, ''d'')]"

theorem rate_limit_refines_window_witness:
  "run_calls fm_zset ''k'' 2 demo_redis demo_calls = [(1, True), (2, True), (3, False), (62, True)]"
proof -
  have "run_calls fm_zset ''k'' 2 demo_redis demo_calls
      = window_spec (nat (max 1 2)) [] (map fst demo_calls)"
    by (rule rate_limit_refines_window [OF fm_zset_laws]) auto
  then show ?thesis by (simp add: window_sec_def)
qed

theorem rate_limit_window_bound_witness:
  "accepted_in 30 (run_calls fm_zset ''k'' 2 demo_redis demo_calls) \<le> 2"
proof -
  have "accepted_in 30 (run_calls fm_zset ''k'' 2 demo_redis demo_calls) \<le> nat (max 1 2)"
    by (rule rate_limit_window_bound [OF fm_zset_laws]) auto
  then show ?thesis by simp
qed

end
