(* ===== verification/Security.thy ===== *)
theory Security
  imports Config Models "HOL-Library.Countable"
begin

text \<open>
  Passwords, access tokens and opaque tokens (\<^verbatim>\<open>app/core/security.py\<close>). SHA-256, bcrypt
  and PyJWT are the record \<open>crypto\<close>, a parameter; randomness and the clock are arguments.
  \<open>crypto_laws\<close> states what their documentation promises of values the program made itself;
  \<open>cy_checkpw\<close> may raise, by exception name.
\<close>

type_synonym claims = "(string \<times> pyval) list"

datatype jwt_failure = ExpiredSignature | InvalidToken

record crypto =
  cy_sha256 :: "string \<Rightarrow> bytes"
  cy_hashpw :: "string \<Rightarrow> string \<Rightarrow> string"
  cy_checkpw :: "string \<Rightarrow> string \<Rightarrow> string + bool"
  cy_jwt_encode :: "claims \<Rightarrow> string \<Rightarrow> string \<Rightarrow> string"
  cy_jwt_decode :: "string \<Rightarrow> string \<Rightarrow> string list \<Rightarrow> int \<Rightarrow> jwt_failure + claims"

text \<open>
  A token decodes to its claims with the key and algorithm it was made with until its \<open>exp\<close> claim
  (seconds), and is reported expired from then on; a bcrypt hash checks the input it was made from.
\<close>

definition crypto_laws :: "crypto \<Rightarrow> bool" where
  "crypto_laws cy \<longleftrightarrow>
     (\<forall>pw salt. cy_checkpw cy pw (cy_hashpw cy pw salt) = Inr True) \<and>
     (\<forall>cl key alg now expiry. map_of cl ''exp'' = Some (PInt expiry) \<longrightarrow>
        cy_jwt_decode cy (cy_jwt_encode cy cl key alg) key [alg] now
          = (if now < expiry then Inr cl else Inl ExpiredSignature))"

subsection \<open>Encodings of the standard library\<close>

definition hex_byte :: "nat \<Rightarrow> string" where
  "hex_byte b = [hex_char (b div 16 mod 16), hex_char (b mod 16)]"

definition b64_char :: "nat \<Rightarrow> char" where
  "b64_char n =
     (if n < 26 then char_of (65 + n) else if n < 52 then char_of (71 + n)
      else if n < 62 then char_of (n - 4) else if n = 62 then CHR ''+'' else CHR ''/'')"

fun b64encode :: "bytes \<Rightarrow> string" where
  "b64encode [] = []"
| "b64encode [a] = [b64_char (a div 4), b64_char (a mod 4 * 16), CHR ''='', CHR ''='']"
| "b64encode [a, b] =
     [b64_char (a div 4), b64_char (a mod 4 * 16 + b div 16), b64_char (b mod 16 * 4), CHR ''='']"
| "b64encode (a # b # c # bs) =
     [b64_char (a div 4), b64_char (a mod 4 * 16 + b div 16),
      b64_char (b mod 16 * 4 + c div 64), b64_char (c mod 64)] @ b64encode bs"

subsection \<open>Passwords\<close>

definition bcrypt_input :: "crypto \<Rightarrow> string \<Rightarrow> string" where
  "bcrypt_input cy password = b64encode (cy_sha256 cy password)"

definition hash_password :: "crypto \<Rightarrow> string \<Rightarrow> string \<Rightarrow> string" where
  "hash_password cy salt password = cy_hashpw cy (bcrypt_input cy password) salt"

definition verify_password :: "crypto \<Rightarrow> string \<Rightarrow> string \<Rightarrow> exn + bool" where
  "verify_password cy password password_hash =
     (case cy_checkpw cy (bcrypt_input cy password) password_hash of
        Inr b \<Rightarrow> Inr b
      | Inl name \<Rightarrow> (if name \<in> {''ValueError'', ''TypeError''} then Inr False else Inl (PyError name [])))"

subsection \<open>Access tokens\<close>

text \<open>A timestamp is in microseconds, the \<open>iat\<close> and \<open>exp\<close> claims are in seconds.\<close>

definition minutes :: "int \<Rightarrow> int" where "minutes m = m * 60 * 1000000"
definition days :: "int \<Rightarrow> int" where "days d = d * 86400 * 1000000"
definition to_seconds :: "timestamp \<Rightarrow> int" where "to_seconds t = t div 1000000"

definition access_claims :: "settings \<Rightarrow> string \<Rightarrow> string \<Rightarrow> string \<Rightarrow> string \<Rightarrow> timestamp \<Rightarrow> claims" where
  "access_claims cfg user_id workspace_id role jti now =
     [(''sub'', PStr user_id), (''workspace_id'', PStr workspace_id), (''role'', PStr role),
      (''type'', PStr ''access''), (''iat'', PInt (to_seconds now)),
      (''exp'', PInt (to_seconds (now + minutes (access_token_expire_minutes cfg)))),
      (''jti'', PStr jti)]"

definition create_access_token ::
    "settings \<Rightarrow> crypto \<Rightarrow> string \<Rightarrow> string \<Rightarrow> string \<Rightarrow> string \<Rightarrow> timestamp \<Rightarrow> string" where
  "create_access_token cfg cy user_id workspace_id role jti now =
     cy_jwt_encode cy (access_claims cfg user_id workspace_id role jti now)
       (secret_key cfg) (jwt_algorithm cfg)"

definition decode_access_token :: "settings \<Rightarrow> crypto \<Rightarrow> string \<Rightarrow> timestamp \<Rightarrow> exn + claims" where
  "decode_access_token cfg cy token now =
     (case cy_jwt_decode cy token (secret_key cfg) [jwt_algorithm cfg] (to_seconds now) of
        Inl ExpiredSignature \<Rightarrow> Inl (raise_code UnauthorizedError ''Access token expired'' ''TOKEN_EXPIRED'')
      | Inl InvalidToken \<Rightarrow> Inl (raise_app UnauthorizedError ''Invalid access token'')
      | Inr cl \<Rightarrow>
          if map_of cl ''type'' \<noteq> Some (PStr ''access'')
          then Inl (raise_app UnauthorizedError ''Wrong token type'') else Inr cl)"

subsection \<open>Opaque tokens\<close>

definition sha256_hex :: "crypto \<Rightarrow> string \<Rightarrow> string" where
  "sha256_hex cy raw = concat (map hex_byte (cy_sha256 cy raw))"

definition generate_refresh_token ::
    "settings \<Rightarrow> crypto \<Rightarrow> string \<Rightarrow> timestamp \<Rightarrow> string \<times> string \<times> timestamp" where
  "generate_refresh_token cfg cy raw now =
     (raw, sha256_hex cy raw, now + days (refresh_token_expire_days cfg))"

definition api_key_prefix :: string where "api_key_prefix = ''keel_sk_''"

definition generate_api_key :: "crypto \<Rightarrow> string \<Rightarrow> string \<times> string \<times> string" where
  "generate_api_key cy rnd =
     (let raw = api_key_prefix @ rnd
      in (raw, take (length api_key_prefix + 6) raw, sha256_hex cy raw))"

lemma verify_hash: "crypto_laws cy \<Longrightarrow> verify_password cy pw (hash_password cy salt pw) = Inr True"
  by (simp add: crypto_laws_def verify_password_def hash_password_def)

lemma decode_own_token:
  assumes "crypto_laws cy"
  shows "decode_access_token cfg cy (create_access_token cfg cy u w r jti t) now
     = (if to_seconds now < to_seconds (t + minutes (access_token_expire_minutes cfg))
        then Inr (access_claims cfg u w r jti t)
        else Inl (raise_code UnauthorizedError ''Access token expired'' ''TOKEN_EXPIRED''))"
proof -
  have "map_of (access_claims cfg u w r jti t) ''exp''
      = Some (PInt (to_seconds (t + minutes (access_token_expire_minutes cfg))))"
    "map_of (access_claims cfg u w r jti t) ''type'' = Some (PStr ''access'')"
    by (simp_all add: access_claims_def)
  then show ?thesis
    using assms by (simp add: decode_access_token_def create_access_token_def crypto_laws_def)
qed

text \<open>A crypto module for concrete runs: a token numbers its claims, key and algorithm.\<close>

instance pyval :: countable
  by countable_datatype

definition demo_crypto :: crypto where
  "demo_crypto =
     \<lparr>cy_sha256 = (\<lambda>s. map of_char s), cy_hashpw = (\<lambda>pw salt. pw),
      cy_checkpw = (\<lambda>pw h. Inr (pw = h)),
      cy_jwt_encode = (\<lambda>cl key alg. replicate (Suc (to_nat (cl, key, alg))) CHR ''t''),
      cy_jwt_decode = (\<lambda>tok key algs now.
        case from_nat (length tok - 1) of (cl, k, a) \<Rightarrow>
          if k \<noteq> key \<or> a \<notin> set algs then Inl InvalidToken
          else case map_of cl ''exp'' of
                 Some (PInt expiry) \<Rightarrow> (if now < expiry then Inr cl else Inl ExpiredSignature)
               | _ \<Rightarrow> Inr cl)\<rparr>"

lemma demo_crypto_laws: "crypto_laws demo_crypto"
  by (simp add: crypto_laws_def demo_crypto_def)

end
