(* ===== verification/Auth.thy ===== *)
theory Auth
  imports Security
begin

text \<open>
  Registration, login, refresh rotation and logout (\<^verbatim>\<open>app/services/auth_service.py\<close>) with their
  routes (\<^verbatim>\<open>app/api/auth.py\<close>). An operation is a session transaction; the constraints of the
  tables are checked where a row is added. Fresh ids, salts and tokens come from \<open>fresh\<close>, the clock
  is the argument \<open>now\<close>.
\<close>

record fresh =
  fr_org :: uuid
  fr_ws :: uuid
  fr_user :: uuid
  fr_slug :: uuid
  fr_salt :: string
  fr_jti :: string
  fr_refresh :: string

record user_out =
  uo_id :: uuid
  uo_full_name :: string
  uo_email :: string
  uo_role :: role
  uo_last_active_at :: "timestamp option"

record workspace_out =
  wo_id :: uuid
  wo_name :: string
  wo_organization_name :: string

record auth_token_response =
  at_access_token :: string
  at_user :: user_out
  at_workspace :: workspace_out

record auth_result =
  ar_response :: auth_token_response
  ar_refresh_token :: string

subsection \<open>Rows and their constraints\<close>

definition add_organization :: "organization \<Rightarrow> db \<Rightarrow> exn + db" where
  "add_organization r d =
     (if \<exists>x \<in> set (organizations d). o_id x = o_id r \<or> o_slug x = o_slug r
      then Inl (integrity_error ''organizations'')
      else Inr (d\<lparr>organizations := organizations d @ [r]\<rparr>))"

definition add_workspace :: "workspace \<Rightarrow> db \<Rightarrow> exn + db" where
  "add_workspace r d =
     (if get_by w_id (w_id r) (workspaces d) \<noteq> None \<or> get_by o_id (w_organization_id r) (organizations d) = None
      then Inl (integrity_error ''workspaces'')
      else Inr (d\<lparr>workspaces := workspaces d @ [r]\<rparr>))"

definition add_user :: "user \<Rightarrow> db \<Rightarrow> exn + db" where
  "add_user r d =
     (if \<exists>x \<in> set (users d). u_id x = u_id r \<or> u_email x = u_email r
      then Inl (integrity_error ''users'')
      else Inr (d\<lparr>users := users d @ [r]\<rparr>))"

definition add_member :: "member \<Rightarrow> db \<Rightarrow> exn + db" where
  "add_member r d =
     (if (\<exists>x \<in> set (members d). m_organization_id x = m_organization_id r \<and> m_user_id x = m_user_id r) \<or>
         get_by o_id (m_organization_id r) (organizations d) = None \<or>
         get_by w_id (m_workspace_id r) (workspaces d) = None \<or>
         get_by u_id (m_user_id r) (users d) = None
      then Inl (integrity_error ''organization_members'')
      else Inr (d\<lparr>members := members d @ [r]\<rparr>))"

definition add_refresh_token :: "refresh_token \<Rightarrow> db \<Rightarrow> exn + db" where
  "add_refresh_token r d =
     (if get_by rt_token_hash (rt_token_hash r) (refresh_tokens d) \<noteq> None \<or>
         get_by u_id (rt_user_id r) (users d) = None \<or>
         get_by w_id (rt_workspace_id r) (workspaces d) = None
      then Inl (integrity_error ''refresh_tokens'')
      else Inr (d\<lparr>refresh_tokens := refresh_tokens d @ [r]\<rparr>))"

definition update_user :: "uuid \<Rightarrow> (user \<Rightarrow> user) \<Rightarrow> db \<Rightarrow> db" where
  "update_user uid f d = d\<lparr>users := set_rows (\<lambda>u. u_id u = uid) f (users d)\<rparr>"

definition revoke_token :: "string \<Rightarrow> timestamp \<Rightarrow> db \<Rightarrow> db" where
  "revoke_token h now d =
     d\<lparr>refresh_tokens := set_rows (\<lambda>t. rt_token_hash t = h) (\<lambda>t. t\<lparr>rt_revoked_at := Some now\<rparr>)
         (refresh_tokens d)\<rparr>"

subsection \<open>Slugs\<close>

text \<open>\<open>re.sub(r"[^a-z0-9]+", "-", s)\<close>\<close>

definition slug_char :: "char \<Rightarrow> bool" where
  "slug_char c \<longleftrightarrow> (let n = (of_char c :: nat) in (97 \<le> n \<and> n \<le> 122) \<or> (48 \<le> n \<and> n \<le> 57))"

fun slug_sub :: "bool \<Rightarrow> string \<Rightarrow> string" where
  "slug_sub in_run [] = []"
| "slug_sub in_run (c # cs) =
     (if slug_char c then c # slug_sub False cs
      else if in_run then slug_sub True cs else CHR ''-'' # slug_sub True cs)"

definition slugify :: "string \<Rightarrow> uuid \<Rightarrow> string" where
  "slugify name u =
     (let base = strip_by (\<lambda>c. c = CHR ''-'') (slug_sub False (py_lower name))
      in (if base = [] then ''org'' else base) @ ''-'' @ take 6 (uuid_hex u))"

subsection \<open>Operations\<close>

definition default_workspace :: "uuid \<Rightarrow> uuid \<Rightarrow> string \<Rightarrow> workspace" where
  "default_workspace wid oid name =
     \<lparr>w_id = wid, w_organization_id = oid, w_name = name,
      w_embedding_model = ''text-embedding-3-small'', w_embedding_dims = 1536,
      w_chat_model = ''gpt-4o-mini'', w_chat_top_k = 10, w_min_similarity = 65 / 100,
      w_auto_start_ingestion = True, w_rest_api_enabled = True, w_default_rate_limit_per_minute = 100\<rparr>"

definition new_user :: "uuid \<Rightarrow> string \<Rightarrow> string \<Rightarrow> string \<Rightarrow> timestamp option \<Rightarrow> user" where
  "new_user uid email full_name password_hash last_active =
     \<lparr>u_id = uid, u_email = email, u_full_name = full_name, u_password_hash = password_hash,
      u_is_active = True, u_is_verified = False, u_mfa_enabled = False,
      u_last_active_at = last_active, u_failed_login_count = 0, u_lockout_until = None\<rparr>"

definition make_user_out :: "user \<Rightarrow> string \<Rightarrow> exn + user_out" where
  "make_user_out u role =
     map_sum id (\<lambda>r. \<lparr>uo_id = u_id u, uo_full_name = u_full_name u, uo_email = u_email u,
                       uo_role = r, uo_last_active_at = u_last_active_at u\<rparr>) (role_of role)"

definition build_response ::
    "string \<Rightarrow> user \<Rightarrow> workspace \<Rightarrow> string \<Rightarrow> string \<Rightarrow> exn + auth_token_response" where
  "build_response access u w role org_name =
     map_sum id (\<lambda>uo. \<lparr>at_access_token = access, at_user = uo,
                        at_workspace = \<lparr>wo_id = w_id w, wo_name = w_name w, wo_organization_name = org_name\<rparr>\<rparr>)
       (make_user_out u role)"

definition issue_tokens ::
    "settings \<Rightarrow> crypto \<Rightarrow> fresh \<Rightarrow> timestamp \<Rightarrow> user \<Rightarrow> workspace \<Rightarrow> string \<Rightarrow> (string \<times> string) db_tx" where
  "issue_tokens cfg cy fr now u w role =
     (let access = create_access_token cfg cy (str_uuid (u_id u)) (str_uuid (w_id w)) role (fr_jti fr) now
      in case generate_refresh_token cfg cy (fr_refresh fr) now of
           (raw, token_hash, expires_at) \<Rightarrow>
             tx_seq (tx_update (add_refresh_token
               \<lparr>rt_user_id = u_id u, rt_workspace_id = w_id w, rt_token_hash = token_hash,
                rt_expires_at = expires_at, rt_revoked_at = None\<rparr>))
               (tx_return (access, raw)))"

definition finish_session ::
    "settings \<Rightarrow> crypto \<Rightarrow> fresh \<Rightarrow> timestamp \<Rightarrow> user \<Rightarrow> workspace \<Rightarrow> string \<Rightarrow> string \<Rightarrow> auth_result db_tx" where
  "finish_session cfg cy fr now u w role org_name =
     tx_bind (issue_tokens cfg cy fr now u w role) (\<lambda>(access, raw).
     tx_bind (tx_lift (build_response access u w role org_name)) (\<lambda>response.
     tx_return \<lparr>ar_response = response, ar_refresh_token = raw\<rparr>))"

definition register ::
    "settings \<Rightarrow> crypto \<Rightarrow> fresh \<Rightarrow> timestamp \<Rightarrow> string \<Rightarrow> string \<Rightarrow> string \<Rightarrow> string \<Rightarrow> auth_result db_tx" where
  "register cfg cy fr now full_name email organization_name password =
     tx_bind (tx_query (\<lambda>d. one_or_none (filter (\<lambda>u. u_email u = py_lower email) (users d)))) (\<lambda>existing.
     if existing \<noteq> None
     then tx_raise (raise_code ConflictError ''An account with this email already exists'' ''EMAIL_TAKEN'')
     else
       let org = \<lparr>o_id = fr_org fr, o_name = organization_name,
                  o_slug = slugify organization_name (fr_slug fr)\<rparr>;
           w = default_workspace (fr_ws fr) (fr_org fr) organization_name;
           u = new_user (fr_user fr) (py_lower email) full_name (hash_password cy (fr_salt fr) password) (Some now)
       in tx_seq (tx_update (add_organization org))
         (tx_seq (tx_update (add_workspace w))
         (tx_seq (tx_update (add_user u))
         (tx_seq (tx_update (add_member
            \<lparr>m_organization_id = fr_org fr, m_workspace_id = fr_ws fr, m_user_id = fr_user fr,
             m_role = role_value Admin, m_invited_email = None, m_invite_accepted = True\<rparr>))
         (finish_session cfg cy fr now u w (role_value Admin) (o_name org))))))"

definition membership :: "uuid \<Rightarrow> member db_tx" where
  "membership user_id =
     tx_bind (tx_read (\<lambda>d. first_row (filter (\<lambda>m. m_user_id m = user_id) (members d)))) (\<lambda>m.
     case m of None \<Rightarrow> tx_raise (raise_app UnauthorizedError ''No workspace membership'')
     | Some m \<Rightarrow> tx_return m)"

definition resolve_workspace_org :: "member \<Rightarrow> (workspace \<times> organization) db_tx" where
  "resolve_workspace_org m =
     tx_bind (tx_read (\<lambda>d. get_by w_id (m_workspace_id m) (workspaces d))) (\<lambda>w.
     case w of None \<Rightarrow> tx_raise (raise_app UnauthorizedError ''Workspace not found'')
     | Some w \<Rightarrow>
         tx_bind (tx_read (\<lambda>d. get_by o_id (w_organization_id w) (organizations d))) (\<lambda>org.
         case org of None \<Rightarrow> tx_raise (raise_app UnauthorizedError ''Organization not found'')
         | Some org \<Rightarrow> tx_return (w, org)))"

definition session_for ::
    "settings \<Rightarrow> crypto \<Rightarrow> fresh \<Rightarrow> timestamp \<Rightarrow> user \<Rightarrow> auth_result db_tx" where
  "session_for cfg cy fr now u =
     tx_bind (membership (u_id u)) (\<lambda>m.
     tx_bind (resolve_workspace_org m) (\<lambda>(w, org).
     finish_session cfg cy fr now u w (m_role m) (o_name org)))"

definition fail_login :: "settings \<Rightarrow> timestamp \<Rightarrow> user \<Rightarrow> user" where
  "fail_login cfg now u =
     (let n = u_failed_login_count u + 1
      in if login_max_attempts cfg \<le> n
         then u\<lparr>u_lockout_until := Some (now + minutes (lockout_min cfg)), u_failed_login_count := 0\<rparr>
         else u\<lparr>u_failed_login_count := n\<rparr>)"

definition pass_login :: "timestamp \<Rightarrow> user \<Rightarrow> user" where
  "pass_login now u = u\<lparr>u_failed_login_count := 0, u_lockout_until := None, u_last_active_at := Some now\<rparr>"

definition locked :: "timestamp \<Rightarrow> user \<Rightarrow> bool" where
  "locked now u = (case u_lockout_until u of None \<Rightarrow> False | Some t \<Rightarrow> now < t)"

definition login ::
    "settings \<Rightarrow> crypto \<Rightarrow> fresh \<Rightarrow> timestamp \<Rightarrow> string \<Rightarrow> string \<Rightarrow> auth_result db_tx" where
  "login cfg cy fr now email password =
     tx_bind (tx_query (\<lambda>d. one_or_none (filter (\<lambda>u. u_email u = py_lower email) (users d)))) (\<lambda>found.
     case found of
       None \<Rightarrow> tx_raise (raise_app UnauthorizedError ''Invalid email or password'')
     | Some u \<Rightarrow>
         if locked now u
         then tx_raise (raise_code UnauthorizedError ''Account temporarily locked. Try again later.'' ''ACCOUNT_LOCKED'')
         else tx_bind (tx_lift (verify_password cy password (u_password_hash u))) (\<lambda>ok.
           if \<not> ok
           then tx_seq (tx_modify (update_user (u_id u) (fail_login cfg now)))
                  (tx_raise (raise_app UnauthorizedError ''Invalid email or password''))
           else if \<not> u_is_active u then tx_raise (raise_app UnauthorizedError ''Account is inactive'')
           else tx_seq (tx_modify (update_user (u_id u) (pass_login now)))
                  (session_for cfg cy fr now (pass_login now u))))"

definition refresh ::
    "settings \<Rightarrow> crypto \<Rightarrow> fresh \<Rightarrow> timestamp \<Rightarrow> string \<Rightarrow> auth_result db_tx" where
  "refresh cfg cy fr now raw_token =
     tx_bind (tx_query (\<lambda>d. one_or_none
        (filter (\<lambda>t. rt_token_hash t = sha256_hex cy raw_token) (refresh_tokens d)))) (\<lambda>found.
     case found of
       None \<Rightarrow> tx_raise (raise_code UnauthorizedError ''Invalid or expired session'' ''UNAUTHENTICATED'')
     | Some t \<Rightarrow>
         if rt_revoked_at t \<noteq> None \<or> rt_expires_at t < now
         then tx_raise (raise_code UnauthorizedError ''Invalid or expired session'' ''UNAUTHENTICATED'')
         else tx_seq (tx_modify (revoke_token (rt_token_hash t) now))
           (tx_bind (tx_read (\<lambda>d. get_by u_id (rt_user_id t) (users d))) (\<lambda>u.
            case u of
              None \<Rightarrow> tx_raise (raise_app UnauthorizedError ''User not found or inactive'')
            | Some u \<Rightarrow>
                if \<not> u_is_active u then tx_raise (raise_app UnauthorizedError ''User not found or inactive'')
                else session_for cfg cy fr now u)))"

definition logout :: "crypto \<Rightarrow> timestamp \<Rightarrow> string option \<Rightarrow> unit db_tx" where
  "logout cy now raw_token =
     (case raw_token of
        None \<Rightarrow> tx_return ()
      | Some raw \<Rightarrow>
          if raw = [] then tx_return ()
          else tx_bind (tx_query (\<lambda>d. one_or_none
                 (filter (\<lambda>t. rt_token_hash t = sha256_hex cy raw) (refresh_tokens d)))) (\<lambda>found.
               case found of
                 None \<Rightarrow> tx_return ()
               | Some t \<Rightarrow> (if rt_revoked_at t = None then tx_modify (revoke_token (rt_token_hash t) now)
                           else tx_return ())))"

definition get_session :: "uuid \<Rightarrow> (user_out \<times> workspace_out) db_tx" where
  "get_session user_id =
     tx_bind (tx_read (\<lambda>d. get_by u_id user_id (users d))) (\<lambda>u.
     case u of
       None \<Rightarrow> tx_raise (raise_app UnauthorizedError ''User not found'')
     | Some u \<Rightarrow>
         tx_bind (membership (u_id u)) (\<lambda>m.
         tx_bind (resolve_workspace_org m) (\<lambda>(w, org).
         tx_bind (tx_lift (make_user_out u (m_role m))) (\<lambda>uo.
         tx_return (uo, \<lparr>wo_id = w_id w, wo_name = w_name w, wo_organization_name = o_name org\<rparr>)))))"

subsection \<open>Routes\<close>

record cookie =
  ck_key :: string
  ck_value :: string
  ck_httponly :: bool
  ck_secure :: bool
  ck_samesite :: string
  ck_max_age :: int
  ck_path :: string

definition refresh_cookie_name :: string where "refresh_cookie_name = ''keel_refresh''"
definition cookie_path :: string where "cookie_path = ''/api/auth''"

definition set_refresh_cookie :: "settings \<Rightarrow> string \<Rightarrow> cookie" where
  "set_refresh_cookie cfg raw =
     \<lparr>ck_key = refresh_cookie_name, ck_value = raw, ck_httponly = True,
      ck_secure = (app_env cfg \<noteq> ''local''), ck_samesite = ''lax'',
      ck_max_age = refresh_token_expire_days cfg * 86400, ck_path = cookie_path\<rparr>"

definition with_cookie :: "settings \<Rightarrow> auth_result db_tx \<Rightarrow> (auth_token_response \<times> cookie) db_tx" where
  "with_cookie cfg op = tx_bind op (\<lambda>result.
     tx_return (ar_response result, set_refresh_cookie cfg (ar_refresh_token result)))"

definition str_len_ok :: "nat \<Rightarrow> nat \<Rightarrow> string \<Rightarrow> bool" where
  "str_len_ok lo hi s \<longleftrightarrow> lo \<le> length s \<and> length s \<le> hi"

text \<open>\<open>email_str\<close> is the \<open>EmailStr\<close> validator: the normalised address, or nothing.\<close>

definition register_route ::
    "settings \<Rightarrow> crypto \<Rightarrow> (string \<Rightarrow> string option) \<Rightarrow> fresh \<Rightarrow> timestamp \<Rightarrow>
     string \<Rightarrow> string \<Rightarrow> string \<Rightarrow> string \<Rightarrow> (auth_token_response \<times> cookie) db_tx" where
  "register_route cfg cy email_str fr now full_name email organization_name password =
     (case email_str email of
        None \<Rightarrow> tx_raise (ValidationError [Some ''email''])
      | Some addr \<Rightarrow>
          if str_len_ok 1 255 full_name \<and> str_len_ok 1 255 organization_name \<and> str_len_ok 12 200 password
          then with_cookie cfg (register cfg cy fr now full_name addr organization_name password)
          else tx_raise (ValidationError [Some ''string length'']))"

definition login_route ::
    "settings \<Rightarrow> crypto \<Rightarrow> (string \<Rightarrow> string option) \<Rightarrow> fresh \<Rightarrow> timestamp \<Rightarrow> string \<Rightarrow> string \<Rightarrow>
     (auth_token_response \<times> cookie) db_tx" where
  "login_route cfg cy email_str fr now email password =
     (case email_str email of
        None \<Rightarrow> tx_raise (ValidationError [Some ''email''])
      | Some addr \<Rightarrow> with_cookie cfg (login cfg cy fr now addr password))"

definition refresh_route ::
    "settings \<Rightarrow> crypto \<Rightarrow> fresh \<Rightarrow> timestamp \<Rightarrow> string option \<Rightarrow> (auth_token_response \<times> cookie) db_tx" where
  "refresh_route cfg cy fr now raw =
     (case raw of
        None \<Rightarrow> tx_raise (raise_code UnauthorizedError ''No active session'' ''UNAUTHENTICATED'')
      | Some r \<Rightarrow>
          if r = [] then tx_raise (raise_code UnauthorizedError ''No active session'' ''UNAUTHENTICATED'')
          else with_cookie cfg (refresh cfg cy fr now r))"

subsection \<open>Invariant of the account tables\<close>

definition valid_role :: "string \<Rightarrow> bool" where
  "valid_role s \<longleftrightarrow> s = role_value Admin \<or> s = role_value Standard"

definition accounts_ok :: "db \<Rightarrow> bool" where
  "accounts_ok d \<longleftrightarrow>
     distinct (map u_id (users d)) \<and> distinct (map u_email (users d)) \<and>
     (\<forall>u \<in> set (users d). py_lower (u_email u) = u_email u) \<and>
     distinct (map o_id (organizations d)) \<and> distinct (map w_id (workspaces d)) \<and>
     distinct (map rt_token_hash (refresh_tokens d)) \<and>
     distinct (map (\<lambda>m. (m_organization_id m, m_user_id m)) (members d)) \<and>
     (\<forall>w \<in> set (workspaces d). w_organization_id w \<in> o_id ` set (organizations d)) \<and>
     (\<forall>m \<in> set (members d). m_user_id m \<in> u_id ` set (users d) \<and>
        m_workspace_id m \<in> w_id ` set (workspaces d) \<and>
        m_organization_id m \<in> o_id ` set (organizations d) \<and> valid_role (m_role m))"

lemma get_by_mem: "get_by key k rows \<noteq> None \<longleftrightarrow> k \<in> key ` set rows"
  using get_by_None [of key k rows] by force

lemma valid_role_value [simp]: "valid_role (role_value r)"
  by (cases r) (simp_all add: valid_role_def)

lemma add_cases:
  "add_organization org d = Inr d' \<Longrightarrow>
     d' = d\<lparr>organizations := organizations d @ [org]\<rparr> \<and> o_id org \<notin> o_id ` set (organizations d)"
  "add_workspace w d = Inr d' \<Longrightarrow>
     d' = d\<lparr>workspaces := workspaces d @ [w]\<rparr> \<and> w_id w \<notin> w_id ` set (workspaces d) \<and>
     w_organization_id w \<in> o_id ` set (organizations d)"
  "add_user u d = Inr d' \<Longrightarrow>
     d' = d\<lparr>users := users d @ [u]\<rparr> \<and> u_id u \<notin> u_id ` set (users d) \<and> u_email u \<notin> u_email ` set (users d)"
  "add_member m d = Inr d' \<Longrightarrow>
     d' = d\<lparr>members := members d @ [m]\<rparr> \<and>
     (m_organization_id m, m_user_id m) \<notin> (\<lambda>m. (m_organization_id m, m_user_id m)) ` set (members d) \<and>
     m_organization_id m \<in> o_id ` set (organizations d) \<and>
     m_workspace_id m \<in> w_id ` set (workspaces d) \<and> m_user_id m \<in> u_id ` set (users d)"
  "add_refresh_token t d = Inr d' \<Longrightarrow>
     d' = d\<lparr>refresh_tokens := refresh_tokens d @ [t]\<rparr> \<and>
     rt_token_hash t \<notin> rt_token_hash ` set (refresh_tokens d) \<and>
     rt_user_id t \<in> u_id ` set (users d) \<and> rt_workspace_id t \<in> w_id ` set (workspaces d)"
proof -
  have new: "k \<notin> key ` set rows" if "\<forall>x \<in> set rows. key x \<noteq> k" for key :: "'r \<Rightarrow> 'k" and k rows
    using that by blast
  have get: "get_by key k rows = None \<longleftrightarrow> k \<notin> key ` set rows" for key :: "'r \<Rightarrow> uuid" and k rows
    using get_by_mem [of key k rows] by blast
  have get_hash: "get_by rt_token_hash k rows = None \<longleftrightarrow> k \<notin> rt_token_hash ` set rows" for k rows
    using get_by_mem [of rt_token_hash k rows] by blast
  show "add_organization org d = Inr d' \<Longrightarrow>
     d' = d\<lparr>organizations := organizations d @ [org]\<rparr> \<and> o_id org \<notin> o_id ` set (organizations d)"
    using new [of "organizations d" o_id "o_id org"]
    by (simp add: add_organization_def split: if_splits)
  show "add_workspace w d = Inr d' \<Longrightarrow>
     d' = d\<lparr>workspaces := workspaces d @ [w]\<rparr> \<and> w_id w \<notin> w_id ` set (workspaces d) \<and>
     w_organization_id w \<in> o_id ` set (organizations d)"
    by (simp add: add_workspace_def get_by_mem get split: if_splits)
  show "add_user u d = Inr d' \<Longrightarrow>
     d' = d\<lparr>users := users d @ [u]\<rparr> \<and> u_id u \<notin> u_id ` set (users d) \<and> u_email u \<notin> u_email ` set (users d)"
    using new [of "users d" u_id "u_id u"] new [of "users d" u_email "u_email u"]
    by (simp add: add_user_def split: if_splits)
  show "add_member m d = Inr d' \<Longrightarrow>
     d' = d\<lparr>members := members d @ [m]\<rparr> \<and>
     (m_organization_id m, m_user_id m) \<notin> (\<lambda>m. (m_organization_id m, m_user_id m)) ` set (members d) \<and>
     m_organization_id m \<in> o_id ` set (organizations d) \<and>
     m_workspace_id m \<in> w_id ` set (workspaces d) \<and> m_user_id m \<in> u_id ` set (users d)"
    using new [of "members d" "\<lambda>m. (m_organization_id m, m_user_id m)" "(m_organization_id m, m_user_id m)"]
    by (simp add: add_member_def get split: if_splits)
  show "add_refresh_token t d = Inr d' \<Longrightarrow>
     d' = d\<lparr>refresh_tokens := refresh_tokens d @ [t]\<rparr> \<and>
     rt_token_hash t \<notin> rt_token_hash ` set (refresh_tokens d) \<and>
     rt_user_id t \<in> u_id ` set (users d) \<and> rt_workspace_id t \<in> w_id ` set (workspaces d)"
    by (simp add: add_refresh_token_def get_by_mem get get_hash split: if_splits)
qed

lemma accounts_add [inv_intros]:
  "tx_keeps accounts_ok (tx_update (add_organization org))"
  "tx_keeps accounts_ok (tx_update (add_workspace w))"
  "tx_keeps accounts_ok (tx_update (add_refresh_token t))"
  by (rule tx_keeps_update; drule add_cases; simp add: accounts_ok_def)+

lemma accounts_add_user:
  "py_lower (u_email u) = u_email u \<Longrightarrow> tx_keeps accounts_ok (tx_update (add_user u))"
  by (rule tx_keeps_update, drule add_cases, simp add: accounts_ok_def)

lemma accounts_add_member:
  "valid_role (m_role m) \<Longrightarrow> tx_keeps accounts_ok (tx_update (add_member m))"
  by (rule tx_keeps_update, drule add_cases, simp add: accounts_ok_def)

lemma accounts_update_user:
  assumes "\<And>u. u_id (f u) = u_id u" and "\<And>u. u_email (f u) = u_email u" and "accounts_ok d"
  shows "accounts_ok (update_user uid f d)"
proof -
  let ?P = "\<lambda>u. u_id u = uid"
  have "map u_id (set_rows ?P f (users d)) = map u_id (users d)"
    "map u_email (set_rows ?P f (users d)) = map u_email (users d)"
    using assms(1,2) by (simp_all add: set_rows_key)
  moreover from this have "u_id ` set (set_rows ?P f (users d)) = u_id ` set (users d)"
    by (metis set_map)
  moreover have "\<forall>u \<in> set (set_rows ?P f (users d)). py_lower (u_email u) = u_email u"
    using assms(2,3) by (auto simp: set_rows_def accounts_ok_def)
  ultimately show ?thesis using assms(3) by (simp add: accounts_ok_def update_user_def)
qed

lemma accounts_revoke [inv_intros]: "tx_keeps accounts_ok (tx_modify (revoke_token h now))"
proof (rule tx_keeps_modify)
  fix d
  assume "accounts_ok d"
  then show "accounts_ok (revoke_token h now d)"
    using set_rows_key [of rt_token_hash "\<lambda>t. t\<lparr>rt_revoked_at := Some now\<rparr>" "\<lambda>t. rt_token_hash t = h" "refresh_tokens d"]
    by (simp add: accounts_ok_def revoke_token_def)
qed

lemma accounts_session [inv_intros]:
  "tx_keeps accounts_ok (finish_session cfg cy fr now u w role org)"
  "tx_keeps accounts_ok (membership uid)"
  "tx_keeps accounts_ok (resolve_workspace_org m)"
  unfolding finish_session_def issue_tokens_def generate_refresh_token_def membership_def
    resolve_workspace_org_def Let_def prod.case
  by (intro inv_intros)+

lemma accounts_session_for [inv_intros]: "tx_keeps accounts_ok (session_for cfg cy fr now u)"
  unfolding session_for_def by (intro inv_intros)

lemma fail_login_simps [simp]:
  "u_id (fail_login cfg now u) = u_id u" "u_email (fail_login cfg now u) = u_email u"
  by (simp_all add: fail_login_def Let_def)

lemma pass_login_simps [simp]:
  "u_id (pass_login now u) = u_id u" "u_email (pass_login now u) = u_email u"
  "u_password_hash (pass_login now u) = u_password_hash u"
  by (simp_all add: pass_login_def)

lemma accounts_auth_ops [inv_intros]:
  "tx_keeps accounts_ok (register cfg cy fr now full_name email org pw)"
  "tx_keeps accounts_ok (login cfg cy fr now email pw)"
  "tx_keeps accounts_ok (refresh cfg cy fr now raw)"
  "tx_keeps accounts_ok (logout cy now raw_opt)"
proof -
  have upd: "tx_keeps accounts_ok (tx_modify (update_user uid f))"
    if "\<And>u. u_id (f u) = u_id u" "\<And>u. u_email (f u) = u_email u" for uid f
    by (intro tx_keeps_modify accounts_update_user that)
  show "tx_keeps accounts_ok (register cfg cy fr now full_name email org pw)"
    unfolding register_def Let_def
    by (intro inv_intros accounts_add_user accounts_add_member) (simp_all add: new_user_def valid_role_def)
  show "tx_keeps accounts_ok (login cfg cy fr now email pw)"
    unfolding login_def by (intro inv_intros upd) simp_all
  show "tx_keeps accounts_ok (refresh cfg cy fr now raw)"
    unfolding refresh_def by (intro inv_intros)
  show "tx_keeps accounts_ok (logout cy now raw_opt)"
    unfolding logout_def by (intro inv_intros)
qed

subsection \<open>What the operations do\<close>

lemma clean_auth_ops [inv_intros]:
  "tx_clean (session_for cfg cy fr now u)"
  "tx_clean (register cfg cy fr now full_name email org pw)"
  "tx_clean (login cfg cy fr now email pw)"
  "tx_clean (refresh cfg cy fr now raw)"
  unfolding session_for_def finish_session_def issue_tokens_def generate_refresh_token_def
    membership_def resolve_workspace_org_def register_def login_def refresh_def Let_def prod.case
  by (intro inv_intros)+

text \<open>What \<open>session_for\<close> leaves alone: every view that ignores the refresh tokens.\<close>

lemma session_frame:
  assumes "\<And>d rts. v (d\<lparr>refresh_tokens := rts\<rparr>) = v d"
  shows "tx_frame v (session_for cfg cy fr now u)"
proof -
  have upd: "tx_frame v (tx_update (add_refresh_token t))" for t
    by (rule tx_frame_update) (auto simp: add_refresh_token_def assms split: if_splits)
  then show ?thesis
    unfolding session_for_def finish_session_def issue_tokens_def generate_refresh_token_def
      membership_def resolve_workspace_org_def Let_def prod.case
    by (intro inv_intros upd)
qed

lemma session_users: "tx_frame users (session_for cfg cy fr now u)"
  by (rule session_frame) simp

text \<open>Fresh values for concrete runs.\<close>

definition demo_fresh :: "uuid \<Rightarrow> string \<Rightarrow> fresh" where
  "demo_fresh n raw =
     \<lparr>fr_org = n, fr_ws = n, fr_user = n, fr_slug = n, fr_salt = ''salt'', fr_jti = ''jti'', fr_refresh = raw\<rparr>"

text \<open>Whether a user could be locked out: the state that \<open>fail_login\<close> sets.\<close>

definition no_lock :: "db \<Rightarrow> bool" where
  "no_lock d \<longleftrightarrow> (\<forall>u \<in> set (users d). u_lockout_until u = None)"

definition account_locked :: exn where
  "account_locked = raise_code UnauthorizedError ''Account temporarily locked. Try again later.'' ''ACCOUNT_LOCKED''"

lemma one_or_none_mem: "one_or_none (filter P xs) = Inr (Some x) \<Longrightarrow> x \<in> set xs \<and> P x"
proof -
  assume "one_or_none (filter P xs) = Inr (Some x)"
  then have "x \<in> set (filter P xs)" by (simp add: one_or_none_Some)
  then show ?thesis by simp
qed

text \<open>A login that succeeds clears the failure state of its user and no other's.\<close>

lemma login_success:
  assumes "get_db (login cfg cy fr now email pw) d = (Inr x, d')"
  obtains u where "u \<in> set (users d)" "u_email u = py_lower email"
    "verify_password cy pw (u_password_hash u) = Inr True" "u_is_active u" "\<not> locked now u"
    "users d' = set_rows (\<lambda>v. u_id v = u_id u) (pass_login now) (users d)"
proof -
  obtain s where run: "login cfg cy fr now email pw (open_session d) = (Inr x, s)" and d': "d' = working s"
    using assms by (auto simp: get_db_Inr)
  obtain u where u: "one_or_none (filter (\<lambda>u. u_email u = py_lower email) (users d)) = Inr (Some u)"
    and ok: "verify_password cy pw (u_password_hash u) = Inr True" "u_is_active u" "\<not> locked now u"
    and ses: "session_for cfg cy fr now (pass_login now u)
      ((open_session d)\<lparr>working := update_user (u_id u) (pass_login now) d\<rparr>) = (Inr x, s)"
    using run unfolding login_def
    by (auto simp: tx_simps split: sum.splits option.splits if_splits)
  have "users (working s) = users (update_user (u_id u) (pass_login now) d)"
    using session_users ses unfolding tx_frame_def by (metis session.select_convs(2) session.surjective
        session.update_convs(2) snd_conv)
  then show thesis
    using one_or_none_mem [OF u] ok d' by (intro that [of u]) (simp_all add: update_user_def)
qed

text \<open>The errors of the operations after the lockout check are other ones.\<close>

lemma session_errors:
  "fst (session_for cfg cy fr now u s) \<noteq> Inl account_locked"
  unfolding session_for_def finish_session_def issue_tokens_def generate_refresh_token_def
    membership_def resolve_workspace_org_def Let_def prod.case
  by (auto simp: tx_simps account_locked_def raise_code_def raise_app_def app_error_def
      add_refresh_token_def integrity_error_def build_response_def make_user_out_def role_of_def
      split: option.split sum.split)

lemma login_unlocked:
  assumes "no_lock d"
  shows "fst (login cfg cy fr now email pw (open_session d)) \<noteq> Inl account_locked"
proof -
  have unlocked: "\<not> locked now u" if "u \<in> set (users d)" for u
    using that assms by (simp add: locked_def no_lock_def)
  have other: "PyError n t \<noteq> account_locked" for n t
    by (simp add: account_locked_def raise_code_def)
  have msgs: "raise_app UnauthorizedError ''Invalid email or password'' \<noteq> account_locked"
    "raise_app UnauthorizedError ''Account is inactive'' \<noteq> account_locked"
    by (simp_all add: account_locked_def raise_code_def raise_app_def app_error_def)
  show ?thesis
  proof (cases "one_or_none (filter (\<lambda>u. u_email u = py_lower email) (users d))")
    case (Inl e)
    then show ?thesis using other by (simp add: login_def tx_simps one_or_none_Inl [OF Inl])
  next
    case (Inr found)
    show ?thesis
    proof (cases found)
      case None
      then show ?thesis using Inr msgs by (simp add: login_def tx_simps)
    next
      case (Some u)
      have "u \<in> set (users d)" using one_or_none_mem [OF Inr [unfolded Some]] by simp
      then have "\<not> locked now u" by (rule unlocked)
      with Inr Some have run: "login cfg cy fr now email pw (open_session d)
          = tx_bind (tx_lift (verify_password cy pw (u_password_hash u))) (\<lambda>ok.
             if \<not> ok
             then tx_seq (tx_modify (update_user (u_id u) (fail_login cfg now)))
                    (tx_raise (raise_app UnauthorizedError ''Invalid email or password''))
             else if \<not> u_is_active u then tx_raise (raise_app UnauthorizedError ''Account is inactive'')
             else tx_seq (tx_modify (update_user (u_id u) (pass_login now)))
                    (session_for cfg cy fr now (pass_login now u))) (open_session d)"
        by (simp add: login_def tx_bind_simps(6,7))
      show ?thesis
      proof (cases "verify_password cy pw (u_password_hash u)")
        case (Inl e)
        then have "e \<noteq> account_locked" using other
          by (auto simp: verify_password_def split: sum.splits if_splits)
        then show ?thesis unfolding run by (simp add: tx_simps Inl)
      next
        case (Inr ok)
        then show ?thesis unfolding run using msgs session_errors
          by (cases ok; cases "u_is_active u") (simp_all add: tx_simps)
      qed
    qed
  qed
qed

lemma login_no_lock:
  assumes "no_lock d"
  shows "no_lock (snd (get_db (login cfg cy fr now email pw) d))"
    and "fst (get_db (login cfg cy fr now email pw) d) \<noteq> Inl account_locked"
proof -
  obtain r d' where run: "get_db (login cfg cy fr now email pw) d = (r, d')" by fastforce
  show "no_lock (snd (get_db (login cfg cy fr now email pw) d))"
  proof (cases r)
    case (Inl e)
    then have "d' = d" using get_db_clean [OF clean_auth_ops(3), of cfg cy fr now email pw d e] run by simp
    then show ?thesis using assms run by simp
  next
    case (Inr x)
    then have "get_db (login cfg cy fr now email pw) d = (Inr x, d')" using run by simp
    then obtain u :: user where "users d' = set_rows (\<lambda>v. u_id v = u_id u) (pass_login now) (users d)"
      by (rule login_success)
    then show ?thesis using assms run by (auto simp: no_lock_def set_rows_def pass_login_def)
  qed
  show "fst (get_db (login cfg cy fr now email pw) d) \<noteq> Inl account_locked"
    using login_unlocked [OF assms, of cfg cy fr now email pw]
    by (auto simp: get_db_def split: prod.splits sum.splits)
qed

type_synonym attempt = "fresh \<times> timestamp \<times> string \<times> string"

definition try_login :: "settings \<Rightarrow> crypto \<Rightarrow> db \<Rightarrow> attempt \<Rightarrow> db" where
  "try_login cfg cy d a = (case a of (fr, now, email, pw) \<Rightarrow> snd (get_db (login cfg cy fr now email pw) d))"

interpretation lockout: guarded_steps "try_login cfg cy" no_lock for cfg cy
  by unfold_locales (auto simp: try_login_def login_no_lock split: prod.split)

text \<open>
  The lockout never engages: a failed login raises, so the session is rolled back with the
  counter it incremented. A failing login leaves the database as it was; and after any number of
  attempts on any accounts, starting with no account locked, no account is locked and no login
  is refused for a lockout, however many attempts failed.
\<close>

theorem lockout_never_engages:
  assumes "no_lock d"
  shows "(\<forall>fr now email pw e. fst (get_db (login cfg cy fr now email pw) d) = Inl e \<longrightarrow>
            snd (get_db (login cfg cy fr now email pw) d) = d) \<and>
         no_lock (foldl (try_login cfg cy) d attempts) \<and>
         fst (get_db (login cfg cy fr now email pw) (foldl (try_login cfg cy) d attempts))
           \<noteq> Inl account_locked"
proof (intro conjI allI impI)
  show "no_lock (foldl (try_login cfg cy) d attempts)" by (rule lockout.run_inv [OF assms])
  then show "fst (get_db (login cfg cy fr now email pw) (foldl (try_login cfg cy) d attempts))
      \<noteq> Inl account_locked"
    by (rule login_no_lock(2))
  fix fr now email pw e
  assume "fst (get_db (login cfg cy fr now email pw) d) = Inl e"
  then show "snd (get_db (login cfg cy fr now email pw) d) = d" by (rule get_db_clean [OF clean_auth_ops(3)])
qed

lemma lockout_never_engages_witness:
  "no_lock (foldl (try_login default_settings demo_crypto) empty_db
     (replicate 20 (demo_fresh 1 ''r'', 0, ''a@b.c'', ''guess'')))"
  using lockout_never_engages [of empty_db default_settings demo_crypto
      "replicate 20 (demo_fresh 1 ''r'', 0, ''a@b.c'', ''guess'')"]
  by (simp add: no_lock_def empty_db_def)

subsection \<open>Registration\<close>

definition admin_member :: "fresh \<Rightarrow> member" where
  "admin_member fr =
     \<lparr>m_organization_id = fr_org fr, m_workspace_id = fr_ws fr, m_user_id = fr_user fr,
      m_role = role_value Admin, m_invited_email = None, m_invite_accepted = True\<rparr>"

definition first_token :: "settings \<Rightarrow> crypto \<Rightarrow> fresh \<Rightarrow> timestamp \<Rightarrow> uuid \<Rightarrow> uuid \<Rightarrow> refresh_token" where
  "first_token cfg cy fr now uid wid =
     \<lparr>rt_user_id = uid, rt_workspace_id = wid, rt_token_hash = sha256_hex cy (fr_refresh fr),
      rt_expires_at = now + days (refresh_token_expire_days cfg), rt_revoked_at = None\<rparr>"

lemma finish_session_run:
  "finish_session cfg cy fr now u w role org s =
     (case add_refresh_token (first_token cfg cy fr now (u_id u) (w_id w)) (working s) of
        Inl e \<Rightarrow> (Inl e, s)
      | Inr d \<Rightarrow>
          (map_sum id (\<lambda>response. \<lparr>ar_response = response, ar_refresh_token = fr_refresh fr\<rparr>)
             (build_response (create_access_token cfg cy (str_uuid (u_id u)) (str_uuid (w_id w)) role
                (fr_jti fr) now) u w role org), s\<lparr>working := d\<rparr>))"
  by (auto simp: finish_session_def issue_tokens_def generate_refresh_token_def first_token_def tx_simps
      split: sum.split)

lemma register_effect:
  assumes "get_db (register cfg cy fr now full_name email org pw) d = (Inr res, d')"
  shows "\<exists>slug. d' = d\<lparr>
           organizations := organizations d @ [\<lparr>o_id = fr_org fr, o_name = org, o_slug = slug\<rparr>],
           workspaces := workspaces d @ [default_workspace (fr_ws fr) (fr_org fr) org],
           users := users d @ [new_user (fr_user fr) (py_lower email) full_name
                      (hash_password cy (fr_salt fr) pw) (Some now)],
           members := members d @ [admin_member fr],
           refresh_tokens := refresh_tokens d @ [first_token cfg cy fr now (fr_user fr) (fr_ws fr)]\<rparr>"
    and "fr_org fr \<notin> o_id ` set (organizations d)" and "fr_ws fr \<notin> w_id ` set (workspaces d)"
    and "fr_user fr \<notin> u_id ` set (users d)" and "py_lower email \<notin> u_email ` set (users d)"
proof -
  let ?org = "\<lparr>o_id = fr_org fr, o_name = org, o_slug = slugify org (fr_slug fr)\<rparr>"
  let ?w = "default_workspace (fr_ws fr) (fr_org fr) org"
  let ?u = "new_user (fr_user fr) (py_lower email) full_name (hash_password cy (fr_salt fr) pw) (Some now)"
  let ?t = "first_token cfg cy fr now (fr_user fr) (fr_ws fr)"
  have ids: "u_id ?u = fr_user fr" "w_id ?w = fr_ws fr" "u_email ?u = py_lower email"
    by (simp_all add: new_user_def default_workspace_def)
  obtain s where run: "register cfg cy fr now full_name email org pw (open_session d) = (Inr res, s)"
    and d': "d' = working s"
    using assms by (auto simp: get_db_Inr)
  obtain d1 d2 d3 d4 where
    adds: "add_organization ?org d = Inr d1" "add_workspace ?w d1 = Inr d2" "add_user ?u d2 = Inr d3"
      "add_member (admin_member fr) d3 = Inr d4" "add_refresh_token ?t d4 = Inr (working s)"
    using run unfolding register_def Let_def admin_member_def
    by (auto simp: tx_simps finish_session_run ids split: sum.splits if_splits)
  note eff = add_cases(1) [OF adds(1)] add_cases(2) [OF adds(2)] add_cases(3) [OF adds(3)]
    add_cases(4) [OF adds(4)] add_cases(5) [OF adds(5)]
  show "fr_org fr \<notin> o_id ` set (organizations d)" "fr_ws fr \<notin> w_id ` set (workspaces d)"
    "fr_user fr \<notin> u_id ` set (users d)" "py_lower email \<notin> u_email ` set (users d)"
    using eff ids by simp_all
  have "working s = d\<lparr>organizations := organizations d @ [?org], workspaces := workspaces d @ [?w],
      users := users d @ [?u], members := members d @ [admin_member fr],
      refresh_tokens := refresh_tokens d @ [?t]\<rparr>"
    using eff by simp
  then show "\<exists>slug. d' = d\<lparr>
           organizations := organizations d @ [\<lparr>o_id = fr_org fr, o_name = org, o_slug = slug\<rparr>],
           workspaces := workspaces d @ [?w], users := users d @ [?u], members := members d @ [admin_member fr],
           refresh_tokens := refresh_tokens d @ [?t]\<rparr>"
    unfolding d' by blast
qed

lemma get_by_append: "get_by key k (xs @ ys) = (case get_by key k xs of None \<Rightarrow> get_by key k ys | Some r \<Rightarrow> Some r)"
  by (induction xs) simp_all

lemma get_by_new: "k \<notin> key ` set xs \<Longrightarrow> get_by key k (xs @ ys) = get_by key k ys"
proof -
  assume "k \<notin> key ` set xs"
  then have "get_by key k xs = None" using get_by_None [of key k xs] by auto
  then show ?thesis by (simp add: get_by_append)
qed

lemma filter_new: "k \<notin> key ` set xs \<Longrightarrow> filter (\<lambda>x. key x = k) xs = []"
  by (auto simp: filter_empty_conv)

lemma new_user_simps [simp]:
  "u_id (new_user uid em nm h t) = uid" "u_email (new_user uid em nm h t) = em"
  "u_password_hash (new_user uid em nm h t) = h" "u_is_active (new_user uid em nm h t)"
  "u_lockout_until (new_user uid em nm h t) = None" "u_full_name (new_user uid em nm h t) = nm"
  by (simp_all add: new_user_def)

text \<open>A user whose only membership, workspace and organization are known gets a session.\<close>

lemma session_for_run:
  assumes "filter (\<lambda>m. m_user_id m = u_id u) (members (working s)) = m # ms"
    and "get_by w_id (m_workspace_id m) (workspaces (working s)) = Some w"
    and "get_by o_id (w_organization_id w) (organizations (working s)) = Some org"
  shows "session_for cfg cy fr now u s = finish_session cfg cy fr now u w (m_role m) (o_name org) s"
  using assms by (simp add: session_for_def membership_def resolve_workspace_org_def tx_simps)

lemma add_login_token:
  assumes "sha256_hex cy (fr_refresh fr) \<notin> rt_token_hash ` set (refresh_tokens d)"
    and "uid \<in> u_id ` set (users d)" and "ws \<in> w_id ` set (workspaces d)"
  shows "add_refresh_token (first_token cfg cy fr now uid ws) (update_user uid (pass_login now) d)
    = Inr ((update_user uid (pass_login now) d)\<lparr>refresh_tokens := refresh_tokens d @ [first_token cfg cy fr now uid ws]\<rparr>)"
proof -
  let ?d = "update_user uid (pass_login now) d"
  have "u_id ` set (users ?d) = u_id ` set (users d)"
    using set_rows_image [of u_id "pass_login now" "\<lambda>u. u_id u = uid" "users d"] by (simp add: update_user_def)
  then have "get_by u_id uid (users ?d) \<noteq> None" using assms(2) unfolding get_by_mem by simp
  moreover have "get_by w_id ws (workspaces ?d) \<noteq> None" using assms(3) unfolding get_by_mem by (simp add: update_user_def)
  moreover have "get_by rt_token_hash (sha256_hex cy (fr_refresh fr)) (refresh_tokens ?d) = None"
    using assms(1) by (simp add: update_user_def get_by_None) (metis imageI)
  ultimately show ?thesis by (simp add: add_refresh_token_def first_token_def update_user_def)
qed

lemma registered_login:
  assumes "crypto_laws cy" and "accounts_ok d"
    and "get_db (register cfg cy fr now full_name email org pw) d = (Inr res, d1)"
    and "py_lower email2 = py_lower email"
  defines "u \<equiv> new_user (fr_user fr) (py_lower email) full_name (hash_password cy (fr_salt fr) pw) (Some now)"
    and "w \<equiv> default_workspace (fr_ws fr) (fr_org fr) org"
  shows "filter (\<lambda>u. u_email u = py_lower email2) (users d1) = [u]"
    and "fr_user fr \<in> u_id ` set (users d1)" and "fr_ws fr \<in> w_id ` set (workspaces d1)"
    and "login cfg cy fr2 now2 email2 pw (open_session d1)
      = finish_session cfg cy fr2 now2 (pass_login now2 u) w ''admin'' org
          ((open_session d1)\<lparr>working := update_user (fr_user fr) (pass_login now2) d1\<rparr>)"
proof -
  let ?u = "new_user (fr_user fr) (py_lower email) full_name (hash_password cy (fr_salt fr) pw) (Some now)"
  let ?w = "default_workspace (fr_ws fr) (fr_org fr) org"
  note eff = register_effect [OF assms(3)]
  obtain slug where d1: "d1 = d\<lparr>
      organizations := organizations d @ [\<lparr>o_id = fr_org fr, o_name = org, o_slug = slug\<rparr>],
      workspaces := workspaces d @ [?w], users := users d @ [?u], members := members d @ [admin_member fr],
      refresh_tokens := refresh_tokens d @ [first_token cfg cy fr now (fr_user fr) (fr_ws fr)]\<rparr>"
    using eff(1) by blast
  have found: "filter (\<lambda>u. u_email u = py_lower email2) (users d1) = [?u]"
    using filter_new [OF eff(5)] assms(4) by (simp add: d1)
  have "m_user_id m \<noteq> fr_user fr" if "m \<in> set (members d)" for m
    using that assms(2) eff(4) unfolding accounts_ok_def by metis
  then have old: "filter (\<lambda>m. m_user_id m = fr_user fr) (members d) = []"
    by (simp add: filter_empty_conv)
  let ?s = "(open_session d1)\<lparr>working := update_user (fr_user fr) (pass_login now2) d1\<rparr>"
  have ses: "session_for cfg cy fr2 now2 (pass_login now2 ?u) ?s
      = finish_session cfg cy fr2 now2 (pass_login now2 ?u) ?w ''admin'' org ?s"
    using session_for_run [of "pass_login now2 ?u" ?s "admin_member fr" "[]" ?w
        "\<lparr>o_id = fr_org fr, o_name = org, o_slug = slug\<rparr>" cfg cy fr2 now2]
      old get_by_new [OF eff(3)] get_by_new [OF eff(2)]
    by (simp add: update_user_def d1 admin_member_def default_workspace_def)
  show "fr_user fr \<in> u_id ` set (users d1)" "fr_ws fr \<in> w_id ` set (workspaces d1)"
    by (simp_all add: d1 default_workspace_def new_user_def)
  show "filter (\<lambda>u. u_email u = py_lower email2) (users d1) = [u]" unfolding u_def by (rule found)
  show "login cfg cy fr2 now2 email2 pw (open_session d1)
      = finish_session cfg cy fr2 now2 (pass_login now2 u) w ''admin'' org ?s"
    unfolding u_def w_def
    using found ses verify_hash [OF assms(1)]
    by (simp add: login_def tx_simps locked_def)
qed


definition demo_token_db :: db where
  "demo_token_db = snd (get_db (register default_settings demo_crypto (demo_fresh 1 ''r1'') 0
     ''Ann'' ''a@b.c'' ''Org'' ''long password'') empty_db)"

lemma register_run:
  assumes "filter (\<lambda>u. u_email u = py_lower email) (users (working s)) = []"
    and "add_organization \<lparr>o_id = fr_org fr, o_name = org, o_slug = slugify org (fr_slug fr)\<rparr> (working s) = Inr d1"
    and "add_workspace (default_workspace (fr_ws fr) (fr_org fr) org) d1 = Inr d2"
    and "add_user u d2 = Inr d3"
    and "u = new_user (fr_user fr) (py_lower email) full_name (hash_password cy (fr_salt fr) pw) (Some now)"
    and "add_member (admin_member fr) d3 = Inr d4"
  shows "register cfg cy fr now full_name email org pw s
     = finish_session cfg cy fr now u (default_workspace (fr_ws fr) (fr_org fr) org) ''admin'' org (s\<lparr>working := d4\<rparr>)"
  using assms by (simp add: register_def Let_def tx_simps admin_member_def)

lemma demo_register:
  "\<exists>res. get_db (register default_settings demo_crypto (demo_fresh 1 ''r1'') 0
       ''Ann'' ''a@b.c'' ''Org'' ''long password'') empty_db = (Inr res, demo_token_db)"
proof -
  let ?fr = "demo_fresh 1 ''r1''"
  let ?u = "new_user 1 (py_lower ''a@b.c'') ''Ann'' (hash_password demo_crypto ''salt'' ''long password'') (Some 0)"
  let ?org = "\<lparr>o_id = fr_org ?fr, o_name = ''Org'', o_slug = slugify ''Org'' (fr_slug ?fr)\<rparr>"
  let ?w = "default_workspace (fr_ws ?fr) (fr_org ?fr) ''Org''"
  let ?d1 = "empty_db\<lparr>organizations := [?org]\<rparr>"
  let ?d2 = "?d1\<lparr>workspaces := [?w]\<rparr>"
  let ?d3 = "?d2\<lparr>users := [?u]\<rparr>"
  let ?d4 = "?d3\<lparr>members := [admin_member ?fr]\<rparr>"
  have "register default_settings demo_crypto ?fr 0 ''Ann'' ''a@b.c'' ''Org'' ''long password'' (open_session empty_db)
      = finish_session default_settings demo_crypto ?fr 0 ?u ?w ''admin'' ''Org'' ((open_session empty_db)\<lparr>working := ?d4\<rparr>)"
    by (rule register_run [where ?d1.0 = ?d1 and ?d2.0 = ?d2 and ?d3.0 = ?d3])
       (simp_all add: empty_db_def add_organization_def add_workspace_def add_user_def add_member_def
         demo_fresh_def admin_member_def default_workspace_def)
  moreover have "add_refresh_token t ?d4 = Inr (?d4\<lparr>refresh_tokens := [t]\<rparr>)"
    if "rt_user_id t = 1" "rt_workspace_id t = 1" for t
    using that by (simp add: add_refresh_token_def empty_db_def demo_fresh_def default_workspace_def)
  ultimately have "\<exists>res d. get_db (register default_settings demo_crypto ?fr 0
       ''Ann'' ''a@b.c'' ''Org'' ''long password'') empty_db = (Inr res, d)"
    by (simp add: get_db_def finish_session_run first_token_def default_workspace_def demo_fresh_def
        build_response_def make_user_out_def role_of_def)
  then show ?thesis unfolding demo_token_db_def by (metis snd_conv)
qed

lemma demo_token_rows:
  "refresh_tokens demo_token_db = [first_token default_settings demo_crypto (demo_fresh 1 ''r1'') 0 1 1]"
proof -
  obtain res where "get_db (register default_settings demo_crypto (demo_fresh 1 ''r1'') 0
       ''Ann'' ''a@b.c'' ''Org'' ''long password'') empty_db = (Inr res, demo_token_db)"
    using demo_register by blast
  from arg_cong [OF someI_ex [OF register_effect(1) [OF this]], of refresh_tokens] show ?thesis
    by (simp add: empty_db_def demo_fresh_def)
qed

lemma empty_accounts_ok: "accounts_ok empty_db"
  by (simp add: accounts_ok_def empty_db_def)

lemma demo_accounts_ok: "accounts_ok demo_token_db"
  unfolding demo_token_db_def by (rule get_db_keeps [OF accounts_auth_ops(1) empty_accounts_ok])


subsection \<open>Refresh rotation\<close>

definition dead_token :: "string \<Rightarrow> db \<Rightarrow> bool" where
  "dead_token h d \<longleftrightarrow> h \<in> rt_token_hash ` set (refresh_tokens d) \<and>
     (\<forall>t \<in> set (refresh_tokens d). rt_token_hash t = h \<longrightarrow> rt_revoked_at t \<noteq> None)"

definition session_invalid :: exn where
  "session_invalid = raise_code UnauthorizedError ''Invalid or expired session'' ''UNAUTHENTICATED''"

lemma dead_revoke [inv_intros]: "tx_keeps (dead_token h) (tx_modify (revoke_token h' now))"
proof (rule tx_keeps_modify)
  fix d
  let ?P = "\<lambda>t. rt_token_hash t = h'" and ?f = "\<lambda>t. t\<lparr>rt_revoked_at := Some now\<rparr>"
  assume "dead_token h d"
  moreover have "rt_token_hash ` set (set_rows ?P ?f (refresh_tokens d)) = rt_token_hash ` set (refresh_tokens d)"
    using arg_cong [OF set_rows_key [of rt_token_hash ?f ?P "refresh_tokens d"], of set] by simp
  ultimately show "dead_token h (revoke_token h' now d)"
    by (auto simp: dead_token_def revoke_token_def set_rows_def)
qed

lemma dead_add_token [inv_intros]: "tx_keeps (dead_token h) (tx_update (add_refresh_token t))"
  by (rule tx_keeps_update, drule add_cases(5)) (auto simp: dead_token_def)

lemma dead_other_rows [inv_intros]:
  "tx_keeps (dead_token h) (tx_update (add_organization org))"
  "tx_keeps (dead_token h) (tx_update (add_workspace w))"
  "tx_keeps (dead_token h) (tx_update (add_user u))"
  "tx_keeps (dead_token h) (tx_update (add_member m))"
  "tx_keeps (dead_token h) (tx_modify (update_user uid f))"
  by (rule tx_keeps_update, drule add_cases(1), simp add: dead_token_def)
     (rule tx_keeps_update, drule add_cases(2), simp add: dead_token_def,
      rule tx_keeps_update, drule add_cases(3), simp add: dead_token_def,
      rule tx_keeps_update, drule add_cases(4), simp add: dead_token_def,
      rule tx_keeps_modify, simp add: dead_token_def update_user_def)

lemma dead_auth_ops [inv_intros]:
  "tx_keeps (dead_token h) (session_for cfg cy fr now u)"
  "tx_keeps (dead_token h) (register cfg cy fr now full_name email org pw)"
  "tx_keeps (dead_token h) (login cfg cy fr now email pw)"
  "tx_keeps (dead_token h) (refresh cfg cy fr now raw)"
  "tx_keeps (dead_token h) (logout cy now raw_opt)"
  unfolding session_for_def finish_session_def issue_tokens_def generate_refresh_token_def
    membership_def resolve_workspace_org_def register_def login_def refresh_def logout_def Let_def prod.case
  by (intro inv_intros)+

lemma dead_session: "tx_works (dead_token h) (session_for cfg cy fr now u)"
proof -
  have upd: "tx_works (dead_token h) (tx_update (add_refresh_token t))" for t
    by (rule tx_works_update, drule add_cases(5)) (auto simp: dead_token_def)
  show ?thesis
    unfolding session_for_def finish_session_def issue_tokens_def generate_refresh_token_def
      membership_def resolve_workspace_org_def Let_def prod.case
    by (intro inv_intros upd)
qed

lemma filter_unique:
  "distinct (map key xs) \<Longrightarrow> x \<in> set xs \<Longrightarrow> filter (\<lambda>y. key y = key x) xs = [x]"
proof (induction xs)
  case (Cons y ys)
  show ?case
  proof (cases "x = y")
    case True
    then have "filter (\<lambda>y. key y = key x) ys = []" using Cons.prems(1) filter_new [of "key x" key ys] by simp
    then show ?thesis using True by simp
  next
    case False
    then have "x \<in> set ys" using Cons.prems(2) by simp
    moreover have "key y \<noteq> key x" using Cons.prems(1) calculation by (metis distinct.simps(2) image_eqI list.simps(9) list.set_map)
    ultimately show ?thesis using Cons by simp
  qed
qed simp

lemma dead_token_rejected:
  assumes "dead_token (sha256_hex cy raw) d" and "accounts_ok d"
  shows "get_db (refresh cfg cy fr now raw) d = (Inl session_invalid, d)"
proof -
  obtain t where t: "t \<in> set (refresh_tokens d)" "rt_token_hash t = sha256_hex cy raw" "rt_revoked_at t \<noteq> None"
    using assms(1) by (auto simp: dead_token_def)
  have "distinct (map rt_token_hash (refresh_tokens d))" using assms(2) by (simp add: accounts_ok_def)
  from filter_unique [OF this t(1)] t(2)
  have "filter (\<lambda>t. rt_token_hash t = sha256_hex cy raw) (refresh_tokens d) = [t]" by simp
  then show ?thesis using t(3) by (simp add: get_db_Inl refresh_def tx_simps session_invalid_def)
qed

text \<open>A refresh that succeeds, and a logout of a stored token, leave the token dead.\<close>

lemma revoke_dead:
  "h \<in> rt_token_hash ` set (refresh_tokens d) \<Longrightarrow> dead_token h (revoke_token h now d)"
proof -
  let ?P = "\<lambda>t. rt_token_hash t = h" and ?f = "\<lambda>t. t\<lparr>rt_revoked_at := Some now\<rparr>"
  assume "h \<in> rt_token_hash ` set (refresh_tokens d)"
  moreover have "rt_token_hash ` set (set_rows ?P ?f (refresh_tokens d)) = rt_token_hash ` set (refresh_tokens d)"
    using arg_cong [OF set_rows_key [of rt_token_hash ?f ?P "refresh_tokens d"], of set] by simp
  ultimately show ?thesis by (auto simp: dead_token_def revoke_token_def set_rows_def)
qed

lemma refresh_success:
  assumes "get_db (refresh cfg cy fr now raw) d = (Inr res, d')"
  obtains t where "t \<in> set (refresh_tokens d)" "rt_token_hash t = sha256_hex cy raw" "rt_revoked_at t = None"
    "now \<le> rt_expires_at t" "dead_token (sha256_hex cy raw) d'"
proof -
  obtain s where run: "refresh cfg cy fr now raw (open_session d) = (Inr res, s)" and d': "d' = working s"
    using assms by (auto simp: get_db_Inr)
  obtain t u where t: "one_or_none (filter (\<lambda>t. rt_token_hash t = sha256_hex cy raw) (refresh_tokens d)) = Inr (Some t)"
    and ok: "rt_revoked_at t = None" "\<not> rt_expires_at t < now"
    and ses: "session_for cfg cy fr now u ((open_session d)\<lparr>working := revoke_token (rt_token_hash t) now d\<rparr>) = (Inr res, s)"
    using run unfolding refresh_def by (auto simp: tx_simps split: sum.splits option.splits if_splits)
  have mem: "t \<in> set (refresh_tokens d)" "rt_token_hash t = sha256_hex cy raw" using one_or_none_mem [OF t] by simp_all
  then have dead: "dead_token (sha256_hex cy raw) (revoke_token (rt_token_hash t) now d)"
    by (metis imageI revoke_dead)
  have "tx_works (dead_token (sha256_hex cy raw)) (session_for cfg cy fr now u)" by (rule dead_session)
  then have "dead_token (sha256_hex cy raw) (working (snd
      (session_for cfg cy fr now u ((open_session d)\<lparr>working := revoke_token (rt_token_hash t) now d\<rparr>))))"
    unfolding tx_works_def using dead by simp
  then have "dead_token (sha256_hex cy raw) (working s)" unfolding ses snd_conv .
  then show thesis using that [OF mem ok(1)] ok(2) d' by simp
qed

end
