(* ===== verification/Accounts.thy ===== *)
theory Accounts
  imports Auth
begin

text \<open>
  User management (\<^verbatim>\<open>app/services/user_service.py\<close>) and the runs of all account operations. An
  operation that reads, decides and then writes is split into its plan (what the reads decide, and
  the write it will do) and the write itself, so that two requests can also be interleaved.
\<close>

fun res_map :: "('a \<Rightarrow> exn + 'b) \<Rightarrow> 'a list \<Rightarrow> exn + 'b list" where
  "res_map f [] = Inr []"
| "res_map f (x # xs) =
     (case f x of Inl e \<Rightarrow> Inl e | Inr y \<Rightarrow> map_sum id (\<lambda>ys. y # ys) (res_map f xs))"

definition list_users :: "uuid \<Rightarrow> user_out list db_tx" where
  "list_users workspace_id =
     tx_query (\<lambda>d. res_map (\<lambda>(u, m). make_user_out u (m_role m))
       (concat (map (\<lambda>u. map (\<lambda>m. (u, m))
          (filter (\<lambda>m. m_user_id m = u_id u \<and> m_workspace_id m = workspace_id) (members d))) (users d))))"

definition members_in_workspace :: "uuid \<Rightarrow> db \<Rightarrow> member list" where
  "members_in_workspace workspace_id d = filter (\<lambda>m. m_workspace_id m = workspace_id) (members d)"

definition admins :: "uuid \<Rightarrow> db \<Rightarrow> member list" where
  "admins workspace_id d = filter (\<lambda>m. m_role m = role_value Admin) (members_in_workspace workspace_id d)"

definition find_member :: "uuid \<Rightarrow> uuid \<Rightarrow> db \<Rightarrow> exn + member option" where
  "find_member workspace_id user_id d =
     one_or_none (filter (\<lambda>m. m_workspace_id m = workspace_id \<and> m_user_id m = user_id) (members d))"

text \<open>\<open>random_pw\<close> is \<open>secrets.token_urlsafe(24)\<close>.\<close>

definition invite ::
    "crypto \<Rightarrow> uuid \<Rightarrow> string \<Rightarrow> string \<Rightarrow> uuid \<Rightarrow> string \<Rightarrow> role \<Rightarrow> user_out db_tx" where
  "invite cy new_id salt random_pw workspace_id email0 role =
     tx_bind (tx_read (\<lambda>d. get_by w_id workspace_id (workspaces d))) (\<lambda>w.
     case w of
       None \<Rightarrow> tx_raise (raise_app NotFoundError ''Workspace not found'')
     | Some w \<Rightarrow>
         let email = py_lower email0;
             add = (\<lambda>u. tx_seq (tx_update (add_member
                 \<lparr>m_organization_id = w_organization_id w, m_workspace_id = workspace_id, m_user_id = u_id u,
                  m_role = role_value role, m_invited_email = Some email, m_invite_accepted = False\<rparr>))
               (tx_seq tx_commit (tx_lift (make_user_out u (role_value role)))))
         in tx_bind (tx_query (\<lambda>d. one_or_none (filter (\<lambda>u. u_email u = email) (users d)))) (\<lambda>existing.
            case existing of
              Some u \<Rightarrow>
                tx_bind (tx_query (find_member workspace_id (u_id u))) (\<lambda>m.
                if m \<noteq> None then tx_raise (raise_app ConflictError ''User is already a member of this workspace'')
                else add u)
            | None \<Rightarrow>
                let u = new_user new_id email (hd (py_split ''@'' email)) (hash_password cy salt random_pw) None
                in tx_seq (tx_update (add_user u)) (add u)))"

definition set_role :: "uuid \<Rightarrow> uuid \<Rightarrow> role \<Rightarrow> db \<Rightarrow> db" where
  "set_role workspace_id user_id role d =
     d\<lparr>members := set_rows (\<lambda>m. m_workspace_id m = workspace_id \<and> m_user_id m = user_id)
         (\<lambda>m. m\<lparr>m_role := role_value role\<rparr>) (members d)\<rparr>"

definition drop_member :: "uuid \<Rightarrow> uuid \<Rightarrow> db \<Rightarrow> db" where
  "drop_member workspace_id user_id d =
     d\<lparr>members := filter (\<lambda>m. \<not> (m_workspace_id m = workspace_id \<and> m_user_id m = user_id)) (members d)\<rparr>"

definition plan_change_role :: "uuid \<Rightarrow> uuid \<Rightarrow> role \<Rightarrow> db \<Rightarrow> exn + (db \<Rightarrow> db)" where
  "plan_change_role workspace_id user_id role d =
     (case find_member workspace_id user_id d of
        Inl e \<Rightarrow> Inl e
      | Inr None \<Rightarrow> Inl (raise_app NotFoundError ''User not found in workspace'')
      | Inr (Some m) \<Rightarrow>
          if m_role m = role_value Admin \<and> role \<noteq> Admin \<and> length (admins workspace_id d) \<le> 1
          then Inl (raise_app LastAdminError ''You cannot demote the last Admin in the workspace.'')
          else Inr (set_role workspace_id user_id role))"

definition change_role :: "uuid \<Rightarrow> uuid \<Rightarrow> role \<Rightarrow> user_out db_tx" where
  "change_role workspace_id user_id role =
     tx_bind (tx_query (plan_change_role workspace_id user_id role)) (\<lambda>w.
     tx_seq (tx_modify w)
     (tx_seq tx_commit
     (tx_bind (tx_read (\<lambda>d. get_by u_id user_id (users d))) (\<lambda>u.
      case u of
        None \<Rightarrow> tx_raise (raise_app NotFoundError ''User not found in workspace'')
      | Some u \<Rightarrow> tx_lift (make_user_out u (role_value role))))))"

definition plan_remove_user :: "uuid \<Rightarrow> uuid \<Rightarrow> db \<Rightarrow> exn + (db \<Rightarrow> db)" where
  "plan_remove_user workspace_id user_id d =
     (case find_member workspace_id user_id d of
        Inl e \<Rightarrow> Inl e
      | Inr None \<Rightarrow> Inl (raise_app NotFoundError ''User not found in workspace'')
      | Inr (Some m) \<Rightarrow>
          if m_role m = role_value Admin \<and> length (admins workspace_id d) \<le> 1
          then Inl (raise_app LastAdminError ''You cannot remove the last Admin in the workspace.'')
          else Inr (drop_member workspace_id user_id))"

definition remove_user :: "uuid \<Rightarrow> uuid \<Rightarrow> unit db_tx" where
  "remove_user workspace_id user_id =
     tx_bind (tx_query (plan_remove_user workspace_id user_id)) (\<lambda>w. tx_seq (tx_modify w) tx_commit)"

subsection \<open>Runs of account requests\<close>

datatype account_op =
    Register fresh timestamp string string string string
  | Login fresh timestamp string string
  | Refresh fresh timestamp string
  | Logout timestamp "string option"
  | Invite uuid string string uuid string role
  | ChangeRole uuid uuid role
  | RemoveUser uuid uuid

fun account_step :: "settings \<Rightarrow> crypto \<Rightarrow> db \<Rightarrow> account_op \<Rightarrow> db" where
  "account_step cfg cy d (Register fr now n e o' p) = snd (get_db (register cfg cy fr now n e o' p) d)"
| "account_step cfg cy d (Login fr now e p) = snd (get_db (login cfg cy fr now e p) d)"
| "account_step cfg cy d (Refresh fr now raw) = snd (get_db (refresh cfg cy fr now raw) d)"
| "account_step cfg cy d (Logout now raw) = snd (get_db (logout cy now raw) d)"
| "account_step cfg cy d (Invite uid salt pw ws e r) = snd (get_db (invite cy uid salt pw ws e r) d)"
| "account_step cfg cy d (ChangeRole ws uid r) = snd (get_db (change_role ws uid r) d)"
| "account_step cfg cy d (RemoveUser ws uid) = snd (get_db (remove_user ws uid) d)"

subsection \<open>The account tables stay consistent\<close>

lemma accounts_set_role: "accounts_ok d \<Longrightarrow> accounts_ok (set_role ws uid r d)"
proof -
  let ?P = "\<lambda>m. m_workspace_id m = ws \<and> m_user_id m = uid" and ?f = "\<lambda>m. m\<lparr>m_role := role_value r\<rparr>"
  assume ok: "accounts_ok d"
  have "map (\<lambda>m. (m_organization_id m, m_user_id m)) (set_rows ?P ?f (members d))
      = map (\<lambda>m. (m_organization_id m, m_user_id m)) (members d)"
    by (rule set_rows_key) simp
  moreover have "\<forall>m \<in> set (set_rows ?P ?f (members d)). m_user_id m \<in> u_id ` set (users d) \<and>
        m_workspace_id m \<in> w_id ` set (workspaces d) \<and>
        m_organization_id m \<in> o_id ` set (organizations d) \<and> valid_role (m_role m)"
    using ok valid_role_value [of r] by (auto simp: accounts_ok_def set_rows_def)
  ultimately show ?thesis using ok by (simp add: accounts_ok_def set_role_def)
qed

lemma accounts_drop_member: "accounts_ok d \<Longrightarrow> accounts_ok (drop_member ws uid d)"
  by (auto simp: accounts_ok_def drop_member_def distinct_map_filter)

lemma plan_change_role_Inr: "plan_change_role ws uid r d = Inr w \<Longrightarrow> w = set_role ws uid r"
  by (auto simp: plan_change_role_def split: sum.splits option.splits if_splits)

lemma plan_remove_user_Inr: "plan_remove_user ws uid d = Inr w \<Longrightarrow> w = drop_member ws uid"
  by (auto simp: plan_remove_user_def split: sum.splits option.splits if_splits)

text \<open>A planned write: what every write the plan may choose keeps, the operation keeps.\<close>

lemma tx_keeps_plan:
  assumes "\<And>d w. plan d = Inr w \<Longrightarrow> P d \<Longrightarrow> P (w d)" and "tx_keeps P k"
  shows "tx_keeps P (tx_bind (tx_query plan) (\<lambda>w. tx_seq (tx_modify w) k))"
  unfolding tx_keeps_def
proof (intro allI impI)
  fix s :: "'a session"
  assume s: "P (committed s)" "P (working s)"
  show "P (committed (snd (tx_bind (tx_query plan) (\<lambda>w. tx_seq (tx_modify w) k) s))) \<and>
        P (working (snd (tx_bind (tx_query plan) (\<lambda>w. tx_seq (tx_modify w) k) s)))"
  proof (cases "plan (working s)")
    case (Inl e)
    then show ?thesis using s by (simp add: tx_simps)
  next
    case (Inr w)
    then show ?thesis using s assms(1) [OF Inr] assms(2) by (simp add: tx_simps tx_keeps_def)
  qed
qed

lemma accounts_user_ops [inv_intros]:
  "tx_keeps accounts_ok (invite cy uid salt pw ws email r)"
  "tx_keeps accounts_ok (change_role ws uid r)"
  "tx_keeps accounts_ok (remove_user ws uid)"
proof -
  show "tx_keeps accounts_ok (invite cy uid salt pw ws email r)"
    unfolding invite_def Let_def
    by (intro inv_intros accounts_add_user accounts_add_member) simp_all
  show "tx_keeps accounts_ok (change_role ws uid r)"
    unfolding change_role_def
    by (rule tx_keeps_plan, drule plan_change_role_Inr, simp add: accounts_set_role, intro inv_intros)
  show "tx_keeps accounts_ok (remove_user ws uid)"
    unfolding remove_user_def
    by (rule tx_keeps_plan, drule plan_remove_user_Inr, simp add: accounts_drop_member, intro inv_intros)
qed

lemma account_step_ok: "accounts_ok d \<Longrightarrow> accounts_ok (account_step cfg cy d x)"
  by (cases x) (simp_all add: get_db_keeps accounts_auth_ops accounts_user_ops)

subsection \<open>Every workspace keeps an admin\<close>

definition has_admin :: "uuid \<Rightarrow> db \<Rightarrow> bool" where
  "has_admin ws d \<longleftrightarrow> admins ws d \<noteq> []"

definition all_admins :: "db \<Rightarrow> bool" where
  "all_admins d \<longleftrightarrow> (\<forall>w \<in> set (workspaces d). has_admin (w_id w) d)"

text \<open>
  Two lists of members agree on what matters to the guard if they have the same members and
  workspaces; adding a member or touching other tables never removes an admin.
\<close>

lemma all_admins_mono:
  assumes "all_admins d" and "workspaces d' = workspaces d" and "set (members d) \<subseteq> set (members d')"
  shows "all_admins d'"
  using assms unfolding all_admins_def has_admin_def admins_def members_in_workspace_def
  by (fastforce simp: filter_empty_conv)

lemma find_member_unique:
  assumes "find_member ws uid d = Inr (Some m)"
  shows "m \<in> set (members d)" "m_workspace_id m = ws" "m_user_id m = uid"
    "\<And>x. x \<in> set (members d) \<Longrightarrow> m_workspace_id x = ws \<Longrightarrow> m_user_id x = uid \<Longrightarrow> x = m"
proof -
  have one: "filter (\<lambda>m. m_workspace_id m = ws \<and> m_user_id m = uid) (members d) = [m]"
    using assms by (simp add: find_member_def one_or_none_Some)
  then have eq: "x \<in> set (members d) \<and> m_workspace_id x = ws \<and> m_user_id x = uid \<longleftrightarrow> x = m" for x
    by (metis (mono_tags, lifting) filter_set empty_iff list.set(1,2) mem_Collect_eq insert_iff set_filter)
  show "m \<in> set (members d)" "m_workspace_id m = ws" "m_user_id m = uid" using eq by blast+
  show "x = m" if "x \<in> set (members d)" "m_workspace_id x = ws" "m_user_id x = uid" for x
    using eq that by blast
qed

text \<open>When more than one admin is left, one of them is not the member at hand.\<close>

lemma other_admin:
  assumes "find_member ws uid d = Inr (Some m)" and "\<not> length (admins ws d) \<le> 1"
  obtains a where "a \<in> set (members d)" "m_workspace_id a = ws" "m_role a = role_value Admin" "m_user_id a \<noteq> uid"
proof -
  have one: "filter (\<lambda>m. m_workspace_id m = ws \<and> m_user_id m = uid) (members d) = [m]"
    using assms(1) by (simp add: find_member_def one_or_none_Some)
  have "\<exists>a \<in> set (admins ws d). m_user_id a \<noteq> uid"
  proof (rule ccontr)
    assume "\<not> ?thesis"
    then have "filter (\<lambda>m. m_user_id m = uid) (admins ws d) = admins ws d" by (simp add: filter_id_conv)
    moreover have "length (filter (\<lambda>m. m_user_id m = uid) (admins ws d))
        \<le> length (filter (\<lambda>m. m_workspace_id m = ws \<and> m_user_id m = uid) (members d))"
      by (auto simp: admins_def members_in_workspace_def intro: length_filter_mono)
    ultimately show False using assms(2) one by simp
  qed
  then show thesis using that by (auto simp: admins_def members_in_workspace_def)
qed

lemma plan_change_role_admins:
  assumes "plan_change_role ws uid r d = Inr w" and "all_admins d"
  shows "all_admins (w d)"
proof -
  obtain m where m: "find_member ws uid d = Inr (Some m)"
    and guard: "\<not> (m_role m = role_value Admin \<and> r \<noteq> Admin \<and> length (admins ws d) \<le> 1)"
    and w: "w = set_role ws uid r"
    using assms(1) by (auto simp: plan_change_role_def split: sum.splits option.splits if_splits)
  show ?thesis
    unfolding all_admins_def has_admin_def
  proof
    fix wk assume "wk \<in> set (workspaces (w d))"
    then have "has_admin (w_id wk) d" using assms(2) by (simp add: w set_role_def all_admins_def)
    then obtain a where a: "a \<in> set (members d)" "m_workspace_id a = w_id wk" "m_role a = role_value Admin"
      by (auto simp: has_admin_def admins_def members_in_workspace_def filter_empty_conv)
    have "\<exists>b \<in> set (members (w d)). m_workspace_id b = w_id wk \<and> m_role b = role_value Admin"
    proof (cases "m_workspace_id a = ws \<and> m_user_id a = uid \<and> r \<noteq> Admin")
      case False
      then show ?thesis using a by (force simp: w set_role_def set_rows_def)
    next
      case True
      then have "a = m" using find_member_unique(4) [OF m] a by blast
      then have "\<not> length (admins ws d) \<le> 1" using guard True a by blast
      then obtain b where "b \<in> set (members d)" "m_workspace_id b = ws" "m_role b = role_value Admin" "m_user_id b \<noteq> uid"
        using other_admin [OF m] by blast
      then show ?thesis using True a by (force simp: w set_role_def set_rows_def)
    qed
    then show "admins (w_id wk) (w d) \<noteq> []"
      by (auto simp: admins_def members_in_workspace_def filter_empty_conv)
  qed
qed

lemma plan_remove_user_admins:
  assumes "plan_remove_user ws uid d = Inr w" and "all_admins d"
  shows "all_admins (w d)"
proof -
  obtain m where m: "find_member ws uid d = Inr (Some m)"
    and guard: "\<not> (m_role m = role_value Admin \<and> length (admins ws d) \<le> 1)"
    and w: "w = drop_member ws uid"
    using assms(1) by (auto simp: plan_remove_user_def split: sum.splits option.splits if_splits)
  show ?thesis
    unfolding all_admins_def has_admin_def
  proof
    fix wk assume "wk \<in> set (workspaces (w d))"
    then have "has_admin (w_id wk) d" using assms(2) by (simp add: w drop_member_def all_admins_def)
    then obtain a where a: "a \<in> set (members d)" "m_workspace_id a = w_id wk" "m_role a = role_value Admin"
      by (auto simp: has_admin_def admins_def members_in_workspace_def filter_empty_conv)
    have "\<exists>b \<in> set (members (w d)). m_workspace_id b = w_id wk \<and> m_role b = role_value Admin"
    proof (cases "m_workspace_id a = ws \<and> m_user_id a = uid")
      case False
      then show ?thesis using a by (auto simp: w drop_member_def)
    next
      case True
      then have "a = m" using find_member_unique(4) [OF m] a by blast
      then have "\<not> length (admins ws d) \<le> 1" using guard a by blast
      then obtain b where "b \<in> set (members d)" "m_workspace_id b = ws" "m_role b = role_value Admin" "m_user_id b \<noteq> uid"
        using other_admin [OF m] by blast
      then show ?thesis using True a by (auto simp: w drop_member_def)
    qed
    then show "admins (w_id wk) (w d) \<noteq> []"
      by (auto simp: admins_def members_in_workspace_def filter_empty_conv)
  qed
qed

lemma frame_auth_ops:
  assumes "\<And>d rts. v (d\<lparr>refresh_tokens := rts\<rparr>) = v d" and "\<And>d us. v (d\<lparr>users := us\<rparr>) = v d"
  shows "tx_frame v (login cfg cy fr now email pw)" "tx_frame v (refresh cfg cy fr now raw)"
    "tx_frame v (logout cy now raw_opt)"
proof -
  have upd: "tx_frame v (tx_modify (update_user uid f))" "tx_frame v (tx_modify (revoke_token h now))" for uid f h
    by (rule tx_frame_modify, simp add: update_user_def assms(2),
        rule tx_frame_modify, simp add: revoke_token_def assms(1))
  note ses = session_frame [of v, OF assms(1)]
  show "tx_frame v (login cfg cy fr now email pw)" "tx_frame v (refresh cfg cy fr now raw)"
    "tx_frame v (logout cy now raw_opt)"
    unfolding login_def refresh_def logout_def by (intro inv_intros upd ses)+
qed

lemma clean_logout: "tx_clean (logout cy now raw_opt)"
  unfolding logout_def by (intro inv_intros)

lemma clean_frame_step:
  assumes "tx_clean m" and "tx_frame v m"
  shows "v (snd (get_db m d)) = v d"
proof -
  obtain r d' where run: "get_db m d = (r, d')" by fastforce
  show ?thesis
  proof (cases r)
    case (Inl e)
    then show ?thesis using get_db_clean [OF assms(1), of d e] run by simp
  next
    case (Inr x)
    then show ?thesis using get_db_frame [OF assms(2)] run by fastforce
  qed
qed

lemma register_admins:
  assumes "all_admins d"
  shows "all_admins (snd (get_db (register cfg cy fr now n e org pw) d))"
proof -
  obtain r d' where run: "get_db (register cfg cy fr now n e org pw) d = (r, d')" by fastforce
  show ?thesis
  proof (cases r)
    case (Inl err)
    then show ?thesis using get_db_clean [OF clean_auth_ops(2), of cfg cy fr now n e org pw d err] run assms by simp
  next
    case (Inr res)
    from run [unfolded Inr] have eff: "workspaces d' = workspaces d @ [default_workspace (fr_ws fr) (fr_org fr) org]"
      "members d' = members d @ [admin_member fr]"
      by (auto dest!: register_effect(1))
    have "all_admins (d'\<lparr>workspaces := workspaces d\<rparr>)"
      by (rule all_admins_mono [OF assms]) (auto simp: eff)
    then have "has_admin (w_id w) d'" if "w \<in> set (workspaces d)" for w
      using that by (simp add: all_admins_def has_admin_def admins_def members_in_workspace_def)
    moreover have "has_admin (fr_ws fr) d'"
      by (simp add: has_admin_def admins_def members_in_workspace_def eff admin_member_def)
    ultimately show ?thesis using run by (auto simp: all_admins_def eff default_workspace_def)
  qed
qed

lemma invite_admins: "tx_keeps all_admins (invite cy uid salt pw ws email r)"
proof -
  have "tx_keeps all_admins (tx_update (add_user u))" "tx_keeps all_admins (tx_update (add_member m))" for u m
    by (rule tx_keeps_update, drule add_cases(3), rule all_admins_mono, assumption, simp, simp,
        rule tx_keeps_update, drule add_cases(4), rule all_admins_mono, assumption, simp, auto)
  then show ?thesis unfolding invite_def Let_def by (intro inv_intros)
qed

lemma token_ops_admins:
  assumes "all_admins d"
  shows "all_admins (snd (get_db (login cfg cy fr now e pw) d))"
    "all_admins (snd (get_db (refresh cfg cy fr now raw) d))"
    "all_admins (snd (get_db (logout cy now raw_opt) d))"
proof -
  let ?v = "\<lambda>d. (workspaces d, members d)"
  have same: "all_admins d'" if "?v d' = ?v d" for d'
    by (rule all_admins_mono [OF assms]) (use that in auto)
  have fr: "?v (x\<lparr>refresh_tokens := rts\<rparr>) = ?v x" "?v (x\<lparr>users := us\<rparr>) = ?v x" for x rts us by simp_all
  note frame = frame_auth_ops [of ?v, OF fr]
  show "all_admins (snd (get_db (login cfg cy fr now e pw) d))"
    by (rule same, rule clean_frame_step [OF clean_auth_ops(3) frame(1)])
  show "all_admins (snd (get_db (refresh cfg cy fr now raw) d))"
    by (rule same, rule clean_frame_step [OF clean_auth_ops(4) frame(2)])
  show "all_admins (snd (get_db (logout cy now raw_opt) d))"
    by (rule same, rule clean_frame_step [OF clean_logout frame(3)])
qed

lemma account_step_admins: "all_admins d \<Longrightarrow> all_admins (account_step cfg cy d x)"
proof (cases x)
  case (ChangeRole ws uid r)
  assume "all_admins d"
  moreover have "tx_keeps all_admins (change_role ws uid r)"
    unfolding change_role_def by (rule tx_keeps_plan, erule (1) plan_change_role_admins, intro inv_intros)
  ultimately show ?thesis using ChangeRole by (simp add: get_db_keeps)
next
  case (RemoveUser ws uid)
  assume "all_admins d"
  moreover have "tx_keeps all_admins (remove_user ws uid)"
    unfolding remove_user_def by (rule tx_keeps_plan, erule (1) plan_remove_user_admins, intro inv_intros)
  ultimately show ?thesis using RemoveUser by (simp add: get_db_keeps)
next
  case (Invite uid salt pw ws email r)
  then show "all_admins d \<Longrightarrow> ?thesis" by (simp add: get_db_keeps invite_admins)
next
  case (Register fr now n e org pw)
  then show "all_admins d \<Longrightarrow> ?thesis" by (simp add: register_admins)
next
  case (Login fr now e pw)
  then show "all_admins d \<Longrightarrow> ?thesis" using token_ops_admins(1) by simp
next
  case (Refresh fr now raw)
  then show "all_admins d \<Longrightarrow> ?thesis" using token_ops_admins(2) by simp
next
  case (Logout now raw)
  then show "all_admins d \<Longrightarrow> ?thesis" using token_ops_admins(3) by simp
qed

interpretation accounts: guarded_steps "account_step cfg cy" "\<lambda>d. accounts_ok d \<and> all_admins d" for cfg cy
  by unfold_locales (simp add: account_step_ok account_step_admins)

text \<open>
  C15: No workspace loses its last admin: after any sequence of registrations, logins, refreshes,
  logouts, invitations, role changes and removals on an empty database, every workspace has an
  admin; and the tables are consistent: unique e-mail addresses in lower case, unique tokens, one
  membership per user and organization, every membership of an existing user, workspace and
  organization, with a valid role.
\<close>

theorem workspaces_keep_admin:
  "list_all (\<lambda>w. has_admin (w_id w) (foldl (account_step cfg cy) empty_db ops))
     (workspaces (foldl (account_step cfg cy) empty_db ops)) \<and>
   accounts_ok (foldl (account_step cfg cy) empty_db ops)"
proof -
  have "accounts_ok empty_db \<and> all_admins empty_db"
    using empty_accounts_ok by (simp add: all_admins_def empty_db_def)
  from accounts.run_inv [OF this, of cfg cy ops] show ?thesis
    by (simp add: list_all_iff all_admins_def)
qed

text \<open>
  The last-admin guard, on every branch: demoting or removing an admin is refused with
  \<open>LAST_ADMIN\<close> and changes nothing when it is the only one left; otherwise exactly that row changes.
\<close>

theorem last_admin_guard:
  assumes "find_member ws uid d = Inr (Some m)" and "m_role m = role_value Admin"
    and "get_by u_id uid (users d) = Some u"
  shows "get_db (remove_user ws uid) d
       = (if length (admins ws d) \<le> 1
          then (Inl (raise_app LastAdminError ''You cannot remove the last Admin in the workspace.''), d)
          else (Inr (), drop_member ws uid d)) \<and>
     get_db (change_role ws uid Standard) d
       = (if length (admins ws d) \<le> 1
          then (Inl (raise_app LastAdminError ''You cannot demote the last Admin in the workspace.''), d)
          else (make_user_out u (role_value Standard), set_role ws uid Standard d))"
proof
  show "get_db (remove_user ws uid) d
       = (if length (admins ws d) \<le> 1
          then (Inl (raise_app LastAdminError ''You cannot remove the last Admin in the workspace.''), d)
          else (Inr (), drop_member ws uid d))"
    using assms(1,2) by (simp add: get_db_def remove_user_def plan_remove_user_def tx_simps)
  have out: "\<exists>x. make_user_out u (role_value Standard) = Inr x"
    by (simp add: make_user_out_def role_of_def)
  have us: "users (set_role ws uid Standard d) = users d" by (simp add: set_role_def)
  show "get_db (change_role ws uid Standard) d
       = (if length (admins ws d) \<le> 1
          then (Inl (raise_app LastAdminError ''You cannot demote the last Admin in the workspace.''), d)
          else (make_user_out u (role_value Standard), set_role ws uid Standard d))"
    using assms out us by (auto simp: get_db_def change_role_def plan_change_role_def tx_simps)
qed

definition demo_user :: "uuid \<Rightarrow> user" where
  "demo_user n = new_user n (nat_digits (unat n)) ''Ann'' ''hash'' None"

definition demo_member :: "uuid \<Rightarrow> uuid \<Rightarrow> uuid \<Rightarrow> member" where
  "demo_member oid ws uid =
     \<lparr>m_organization_id = oid, m_workspace_id = ws, m_user_id = uid, m_role = ''admin'',
      m_invited_email = None, m_invite_accepted = True\<rparr>"

definition demo_two_admins :: db where
  "demo_two_admins = empty_db\<lparr>users := [demo_user 1, demo_user 2], members := [demo_member 5 7 1, demo_member 5 7 2]\<rparr>"

lemmas demo_admin_simps = demo_two_admins_def demo_member_def demo_user_def find_member_def admins_def
  members_in_workspace_def

lemma last_admin_guard_witness:
  "get_db (remove_user 7 1) demo_two_admins = (Inr (), drop_member 7 1 demo_two_admins)"
  using last_admin_guard [of 7 1 demo_two_admins "demo_member 5 7 1" "demo_user 1"]
  by (simp add: demo_admin_simps)

text \<open>The admins left when a member is demoted or removed.\<close>

lemma admins_after:
  "admins ws (set_role ws uid Standard d) = filter (\<lambda>m. m_user_id m \<noteq> uid) (admins ws d)"
  "admins ws (drop_member ws uid d) = filter (\<lambda>m. m_user_id m \<noteq> uid) (admins ws d)"
proof -
  have "filter (\<lambda>m. m_role m = ''admin'') (filter (\<lambda>m. m_workspace_id m = ws)
       (set_rows (\<lambda>m. m_workspace_id m = ws \<and> m_user_id m = uid) (\<lambda>m. m\<lparr>m_role := ''standard''\<rparr>) ms))
     = filter (\<lambda>m. m_user_id m \<noteq> uid) (filter (\<lambda>m. m_role m = ''admin'') (filter (\<lambda>m. m_workspace_id m = ws) ms))"
    for ms
    by (induction ms) (simp_all add: set_rows_def)
  then show "admins ws (set_role ws uid Standard d) = filter (\<lambda>m. m_user_id m \<noteq> uid) (admins ws d)"
    by (simp add: admins_def members_in_workspace_def set_role_def)
  show "admins ws (drop_member ws uid d) = filter (\<lambda>m. m_user_id m \<noteq> uid) (admins ws d)"
    by (auto simp: admins_def members_in_workspace_def drop_member_def intro: filter_cong)
qed

text \<open>
  The guard does not hold across concurrent requests: with exactly two admins, two requests
  that both read before either writes pass the guard, and the workspace is left without an admin,
  whether they demote or remove.
\<close>

theorem last_admin_race:
  assumes "admins ws d = [a, b]" and "m_user_id a \<noteq> m_user_id b"
    and "find_member ws (m_user_id a) d = Inr (Some a)" and "find_member ws (m_user_id b) d = Inr (Some b)"
  shows "plan_change_role ws (m_user_id a) Standard d = Inr (set_role ws (m_user_id a) Standard) \<and>
     plan_change_role ws (m_user_id b) Standard d = Inr (set_role ws (m_user_id b) Standard) \<and>
     \<not> has_admin ws (set_role ws (m_user_id b) Standard (set_role ws (m_user_id a) Standard d)) \<and>
     plan_remove_user ws (m_user_id a) d = Inr (drop_member ws (m_user_id a)) \<and>
     plan_remove_user ws (m_user_id b) d = Inr (drop_member ws (m_user_id b)) \<and>
     \<not> has_admin ws (drop_member ws (m_user_id b) (drop_member ws (m_user_id a) d))"
proof -
  have "admins ws (set_role ws (m_user_id b) Standard (set_role ws (m_user_id a) Standard d)) = []"
    "admins ws (drop_member ws (m_user_id b) (drop_member ws (m_user_id a) d)) = []"
    using assms(1) by (simp_all add: admins_after)
  then have "\<not> has_admin ws (set_role ws (m_user_id b) Standard (set_role ws (m_user_id a) Standard d))"
    "\<not> has_admin ws (drop_member ws (m_user_id b) (drop_member ws (m_user_id a) d))"
    by (simp_all add: has_admin_def)
  then show ?thesis
    using assms by (simp add: plan_change_role_def plan_remove_user_def)
qed

lemma last_admin_race_witness:
  "\<not> has_admin 7 (drop_member 7 2 (drop_member 7 1 demo_two_admins))"
  using last_admin_race [of 7 demo_two_admins "demo_member 5 7 1" "demo_member 5 7 2"]
  by (simp add: demo_admin_simps)

subsection \<open>Refresh tokens are used once\<close>

lemma dead_user_ops:
  "tx_keeps (dead_token h) (invite cy uid salt pw ws email r)"
  "tx_keeps (dead_token h) (change_role ws uid r)"
  "tx_keeps (dead_token h) (remove_user ws uid)"
proof -
  show "tx_keeps (dead_token h) (invite cy uid salt pw ws email r)"
    unfolding invite_def Let_def by (intro inv_intros)
  show "tx_keeps (dead_token h) (change_role ws uid r)"
    unfolding change_role_def
    by (rule tx_keeps_plan, drule plan_change_role_Inr, simp add: dead_token_def set_role_def, intro inv_intros)
  show "tx_keeps (dead_token h) (remove_user ws uid)"
    unfolding remove_user_def
    by (rule tx_keeps_plan, drule plan_remove_user_Inr, simp add: dead_token_def drop_member_def, intro inv_intros)
qed

lemma account_step_dead: "dead_token h d \<Longrightarrow> dead_token h (account_step cfg cy d x)"
  by (cases x) (simp_all add: get_db_keeps dead_auth_ops dead_user_ops)

interpretation revoked: guarded_steps "account_step cfg cy" "\<lambda>d. accounts_ok d \<and> dead_token h d" for cfg cy h
  by unfold_locales (simp add: account_step_ok account_step_dead)

lemma logout_dead:
  assumes "accounts_ok d" and "raw \<noteq> []" and "sha256_hex cy raw \<in> rt_token_hash ` set (refresh_tokens d)"
  shows "dead_token (sha256_hex cy raw) (snd (get_db (logout cy now (Some raw)) d))"
proof -
  obtain t where t: "t \<in> set (refresh_tokens d)" "rt_token_hash t = sha256_hex cy raw" using assms(3) by auto
  have "distinct (map rt_token_hash (refresh_tokens d))" using assms(1) by (simp add: accounts_ok_def)
  from filter_unique [OF this t(1)] t(2)
  have found: "filter (\<lambda>t. rt_token_hash t = sha256_hex cy raw) (refresh_tokens d) = [t]" by simp
  then have only: "x = t" if "x \<in> set (refresh_tokens d)" "rt_token_hash x = sha256_hex cy raw" for x
    using that by (metis (mono_tags, lifting) empty_iff empty_set filter_set list.simps(15) mem_Collect_eq set_ConsD set_filter)
  then have "rt_revoked_at t \<noteq> None \<Longrightarrow> dead_token (sha256_hex cy raw) d"
    using assms(3) by (auto simp: dead_token_def)
  then show ?thesis
    using found t(2) assms(2,3) revoke_dead
    by (cases "rt_revoked_at t") (simp_all add: logout_def get_db_def tx_simps)
qed

text \<open>
  C16: A refresh token works once, and not after a logout: once a refresh with it has succeeded, or
  it was stored and a logout has been answered, every later refresh with it is refused as an invalid
  session and changes nothing, whatever requests came in between.
\<close>

theorem refresh_token_single_use:
  assumes "accounts_ok d"
    and "(\<exists>res. get_db (refresh cfg cy fr now raw) d = (Inr res, d1)) \<or>
         (raw \<noteq> [] \<and> sha256_hex cy raw \<in> rt_token_hash ` set (refresh_tokens d) \<and>
          d1 = snd (get_db (logout cy now (Some raw)) d))"
  shows "get_db (refresh cfg cy fr2 now2 raw) (foldl (account_step cfg cy) d1 ops)
     = (Inl session_invalid, foldl (account_step cfg cy) d1 ops)"
proof -
  have "accounts_ok d1 \<and> dead_token (sha256_hex cy raw) d1"
    using assms(2)
  proof (elim disjE exE conjE)
    fix res assume run: "get_db (refresh cfg cy fr now raw) d = (Inr res, d1)"
    then have "accounts_ok d1" using get_db_keeps [OF accounts_auth_ops(3) assms(1), of cfg cy fr now raw] by simp
    moreover obtain t :: refresh_token where "dead_token (sha256_hex cy raw) d1" using run by (rule refresh_success)
    ultimately show ?thesis by simp
  next
    assume "raw \<noteq> []" "sha256_hex cy raw \<in> rt_token_hash ` set (refresh_tokens d)"
      "d1 = snd (get_db (logout cy now (Some raw)) d)"
    then show ?thesis using assms(1) logout_dead get_db_keeps [OF accounts_auth_ops(4)] by simp
  qed
  from revoked.run_inv [OF this, of cfg cy ops] show ?thesis by (simp add: dead_token_rejected)
qed

lemma refresh_token_single_use_witness:
  "fst (get_db (refresh default_settings demo_crypto (demo_fresh 3 ''r3'') 9 ''r1'')
     (snd (get_db (logout demo_crypto 7 (Some ''r1'')) demo_token_db))) = Inl session_invalid"
  using refresh_token_single_use [OF demo_accounts_ok disjI2, of "''r1''" demo_crypto
      "snd (get_db (logout demo_crypto 7 (Some ''r1'')) demo_token_db)" 7 default_settings "demo_fresh 3 ''r3''" 9 "[]"]
  by (simp add: demo_token_rows first_token_def demo_fresh_def)

end
