(* ===== verification/Deps.thy ===== *)
theory Deps
  imports Rate_Limit Accounts
begin

text \<open>
  Who is calling (\<^verbatim>\<open>app/core/deps.py\<close>, \<^verbatim>\<open>app/api/common.py\<close>): the principal of a request
  from its bearer token, an access token or a workspace API key. The API-key path talks to Redis,
  whose state is passed beside the session; \<open>env\<close> is the Redis client as in the rate limiter. The
  two readings of the clock on that path are one instant \<open>now\<close>.
\<close>

text \<open>\<open>p_role\<close> is the claim as it is, \<open>PNone\<close> when there is none.\<close>

record principal =
  p_workspace_id :: uuid
  p_user_id :: "uuid option"
  p_role :: pyval
  p_api_key_id :: "uuid option"
  p_scope :: "string option"

definition is_admin :: "principal \<Rightarrow> bool" where
  "is_admin p \<longleftrightarrow> p_role p = PStr (role_value Admin)"

definition can_write :: "principal \<Rightarrow> bool" where
  "can_write p \<longleftrightarrow> p_api_key_id p = None \<or> p_scope p = Some (scope_value ReadWrite)"

definition require_user :: "principal \<Rightarrow> exn + uuid" where
  "require_user p =
     (case p_user_id p of
        None \<Rightarrow> Inl (raise_app UnauthorizedError ''User authentication required'')
      | Some u \<Rightarrow> Inr u)"

definition bearer :: "string option \<Rightarrow> exn + string" where
  "bearer creds =
     (case creds of
        None \<Rightarrow> Inl (raise_app UnauthorizedError ''Missing bearer token'')
      | Some c \<Rightarrow> (if c = [] then Inl (raise_app UnauthorizedError ''Missing bearer token'')
                   else Inr (py_strip c)))"

text \<open>\<open>uuid.UUID(claims[k])\<close>\<close>

definition claim_uuid :: "string \<Rightarrow> claims \<Rightarrow> exn + uuid" where
  "claim_uuid k cl =
     (case map_of cl k of
        None \<Rightarrow> Inl (PyError ''KeyError'' k)
      | Some (PStr s) \<Rightarrow>
          (case parse_uuid s of
             None \<Rightarrow> Inl (PyError ''ValueError'' ''badly formed hexadecimal UUID string'')
           | Some u \<Rightarrow> Inr u)
      | Some PNone \<Rightarrow> Inl (PyError ''TypeError'' [])
      | Some _ \<Rightarrow> Inl (PyError ''AttributeError'' []))"

definition principal_from_jwt :: "settings \<Rightarrow> crypto \<Rightarrow> timestamp \<Rightarrow> string \<Rightarrow> principal db_tx" where
  "principal_from_jwt cfg cy now token =
     tx_bind (tx_lift (decode_access_token cfg cy token now)) (\<lambda>cl.
     tx_bind (tx_lift (claim_uuid ''sub'' cl)) (\<lambda>user_id.
     tx_bind (tx_read (\<lambda>d. get_by u_id user_id (users d))) (\<lambda>u.
     if (case u of None \<Rightarrow> True | Some u \<Rightarrow> \<not> u_is_active u)
     then tx_raise (raise_app UnauthorizedError ''User not found or inactive'')
     else tx_bind (tx_lift (claim_uuid ''workspace_id'' cl)) (\<lambda>workspace_id.
          tx_return \<lparr>p_workspace_id = workspace_id, p_user_id = Some user_id,
            p_role = dict_get ''role'' cl PNone, p_api_key_id = None, p_scope = None\<rparr>))))"

record 'z redis_env =
  re_ops :: "'z zset_ops"
  re_pipe_ok :: bool
  re_zrem_ok :: bool
  re_member :: string

type_synonym 'z redis = "string \<Rightarrow> 'z slot"

definition touch_key :: "uuid \<Rightarrow> timestamp \<Rightarrow> db \<Rightarrow> db" where
  "touch_key kid now d =
     d\<lparr>api_keys := set_rows (\<lambda>k. k_id k = kid)
         (\<lambda>k. k\<lparr>k_last_used_at := Some now, k_request_count := k_request_count k + 1\<rparr>) (api_keys d)\<rparr>"

definition key_principal :: "api_key \<Rightarrow> principal" where
  "key_principal row =
     \<lparr>p_workspace_id = k_workspace_id row, p_user_id = None, p_role = PNone,
      p_api_key_id = Some (k_id row), p_scope = Some (k_scope row)\<rparr>"

definition principal_from_api_key ::
    "'z redis_env \<Rightarrow> crypto \<Rightarrow> timestamp \<Rightarrow> string \<Rightarrow> 'z redis \<Rightarrow> db session \<Rightarrow>
     ((exn + principal) \<times> db session) \<times> 'z redis" where
  "principal_from_api_key env cy now token redis s =
     (case one_or_none (filter (\<lambda>k. k_key_hash k = sha256_hex cy token) (api_keys (working s))) of
        Inl e \<Rightarrow> ((Inl e, s), redis)
      | Inr None \<Rightarrow> ((Inl (raise_app UnauthorizedError ''Invalid API key''), s), redis)
      | Inr (Some row) \<Rightarrow>
          if k_revoked row then ((Inl (raise_app UnauthorizedError ''Invalid API key''), s), redis)
          else case enforce (re_ops env) (re_pipe_ok env) (re_zrem_ok env) (of_int now / 1000000)
                      (re_member env) (str_uuid (k_id row)) (k_rate_limit_per_minute row) redis of
                 (allowed, redis') \<Rightarrow>
                   (tx_bind (tx_lift allowed) (\<lambda>_.
                    tx_seq (tx_modify (touch_key (k_id row) now))
                    (tx_seq tx_commit (tx_return (key_principal row)))) s, redis'))"

definition get_current_user :: "settings \<Rightarrow> crypto \<Rightarrow> timestamp \<Rightarrow> string option \<Rightarrow> principal db_tx" where
  "get_current_user cfg cy now creds = tx_bind (tx_lift (bearer creds)) (principal_from_jwt cfg cy now)"

definition require_admin :: "settings \<Rightarrow> crypto \<Rightarrow> timestamp \<Rightarrow> string option \<Rightarrow> principal db_tx" where
  "require_admin cfg cy now creds =
     tx_bind (get_current_user cfg cy now creds) (\<lambda>p.
     if \<not> is_admin p then tx_raise (raise_app ForbiddenError ''Admin role required'') else tx_return p)"

definition get_principal ::
    "'z redis_env \<Rightarrow> settings \<Rightarrow> crypto \<Rightarrow> timestamp \<Rightarrow> string option \<Rightarrow> 'z redis \<Rightarrow> db session \<Rightarrow>
     ((exn + principal) \<times> db session) \<times> 'z redis" where
  "get_principal env cfg cy now creds redis s =
     (case bearer creds of
        Inl e \<Rightarrow> ((Inl e, s), redis)
      | Inr token \<Rightarrow>
          if startswith token api_key_prefix then principal_from_api_key env cy now token redis s
          else case principal_from_jwt cfg cy now token s of
                 (Inl e, s') \<Rightarrow>
                   (if is_app UnauthorizedError e then principal_from_api_key env cy now token redis s'
                    else ((Inl e, s'), redis))
               | (Inr p, s') \<Rightarrow> ((Inr p, s'), redis))"

definition ensure_write_scope :: "principal \<Rightarrow> exn + unit" where
  "ensure_write_scope p =
     (if \<not> can_write p then Inl (raise_app ForbiddenError ''read_write scope required for ingestion'') else Inr ())"

definition add_call_log :: "api_call_log \<Rightarrow> db \<Rightarrow> exn + db" where
  "add_call_log r d =
     (if get_by w_id (l_workspace_id r) (workspaces d) = None \<or>
         (case l_api_key_id r of None \<Rightarrow> False | Some k \<Rightarrow> get_by k_id k (api_keys d) = None)
      then Inl (integrity_error ''api_call_log'')
      else Inr (d\<lparr>api_call_logs := api_call_logs d @ [r]\<rparr>))"

definition log_api_call :: "timestamp \<Rightarrow> principal \<Rightarrow> string \<Rightarrow> unit db_tx" where
  "log_api_call now p endpoint =
     (case p_api_key_id p of
        None \<Rightarrow> tx_return ()
      | Some k \<Rightarrow> tx_update (add_call_log
          \<lparr>l_workspace_id = p_workspace_id p, l_endpoint = endpoint, l_api_key_id = Some k, l_created_at = now\<rparr>))"

text \<open>A request of a dual-auth route: the principal first, then the handler, in one session.\<close>

definition serve_principal ::
    "'z redis_env \<Rightarrow> settings \<Rightarrow> crypto \<Rightarrow> timestamp \<Rightarrow> string option \<Rightarrow> (principal \<Rightarrow> 'a db_tx) \<Rightarrow>
     'z redis \<Rightarrow> db \<Rightarrow> ((exn + 'a) \<times> db) \<times> 'z redis" where
  "serve_principal env cfg cy now creds handler redis d =
     (get_db (tx_bind (\<lambda>s. fst (get_principal env cfg cy now creds redis s)) handler) d,
      snd (get_principal env cfg cy now creds redis (open_session d)))"

subsection \<open>What a principal stands for\<close>

lemma principal_from_jwt_Inr:
  assumes "principal_from_jwt cfg cy now token s = (Inr p, s')"
  shows "s' = s \<and> (\<exists>cl uid u. decode_access_token cfg cy token now = Inr cl \<and>
     claim_uuid ''sub'' cl = Inr uid \<and> get_by u_id uid (users (working s)) = Some u \<and> u_is_active u \<and>
     claim_uuid ''workspace_id'' cl = Inr (p_workspace_id p) \<and> p_user_id p = Some uid \<and>
     p_role p = dict_get ''role'' cl PNone \<and> p_api_key_id p = None)"
  using assms by (auto simp: principal_from_jwt_def tx_simps split: sum.splits option.splits if_splits)

lemma principal_from_jwt_state: "snd (principal_from_jwt cfg cy now token s) = s"
  by (auto simp: principal_from_jwt_def tx_simps split: sum.splits option.splits)

lemma principal_from_api_key_Inr:
  assumes "principal_from_api_key env cy now token redis s = ((Inr p, s'), redis')"
  shows "\<exists>row. filter (\<lambda>k. k_key_hash k = sha256_hex cy token) (api_keys (working s)) = [row] \<and>
     \<not> k_revoked row \<and> p = key_principal row \<and>
     s' = open_session (touch_key (k_id row) now (working s)) \<and>
     enforce (re_ops env) (re_pipe_ok env) (re_zrem_ok env) (of_int now / 1000000) (re_member env)
       (str_uuid (k_id row)) (k_rate_limit_per_minute row) redis = (Inr (), redis')"
  using assms
  by (auto simp: principal_from_api_key_def tx_simps one_or_none_Some open_session_def
      split: sum.splits option.splits if_splits prod.splits)

lemma principal_from_api_key_fields [simp]: "p_api_key_id (key_principal row) = Some (k_id row)"
  by (simp add: key_principal_def)

text \<open>The session a principal leaves: untouched for a user, the counted use committed for a key.\<close>

lemma principal_sources_session:
  assumes "get_principal env cfg cy now creds redis s = ((Inr p, s'), redis')"
  shows "case p_api_key_id p of None \<Rightarrow> s' = s
     | Some kid \<Rightarrow> s' = open_session (touch_key kid now (working s))"
proof -
  obtain token where token: "bearer creds = Inr token"
    using assms by (auto simp: get_principal_def split: sum.splits)
  have "principal_from_api_key env cy now token redis s = ((Inr p, s'), redis') \<or>
      principal_from_jwt cfg cy now token s = (Inr p, s')"
    using assms principal_from_jwt_state [of cfg cy now token s]
    by (auto simp: get_principal_def token split: if_splits prod.splits sum.splits)
  then show ?thesis
    by (auto dest!: principal_from_api_key_Inr principal_from_jwt_Inr)
qed


definition demo_key :: api_key where
  "demo_key =
     \<lparr>k_id = 3, k_workspace_id = 7, k_name = ''key'', k_key_prefix = ''keel_sk_x'',
      k_key_hash = sha256_hex demo_crypto ''keel_sk_x'', k_scope = ''read_only'', k_rate_limit_per_minute = 100,
      k_last_used_at = None, k_request_count = 0, k_revoked = False, k_created_by_id = None, k_created_at = 0\<rparr>"


text \<open>
  The token decides, not the membership: an access token made for an admin keeps admin
  rights over its workspace until it expires, as long as the user's account is active, even after
  an administrator has removed that user from the workspace and no membership is left.
\<close>

theorem stale_admin_token:
  assumes "crypto_laws cy"
    and "token = create_access_token cfg cy (str_uuid uid) (str_uuid ws) ''admin'' jti t"
    and "token \<noteq> []" and "py_strip token = token"
    and "to_seconds now < to_seconds (t + minutes (access_token_expire_minutes cfg))"
    and "get_db (remove_user ws uid) d0 = (Inr (), d)"
    and "get_by u_id uid (users d0) = Some u" and "u_is_active u"
  shows "find_member ws uid d = Inr None \<and>
     get_db (require_admin cfg cy now (Some token)) d
       = (Inr \<lparr>p_workspace_id = ws, p_user_id = Some uid, p_role = PStr ''admin'', p_api_key_id = None,
               p_scope = None\<rparr>, d)"
proof -
  have dec: "decode_access_token cfg cy token now
      = Inr (access_claims cfg (str_uuid uid) (str_uuid ws) ''admin'' jti t)"
    using decode_own_token [OF assms(1)] assms(2,5) by simp
  have ids: "claim_uuid ''sub'' (access_claims cfg (str_uuid uid) (str_uuid ws) ''admin'' jti t) = Inr uid"
    "claim_uuid ''workspace_id'' (access_claims cfg (str_uuid uid) (str_uuid ws) ''admin'' jti t) = Inr ws"
    "dict_get ''role'' (access_claims cfg (str_uuid uid) (str_uuid ws) ''admin'' jti t) PNone = PStr ''admin''"
    by (simp_all add: claim_uuid_def access_claims_def parse_str_uuid)
  obtain w where "plan_remove_user ws uid d0 = Inr w" "d = w d0"
    using assms(6) by (auto simp: remove_user_def get_db_Inr tx_simps split: sum.splits)
  then have d: "d = drop_member ws uid d0" using plan_remove_user_Inr by blast
  then have "users d = users d0" by (simp add: drop_member_def)
  moreover have "find_member ws uid d = Inr None"
    by (simp add: d find_member_def drop_member_def one_or_none_None filter_empty_conv)
  ultimately show ?thesis
    using assms(3,4,7,8)
    by (simp add: require_admin_def get_current_user_def bearer_def principal_from_jwt_def tx_simps
        get_db_def dec ids is_admin_def)
qed

lemma stale_admin_token_witness:
  "find_member 7 1 (drop_member 7 1 demo_two_admins) = Inr None \<and>
   (\<exists>p. get_db (require_admin default_settings demo_crypto 60
        (Some (create_access_token default_settings demo_crypto (str_uuid 1) (str_uuid 7) ''admin'' ''j'' 0)))
        (drop_member 7 1 demo_two_admins) = (Inr p, drop_member 7 1 demo_two_admins))"
proof -
  let ?tok = "create_access_token default_settings demo_crypto (str_uuid 1) (str_uuid 7) ''admin'' ''j'' 0"
  have "?tok \<noteq> []" by (simp add: create_access_token_def demo_crypto_def)
  moreover have "py_strip ?tok = ?tok"
    unfolding py_strip_def
    by (rule strip_by_none) (auto simp: create_access_token_def demo_crypto_def py_isspace_def split: if_splits)
  moreover have "get_db (remove_user 7 1) demo_two_admins = (Inr (), drop_member 7 1 demo_two_admins)"
    by (simp add: get_db_def remove_user_def plan_remove_user_def tx_simps demo_admin_simps)
  ultimately show ?thesis
    using stale_admin_token [OF demo_crypto_laws refl, of default_settings 1 7 "''j''" 0 60 demo_two_admins
        "drop_member 7 1 demo_two_admins" "demo_user 1"]
    by (simp add: to_seconds_def minutes_def default_settings_def demo_two_admins_def demo_user_def)
qed

end
