(* ===== verification/Admin_Api.thy ===== *)
theory Admin_Api
  imports Deps Accounts
begin

text \<open>
  The user administration of a workspace (\<^verbatim>\<open>app/api/admin_users.py\<close>, \<^verbatim>\<open>app/schemas/admin.py\<close>) and the
  demo account (\<^verbatim>\<open>scripts/seed_admin.py\<close>). \<open>email_str\<close> is the \<open>EmailStr\<close> validator.
\<close>

subsection \<open>Routes\<close>

definition list_users_route :: "settings \<Rightarrow> crypto \<Rightarrow> timestamp \<Rightarrow> string option \<Rightarrow> user_out list db_tx" where
  "list_users_route cfg cy now creds =
     tx_bind (require_admin cfg cy now creds) (\<lambda>p. list_users (p_workspace_id p))"

definition invite_user_route ::
    "settings \<Rightarrow> crypto \<Rightarrow> (string \<Rightarrow> string option) \<Rightarrow> timestamp \<Rightarrow> uuid \<Rightarrow> string \<Rightarrow> string \<Rightarrow> string option \<Rightarrow>
     string \<Rightarrow> role \<Rightarrow> user_out db_tx" where
  "invite_user_route cfg cy email_str now new_id salt random_pw creds email role =
     tx_bind (require_admin cfg cy now creds) (\<lambda>p.
     case email_str email of
       None \<Rightarrow> tx_raise (ValidationError [Some ''email''])
     | Some addr \<Rightarrow> invite cy new_id salt random_pw (p_workspace_id p) addr role)"

definition change_role_route ::
    "settings \<Rightarrow> crypto \<Rightarrow> timestamp \<Rightarrow> string option \<Rightarrow> uuid \<Rightarrow> role \<Rightarrow> user_out db_tx" where
  "change_role_route cfg cy now creds user_id role =
     tx_bind (require_admin cfg cy now creds) (\<lambda>p. change_role (p_workspace_id p) user_id role)"

definition remove_user_route :: "settings \<Rightarrow> crypto \<Rightarrow> timestamp \<Rightarrow> string option \<Rightarrow> uuid \<Rightarrow> unit db_tx" where
  "remove_user_route cfg cy now creds user_id =
     tx_bind (require_admin cfg cy now creds) (\<lambda>p. remove_user (p_workspace_id p) user_id)"

text \<open>The requests as one operation, whose answer is left out.\<close>

datatype admin_request =
    ListUsers
  | InviteUser uuid string string string role
  | SetRole uuid role
  | RemoveMember uuid

definition without_answer :: "'a db_tx \<Rightarrow> unit db_tx" where
  "without_answer m = tx_bind m (\<lambda>_. tx_return ())"

fun serve_admin ::
    "settings \<Rightarrow> crypto \<Rightarrow> (string \<Rightarrow> string option) \<Rightarrow> timestamp \<Rightarrow> string option \<Rightarrow> admin_request \<Rightarrow> unit db_tx" where
  "serve_admin cfg cy email_str now creds ListUsers = without_answer (list_users_route cfg cy now creds)"
| "serve_admin cfg cy email_str now creds (InviteUser new_id salt pw email r) =
     without_answer (invite_user_route cfg cy email_str now new_id salt pw creds email r)"
| "serve_admin cfg cy email_str now creds (SetRole user_id r) =
     without_answer (change_role_route cfg cy now creds user_id r)"
| "serve_admin cfg cy email_str now creds (RemoveMember user_id) = remove_user_route cfg cy now creds user_id"

subsection \<open>Who administers what\<close>

text \<open>What the administration of \<open>ws\<close> may not change; \<open>us\<close> are the users there were.\<close>

definition outside_ws :: "uuid \<Rightarrow> user list \<Rightarrow> db \<Rightarrow> db \<Rightarrow> bool" where
  "outside_ws ws us d d' \<longleftrightarrow>
     filter (\<lambda>m. m_workspace_id m \<noteq> ws) (members d') = filter (\<lambda>m. m_workspace_id m \<noteq> ws) (members d) \<and>
     (\<exists>new. users d' = us @ new) \<and>
     d'\<lparr>users := [], members := []\<rparr> = d\<lparr>users := [], members := []\<rparr>"

lemma outside_add_user: "tx_keeps (outside_ws ws us d) (tx_update (add_user u))"
  by (rule tx_keeps_update) (auto simp: outside_ws_def dest!: add_cases)

lemma outside_add_member: "m_workspace_id m = ws \<Longrightarrow> tx_keeps (outside_ws ws us d) (tx_update (add_member m))"
  by (rule tx_keeps_update) (auto simp: outside_ws_def dest!: add_cases)

lemma service_outside:
  "tx_keeps (outside_ws ws us d) (invite cy uid salt pw ws email r)"
  "tx_keeps (outside_ws ws us d) (change_role ws uid r)"
  "tx_keeps (outside_ws ws us d) (remove_user ws uid)"
  "tx_keeps (outside_ws ws us d) (list_users ws)"
proof -
  show "tx_keeps (outside_ws ws us d) (invite cy uid salt pw ws email r)"
    unfolding invite_def Let_def by (intro inv_intros outside_add_user outside_add_member) simp_all
  have set: "outside_ws ws us d (set_role ws uid r d2)" if "outside_ws ws us d d2" for d2
  proof -
    have "filter (\<lambda>m. m_workspace_id m \<noteq> ws)
        (set_rows (\<lambda>m. m_workspace_id m = ws \<and> m_user_id m = uid) (\<lambda>m. m\<lparr>m_role := role_value r\<rparr>) ms)
        = filter (\<lambda>m. m_workspace_id m \<noteq> ws) ms" for ms :: "member list"
      by (rule set_rows_filter_other) auto
    then show ?thesis using that by (simp add: outside_ws_def set_role_def)
  qed
  have drop: "outside_ws ws us d (drop_member ws uid d2)" if "outside_ws ws us d d2" for d2
  proof -
    have "filter (\<lambda>m. m_workspace_id m \<noteq> ws) (filter (\<lambda>m. \<not> (m_workspace_id m = ws \<and> m_user_id m = uid)) ms)
        = filter (\<lambda>m. m_workspace_id m \<noteq> ws) ms" for ms :: "member list"
      by (induction ms) auto
    then show ?thesis using that by (simp add: outside_ws_def drop_member_def)
  qed
  show "tx_keeps (outside_ws ws us d) (change_role ws uid r)"
    unfolding change_role_def
    by (rule tx_keeps_plan, drule plan_change_role_Inr, simp add: set, intro inv_intros)
  show "tx_keeps (outside_ws ws us d) (remove_user ws uid)"
    unfolding remove_user_def
    by (rule tx_keeps_plan, drule plan_remove_user_Inr, simp add: drop, intro inv_intros)
  show "tx_keeps (outside_ws ws us d) (list_users ws)"
    unfolding list_users_def by (intro inv_intros)
qed

lemma current_user_state: "snd (get_current_user cfg cy now creds s) = s"
  using principal_from_jwt_state
  by (simp add: get_current_user_def tx_simps split: sum.split)

lemma require_admin_bind:
  "tx_bind (require_admin cfg cy now creds) f s =
     (case fst (get_current_user cfg cy now creds s) of
        Inl e \<Rightarrow> (Inl e, s)
      | Inr p \<Rightarrow> if is_admin p then f p s else (Inl (raise_app ForbiddenError ''Admin role required''), s))"
proof -
  obtain r where "get_current_user cfg cy now creds s = (r, s)"
    using current_user_state [of cfg cy now creds s] by (metis prod.collapse)
  then show ?thesis
    by (cases r) (simp_all add: require_admin_def tx_bind_def tx_raise_def tx_return_def)
qed

lemma without_answer_bind:
  "without_answer (tx_bind m f) = tx_bind m (\<lambda>x. without_answer (f x))"
  by (simp add: without_answer_def fun_eq_iff tx_bind_simps(9))

lemma without_answer_keeps: "tx_keeps P m \<Longrightarrow> tx_keeps P (without_answer m)"
  unfolding without_answer_def by (intro inv_intros)

lemma serve_shape:
  "\<exists>f. serve_admin cfg cy email_str now creds req = tx_bind (require_admin cfg cy now creds) f \<and>
     (\<forall>p us d. tx_keeps (outside_ws (p_workspace_id p) us d) (f p))"
proof (cases req)
  case ListUsers
  show ?thesis
    unfolding ListUsers serve_admin.simps list_users_route_def without_answer_bind
    by (rule exI, rule conjI, rule refl, intro allI without_answer_keeps service_outside)
next
  case (InviteUser new_id salt pw email r)
  show ?thesis
    unfolding InviteUser serve_admin.simps invite_user_route_def without_answer_bind
    by (rule exI, rule conjI, rule refl, intro allI without_answer_keeps inv_intros service_outside)
next
  case (SetRole user_id r)
  show ?thesis
    unfolding SetRole serve_admin.simps change_role_route_def without_answer_bind
    by (rule exI, rule conjI, rule refl, intro allI without_answer_keeps service_outside)
next
  case (RemoveMember user_id)
  show ?thesis
    unfolding RemoveMember serve_admin.simps remove_user_route_def
    by (rule exI, rule conjI, rule refl, intro allI service_outside)
qed

text \<open>
  C40: Administration is for administrators of the workspace only: a request whose token is not that of an
  active user with the admin role is refused and changes nothing; one that passes leaves the memberships
  of every other workspace, the users that there were and all other tables as they are.
\<close>

theorem administration_guarded:
  assumes "get_db (serve_admin cfg cy email_str now creds req) d = (r, d')"
  shows "case fst (get_current_user cfg cy now creds (open_session d)) of
      Inl e \<Rightarrow> r = Inl e \<and> d' = d
    | Inr p \<Rightarrow> if is_admin p then outside_ws (p_workspace_id p) (users d) d d'
        else r = Inl (raise_app ForbiddenError ''Admin role required'') \<and> d' = d"
proof -
  obtain f :: "principal \<Rightarrow> unit db_tx" where serve: "serve_admin cfg cy email_str now creds req
      = tx_bind (require_admin cfg cy now creds) f"
    and f: "\<And>p. tx_keeps (outside_ws (p_workspace_id p) us d0) (f p)" for us d0
    using serve_shape [of cfg cy email_str now creds req] by blast
  have start: "outside_ws ws (users d) d d" for ws by (simp add: outside_ws_def)
  show ?thesis
  proof (cases "fst (get_current_user cfg cy now creds (open_session d))")
    case (Inl e)
    then show ?thesis using assms by (simp add: serve get_db_def require_admin_bind)
  next
    case (Inr p)
    show ?thesis
    proof (cases "is_admin p")
      case True
      have "get_db (f p) d = (r, d')" using assms Inr True by (simp add: serve get_db_def require_admin_bind)
      then show ?thesis using get_db_keeps [OF f start, of p] Inr True by simp
    next
      case False
      then show ?thesis using assms Inr by (simp add: serve get_db_def require_admin_bind)
    qed
  qed
qed

subsection \<open>The demo account\<close>

definition demo_email :: string where "demo_email = ''admin@keel.demo''"
definition demo_password :: string where "demo_password = ''DemoPassw0rd!23''"
definition demo_org :: string where "demo_org = ''Acme Corporation''"

text \<open>\<open>main\<close>, in a session of its own: what it has not committed is gone when it closes.\<close>

definition seed_tx :: "settings \<Rightarrow> crypto \<Rightarrow> fresh \<Rightarrow> timestamp \<Rightarrow> unit db_tx" where
  "seed_tx cfg cy fr now =
     tx_bind (tx_query (\<lambda>d. one_or_none (filter (\<lambda>u. u_email u = demo_email) (users d)))) (\<lambda>existing.
     if existing \<noteq> None then tx_return ()
     else tx_bind (register cfg cy fr now ''Demo Admin'' demo_email demo_org demo_password) (\<lambda>_. tx_commit))"

definition seed_admin :: "settings \<Rightarrow> crypto \<Rightarrow> fresh \<Rightarrow> timestamp \<Rightarrow> db \<Rightarrow> (exn + unit) \<times> db" where
  "seed_admin cfg cy fr now d = (case seed_tx cfg cy fr now (open_session d) of (r, s) \<Rightarrow> (r, committed s))"

lemma demo_email_lower: "py_lower demo_email = demo_email"
  by (simp add: demo_email_def py_lower_def py_lower_char_def)

text \<open>Seeding twice is seeding once: the second run finds the account and changes nothing.\<close>

lemma seed_once:
  assumes "seed_admin cfg cy fr now d = (Inr (), d1)"
  shows "seed_admin cfg cy fr2 now2 d1 = (Inr (), d1) \<and> (\<exists>u \<in> set (users d1). u_email u = demo_email)"
proof -
  obtain existing where ex: "one_or_none (filter (\<lambda>u. u_email u = demo_email) (users d)) = Inr existing"
    using assms by (auto simp: seed_admin_def seed_tx_def tx_simps split: sum.splits)
  have "\<exists>u. filter (\<lambda>u. u_email u = demo_email) (users d1) = [u]"
  proof (cases existing)
    case (Some u)
    then have "d1 = d" using assms ex by (simp add: seed_admin_def seed_tx_def tx_simps)
    then show ?thesis using ex Some by (simp add: one_or_none_Some)
  next
    case None
    then have none: "filter (\<lambda>u. u_email u = demo_email) (users d) = []" using ex by (simp add: one_or_none_None)
    let ?m = "register cfg cy fr now ''Demo Admin'' demo_email demo_org demo_password"
    obtain r s where reg: "?m (open_session d) = (r, s)" by fastforce
    have "seed_tx cfg cy fr now (open_session d) = tx_bind ?m (\<lambda>_. tx_commit) (open_session d)"
      using none by (simp add: seed_tx_def tx_simps)
    then have "\<exists>res. r = Inr res \<and> d1 = working s"
      using assms reg by (cases r) (auto simp: seed_admin_def tx_bind_def tx_commit_def)
    then obtain res where "?m (open_session d) = (Inr res, s)" "d1 = working s" using reg by blast
    then have "get_db (register cfg cy fr now ''Demo Admin'' demo_email demo_org demo_password) d = (Inr res, d1)"
      by (simp add: get_db_def)
    then have "users d1 = users d @ [new_user (fr_user fr) demo_email ''Demo Admin''
        (hash_password cy (fr_salt fr) demo_password) (Some now)]"
      by (auto dest!: register_effect(1) simp: demo_email_lower)
    then show ?thesis using none by (simp add: new_user_def)
  qed
  then obtain u where u: "filter (\<lambda>u. u_email u = demo_email) (users d1) = [u]" by blast
  then have "u \<in> set (filter (\<lambda>u. u_email u = demo_email) (users d1))" by simp
  then have "u \<in> set (users d1)" "u_email u = demo_email" unfolding set_filter by blast+
  moreover have "seed_admin cfg cy fr2 now2 d1 = (Inr (), d1)"
    using u by (simp add: seed_admin_def seed_tx_def tx_simps)
  ultimately show ?thesis by blast
qed

subsection \<open>Witness\<close>

lemma own_token_passes:
  assumes "crypto_laws cy"
    and "token = create_access_token cfg cy (str_uuid uid) (str_uuid ws) role jti t"
    and "token \<noteq> []" and "py_strip token = token"
    and "to_seconds now < to_seconds (t + minutes (access_token_expire_minutes cfg))"
    and "get_by u_id uid (users (working s)) = Some u" and "u_is_active u"
  shows "get_current_user cfg cy now (Some token) s =
    (Inr \<lparr>p_workspace_id = ws, p_user_id = Some uid, p_role = PStr role, p_api_key_id = None, p_scope = None\<rparr>, s)"
proof -
  let ?cl = "access_claims cfg (str_uuid uid) (str_uuid ws) role jti t"
  have dec: "decode_access_token cfg cy token now = Inr ?cl"
    using decode_own_token [OF assms(1)] assms(2,5) by simp
  have "claim_uuid ''sub'' ?cl = Inr uid" "claim_uuid ''workspace_id'' ?cl = Inr ws" "dict_get ''role'' ?cl PNone = PStr role"
    by (simp_all add: claim_uuid_def access_claims_def parse_str_uuid)
  then show ?thesis using assms(3,4,6,7)
    by (simp add: get_current_user_def bearer_def principal_from_jwt_def tx_simps dec)
qed

lemma administration_guarded_witness:
  "\<exists>r d'. get_db (serve_admin default_settings demo_crypto Some 60 (Some (create_access_token default_settings
        demo_crypto (str_uuid 1) (str_uuid 7) ''admin'' ''j'' 0)) (RemoveMember 2)) demo_two_admins = (r, d') \<and>
     outside_ws 7 (users demo_two_admins) demo_two_admins d' \<and> map m_user_id (members d') = [1]"
proof -
  let ?tok = "create_access_token default_settings demo_crypto (str_uuid 1) (str_uuid 7) ''admin'' ''j'' 0"
  let ?req = "serve_admin default_settings demo_crypto Some 60 (Some ?tok) (RemoveMember 2)"
  let ?p = "\<lparr>p_workspace_id = 7, p_user_id = Some 1, p_role = PStr ''admin'', p_api_key_id = None, p_scope = None\<rparr>"
  have "?tok \<noteq> []" by (simp add: create_access_token_def demo_crypto_def)
  moreover have "py_strip ?tok = ?tok"
    unfolding py_strip_def
    by (rule strip_by_none) (auto simp: create_access_token_def demo_crypto_def py_isspace_def split: if_splits)
  ultimately have user: "get_current_user default_settings demo_crypto 60 (Some ?tok) (open_session demo_two_admins)
      = (Inr ?p, open_session demo_two_admins)"
    using own_token_passes [OF demo_crypto_laws refl, of default_settings 1 7 "''admin''" "''j''" 0 60
        "open_session demo_two_admins" "demo_user 1"]
    by (simp add: to_seconds_def minutes_def default_settings_def demo_two_admins_def demo_user_def new_user_def)
  have removed: "get_db (remove_user 7 2) demo_two_admins = (Inr (), drop_member 7 2 demo_two_admins)"
    by (simp add: get_db_def remove_user_def plan_remove_user_def tx_simps demo_admin_simps)
  have "get_db ?req demo_two_admins = get_db (remove_user 7 2) demo_two_admins"
    by (simp add: get_db_def remove_user_route_def require_admin_bind user is_admin_def)
  then have run: "get_db ?req demo_two_admins = (Inr (), drop_member 7 2 demo_two_admins)" by (simp only: removed)
  then show ?thesis
    using administration_guarded [OF run] user by (simp add: is_admin_def drop_member_def demo_admin_simps)
qed

end
