(* ===== verification/Doc_Parsing.thy ===== *)
theory Doc_Parsing
  imports Models
begin

text \<open>
  Parsing of uploaded bytes (\<^verbatim>\<open>app/services/parsing.py\<close>): text, CSV through Python's
  \<open>csv.reader\<close> (its default dialect, as the state machine of the standard library), markdown
  sections, and the Docling adapter. Docling and UTF-8 decoding are parameters.
\<close>

subsection \<open>Python's csv.reader\<close>

datatype csv_state = StartRecord | StartField | InField | InQuoted | QuoteInQuoted | EatCrnl

text \<open>The field under construction and the fields of the record are kept reversed.\<close>

record csv_parser =
  cp_state :: csv_state
  cp_field :: string
  cp_fields :: "string list"

definition csv_reset :: csv_parser where
  "csv_reset = \<lparr>cp_state = StartRecord, cp_field = [], cp_fields = []\<rparr>"

definition csv_error :: "string \<Rightarrow> exn" where
  "csv_error msg = PyError ''Error'' msg"

abbreviation nl :: char where "nl \<equiv> CHR 0x0A"
abbreviation cr :: char where "cr \<equiv> CHR 0x0D"
abbreviation quotechar :: char where "quotechar \<equiv> CHR 0x22"

definition csv_field_limit :: nat where
  "csv_field_limit = 131072"

definition csv_add :: "char \<Rightarrow> csv_state \<Rightarrow> csv_parser \<Rightarrow> exn + csv_parser" where
  "csv_add c st p =
     (if csv_field_limit \<le> length (cp_field p) then Inl (csv_error ''field larger than field limit'')
      else Inr (p\<lparr>cp_field := c # cp_field p, cp_state := st\<rparr>))"

definition csv_save :: "csv_state \<Rightarrow> csv_parser \<Rightarrow> csv_parser" where
  "csv_save st p =
     p\<lparr>cp_fields := rev (cp_field p) # cp_fields p, cp_field := [], cp_state := st\<rparr>"

text \<open>One character; \<open>None\<close> is the end of a line handed over by the iterator.\<close>

definition csv_start_field :: "char option \<Rightarrow> csv_parser \<Rightarrow> exn + csv_parser" where
  "csv_start_field ch p =
     (case ch of
        None \<Rightarrow> Inr (csv_save StartRecord p)
      | Some c \<Rightarrow>
          if c = nl \<or> c = cr then Inr (csv_save EatCrnl p)
          else if c = quotechar then Inr (p\<lparr>cp_state := InQuoted\<rparr>)
          else if c = CHR '','' then Inr (csv_save StartField p)
          else csv_add c InField p)"

definition csv_char :: "char option \<Rightarrow> csv_parser \<Rightarrow> exn + csv_parser" where
  "csv_char ch p =
     (case cp_state p of
        StartRecord \<Rightarrow>
          (case ch of
             None \<Rightarrow> Inr p
           | Some c \<Rightarrow> if c = nl \<or> c = cr then Inr (p\<lparr>cp_state := EatCrnl\<rparr>)
                       else csv_start_field ch p)
      | StartField \<Rightarrow> csv_start_field ch p
      | InField \<Rightarrow>
          (case ch of
             None \<Rightarrow> Inr (csv_save StartRecord p)
           | Some c \<Rightarrow> if c = nl \<or> c = cr then Inr (csv_save EatCrnl p)
                       else if c = CHR '','' then Inr (csv_save StartField p)
                       else csv_add c InField p)
      | InQuoted \<Rightarrow>
          (case ch of
             None \<Rightarrow> Inr p
           | Some c \<Rightarrow> if c = quotechar then Inr (p\<lparr>cp_state := QuoteInQuoted\<rparr>)
                       else csv_add c InQuoted p)
      | QuoteInQuoted \<Rightarrow>
          (case ch of
             None \<Rightarrow> Inr (csv_save StartRecord p)
           | Some c \<Rightarrow> if c = quotechar then csv_add c InQuoted p
                       else if c = CHR '','' then Inr (csv_save StartField p)
                       else if c = nl \<or> c = cr then Inr (csv_save EatCrnl p)
                       else csv_add c InField p)
      | EatCrnl \<Rightarrow>
          (case ch of
             None \<Rightarrow> Inr (p\<lparr>cp_state := StartRecord\<rparr>)
           | Some c \<Rightarrow> if c = nl \<or> c = cr then Inr p
                       else Inl (csv_error ''new-line character seen in unquoted field'')))"

fun csv_line :: "string \<Rightarrow> csv_parser \<Rightarrow> exn + csv_parser" where
  "csv_line [] p = csv_char None p"
| "csv_line (c # cs) p = (case csv_char (Some c) p of Inl e \<Rightarrow> Inl e | Inr p' \<Rightarrow> csv_line cs p')"

fun csv_records :: "csv_parser \<Rightarrow> string list \<Rightarrow> exn + string list list" where
  "csv_records p [] =
     (if cp_field p \<noteq> [] \<or> cp_state p = InQuoted
      then Inr [rev (cp_fields (csv_save StartRecord p))] else Inr [])"
| "csv_records p (l # ls) =
     (case csv_line l p of
        Inl e \<Rightarrow> Inl e
      | Inr p' \<Rightarrow>
          if cp_state p' = StartRecord
          then (case csv_records csv_reset ls of
                  Inl e \<Rightarrow> Inl e | Inr rows \<Rightarrow> Inr (rev (cp_fields p') # rows))
          else csv_records p' ls)"

text \<open>The lines \<open>io.StringIO(text)\<close> yields: cut after each newline, which they keep.\<close>

fun io_lines_acc :: "string \<Rightarrow> string \<Rightarrow> string list" where
  "io_lines_acc acc [] = (if acc = [] then [] else [rev acc])"
| "io_lines_acc acc (c # cs) =
     (if c = nl then rev (c # acc) # io_lines_acc [] cs else io_lines_acc (c # acc) cs)"

definition csv_reader :: "string \<Rightarrow> exn + string list list" where
  "csv_reader text = csv_records csv_reset (io_lines_acc [] text)"

subsection \<open>Parsed documents\<close>

record doc_section =
  sec_ref :: "string option"
  sec_text :: string

record parsed_document =
  pd_text :: string
  pd_page_count :: int
  pd_sections :: "doc_section list"
  pd_is_tabular :: bool
  pd_headers :: "string list"
  pd_metadata :: "(string \<times> pyval) list"

definition default_parsed :: parsed_document where
  "default_parsed =
     \<lparr>pd_text = [], pd_page_count = 1, pd_sections = [], pd_is_tabular = False,
      pd_headers = [], pd_metadata = []\<rparr>"

definition parse_error :: "string \<Rightarrow> exn" where
  "parse_error msg = PyError ''ParseError'' msg"

definition parse_txt :: "string \<Rightarrow> parsed_document" where
  "parse_txt text =
     (let paras = filter (\<lambda>p. p \<noteq> []) (map py_strip (py_split [nl, nl] text));
          sections = map (\<lambda>p. \<lparr>sec_ref = None, sec_text = p\<rparr>) paras
      in default_parsed\<lparr>pd_text := text,
           pd_sections := (if sections = [] then [\<lparr>sec_ref = None, sec_text = text\<rparr>]
                           else sections)\<rparr>)"

definition parse_csv :: "string \<Rightarrow> exn + parsed_document" where
  "parse_csv text =
     (case csv_reader text of
        Inl e \<Rightarrow> Inl e
      | Inr rows \<Rightarrow>
          Inr (default_parsed\<lparr>pd_text := text, pd_is_tabular := True,
                 pd_headers := (case rows of [] \<Rightarrow> [] | h # _ \<Rightarrow> h),
                 pd_metadata := [(''row_count'', PInt (int (length (tl rows))))]\<rparr>))"

text \<open>\<open>str.splitlines()\<close> on Latin-1 text.\<close>

definition line_break :: "char \<Rightarrow> bool" where
  "line_break c =
     (let n = (of_char c :: nat) in (10 \<le> n \<and> n \<le> 13) \<or> (28 \<le> n \<and> n \<le> 30) \<or> n = 133)"

fun splitlines_acc :: "string \<Rightarrow> string \<Rightarrow> string list" where
  "splitlines_acc acc [] = (if acc = [] then [] else [rev acc])"
| "splitlines_acc acc [c] = (if line_break c then [rev acc] else [rev (c # acc)])"
| "splitlines_acc acc (c # d # cs) =
     (if c = cr \<and> d = nl then rev acc # splitlines_acc [] cs
      else if line_break c then rev acc # splitlines_acc [] (d # cs)
      else splitlines_acc (c # acc) (d # cs))"

definition or_else :: "string \<Rightarrow> string option \<Rightarrow> string option" where
  "or_else s alt = (if s = [] then alt else Some s)"

fun markdown_blocks :: "string option \<Rightarrow> string list \<Rightarrow> doc_section list" where
  "markdown_blocks current_ref [] = []"
| "markdown_blocks current_ref (raw # raws) =
     (let block = py_strip raw
      in if block = [] then markdown_blocks current_ref raws
         else
           let lines = splitlines_acc [] block; first = hd lines
           in if startswith (dropWhile py_isspace first) ''#''
              then let ref = or_else (py_strip (dropWhile (\<lambda>c. c \<in> set ''# '') first)) current_ref;
                       rest = py_strip (py_join [nl] (tl lines))
                   in (if rest \<noteq> [] then [\<lparr>sec_ref = ref, sec_text = rest\<rparr>] else [])
                      @ markdown_blocks ref raws
              else \<lparr>sec_ref = current_ref, sec_text = block\<rparr> # markdown_blocks current_ref raws)"

definition sections_from_markdown :: "string \<Rightarrow> doc_section list" where
  "sections_from_markdown text =
     (let sections = markdown_blocks None (py_split [nl, nl] text)
      in if sections = [] then [\<lparr>sec_ref = None, sec_text = text\<rparr>] else sections)"

text \<open>
  Docling: \<open>None\<close> when the package is absent; otherwise the conversion of the bytes to markdown
  and the number of pages (\<open>len(pages or [])\<close>), or the exception it raised.
\<close>

type_synonym docling = "(bytes \<Rightarrow> exn + (string \<times> nat)) option"

definition docling_formats :: "string list" where
  "docling_formats = [''pdf'', ''docx'', ''pptx'', ''xlsx'', ''png'', ''jpg'']"

definition parse_with_docling :: "docling \<Rightarrow> bytes \<Rightarrow> string \<Rightarrow> exn + parsed_document" where
  "parse_with_docling docling data file_type =
     (case docling of
        None \<Rightarrow> Inl (parse_error (''Docling not installed '' @ file_type))
      | Some convert \<Rightarrow>
          (case convert data of
             Inl exc \<Rightarrow> Inl (parse_error (''Docling failed to parse '' @ file_type @ '': '' @ exn_str exc))
           | Inr (text, pages) \<Rightarrow>
               Inr (default_parsed\<lparr>pd_text := text,
                      pd_page_count := (if pages = 0 then 1 else int pages),
                      pd_sections := sections_from_markdown text,
                      pd_metadata := [(''parser'', PStr ''docling'')]\<rparr>)))"

definition parse_document ::
    "(bytes \<Rightarrow> string) \<Rightarrow> docling \<Rightarrow> bytes \<Rightarrow> string \<Rightarrow> exn + parsed_document" where
  "parse_document decode docling data file_type =
     (let ft = dropWhile (\<lambda>c. c = CHR ''.'') (py_lower file_type)
      in if ft = ''txt'' then Inr (parse_txt (decode data))
         else if ft = ''csv'' then parse_csv (decode data)
         else if ft \<in> set docling_formats then parse_with_docling docling data ft
         else Inl (parse_error (''Unsupported file type: '' @ ft)))"

subsection \<open>Facts about parsed documents\<close>

text \<open>A field the writer of a plain CSV row may leave unquoted.\<close>

definition plain_char :: "char \<Rightarrow> bool" where
  "plain_char c \<longleftrightarrow> c \<noteq> nl \<and> c \<noteq> cr \<and> c \<noteq> quotechar \<and> c \<noteq> CHR '','' "

definition plain_field :: "string \<Rightarrow> bool" where
  "plain_field f \<longleftrightarrow> length f < csv_field_limit \<and> list_all plain_char f"

lemma plain_charD: "plain_char c \<Longrightarrow> c \<noteq> nl" "plain_char c \<Longrightarrow> c \<noteq> cr"
  "\<not> plain_char nl" "\<not> plain_char cr"
  by (simp_all add: plain_char_def)

lemma csv_char_plain:
  "plain_char c \<Longrightarrow> length (cp_field p) < csv_field_limit \<Longrightarrow>
   cp_state p = StartRecord \<or> cp_state p = StartField \<or> cp_state p = InField \<Longrightarrow>
   csv_char (Some c) p = Inr (p\<lparr>cp_field := c # cp_field p, cp_state := InField\<rparr>)"
  by (elim disjE) (simp_all add: plain_char_def csv_char_def csv_start_field_def csv_add_def)

lemma csv_line_field:
  assumes "list_all plain_char f" and "length f + length (cp_field p) \<le> csv_field_limit"
    and "cp_state p = StartField \<or> cp_state p = InField"
  shows "f \<noteq> [] \<Longrightarrow> csv_line (f @ cs) p
           = csv_line cs (p\<lparr>cp_field := rev f @ cp_field p, cp_state := InField\<rparr>)"
  using assms
proof (induction f arbitrary: p)
  case (Cons c f)
  let ?p = "p\<lparr>cp_field := c # cp_field p, cp_state := InField\<rparr>"
  have "csv_char (Some c) p = Inr ?p"
    by (rule csv_char_plain) (use Cons.prems in auto)
  with Cons.IH [of ?p] Cons.prems show ?case by (cases "f = []") simp_all
qed simp

lemma csv_sep_simps:
  "cp_state p = StartField \<or> cp_state p = InField \<Longrightarrow>
     csv_char (Some CHR '','') p = Inr (csv_save StartField p)"
  "cp_state p = StartField \<or> cp_state p = InField \<Longrightarrow> csv_char None p = Inr (csv_save StartRecord p)"
  "cp_state p = StartField \<or> cp_state p = InField \<Longrightarrow>
     csv_char (Some nl) p = Inr (csv_save EatCrnl p)"
  "cp_state p = EatCrnl \<Longrightarrow> csv_char None p = Inr (p\<lparr>cp_state := StartRecord\<rparr>)"
  by (elim disjE; simp add: csv_char_def csv_start_field_def)+
    (simp add: csv_char_def)

lemma csv_line_one:
  assumes "plain_field f" and "cp_state p = StartField" and "cp_field p = []"
  shows "csv_line (f @ CHR '','' # cs) p
           = csv_line cs (p\<lparr>cp_fields := f # cp_fields p, cp_state := StartField\<rparr>)"
    and "tail = [] \<or> tail = [nl] \<Longrightarrow> csv_line (f @ tail) p
           = Inr (p\<lparr>cp_fields := f # cp_fields p, cp_state := StartRecord\<rparr>)"
proof -
  have run: "csv_line (f @ cs) p = csv_line cs (p\<lparr>cp_field := rev f, cp_state := InField\<rparr>)"
    if "f \<noteq> []" for cs
    using csv_line_field [OF _ _ _ that, of p cs] assms by (simp add: plain_field_def)
  have same: "p\<lparr>cp_field := []\<rparr> = p" using assms(3) by (cases p) simp
  have save: "csv_save st (p\<lparr>cp_field := rev f, cp_state := InField\<rparr>)
      = p\<lparr>cp_fields := f # cp_fields p, cp_state := st\<rparr>"
    and save': "csv_save st p = p\<lparr>cp_fields := [] # cp_fields p, cp_state := st\<rparr>" for st
    using same assms(3) by (cases p; simp add: csv_save_def)+
  show "csv_line (f @ CHR '','' # cs) p
      = csv_line cs (p\<lparr>cp_fields := f # cp_fields p, cp_state := StartField\<rparr>)"
    using assms by (cases "f = []") (simp_all add: run csv_sep_simps save save')
  show "csv_line (f @ tail) p = Inr (p\<lparr>cp_fields := f # cp_fields p, cp_state := StartRecord\<rparr>)"
    if "tail = [] \<or> tail = [nl]"
    using that
  proof
    assume "tail = []"
    then show ?thesis using assms run [of "[]"]
      by (cases "f = []") (simp_all add: csv_sep_simps save save')
  next
    assume "tail = [nl]"
    then show ?thesis using assms run [of "[nl]"]
      by (cases "f = []") (simp_all add: csv_sep_simps save save')
  qed
qed

lemma csv_line_fields:
  assumes "fs \<noteq> []" and "\<forall>f \<in> set fs. plain_field f" and "cp_state p = StartField"
    and "cp_field p = []" and "tail = [] \<or> tail = [nl]"
  shows "csv_line (py_join '','' fs @ tail) p
           = Inr (p\<lparr>cp_fields := rev fs @ cp_fields p, cp_state := StartRecord\<rparr>)"
  using assms
proof (induction fs arbitrary: p)
  case (Cons f fs)
  show ?case
  proof (cases "fs = []")
    case True
    with Cons.prems csv_line_one(2) [of f p tail] show ?thesis by simp
  next
    case False
    have "csv_line (py_join '','' (f # fs) @ tail) p
        = csv_line (py_join '','' fs @ tail) (p\<lparr>cp_fields := f # cp_fields p, cp_state := StartField\<rparr>)"
      using csv_line_one(1) [of f p "py_join '','' fs @ tail"] Cons.prems False
      by (simp add: py_join_Cons)
    with Cons.IH [of "p\<lparr>cp_fields := f # cp_fields p, cp_state := StartField\<rparr>"] Cons.prems False
    show ?thesis by simp
  qed
qed simp

definition plain_row :: "string list \<Rightarrow> bool" where
  "plain_row row \<longleftrightarrow> row \<noteq> [] \<and> row \<noteq> [[]] \<and> (\<forall>f \<in> set row. plain_field f)"

lemma py_join_chars: "c \<in> set (py_join sep xs) \<Longrightarrow> c \<in> set sep \<or> (\<exists>x \<in> set xs. c \<in> set x)"
  by (induction sep xs rule: py_join.induct) auto

lemma py_join_eq_Nil: "sep \<noteq> [] \<Longrightarrow> py_join sep xs = [] \<longleftrightarrow> xs = [] \<or> xs = [[]]"
  by (induction sep xs rule: py_join.induct) auto

lemma plain_row_chars: "plain_row row \<Longrightarrow> c \<in> set (py_join '','' row) \<Longrightarrow> c \<noteq> nl \<and> c \<noteq> cr"
proof -
  assume row: "plain_row row" and c: "c \<in> set (py_join '','' row)"
  from py_join_chars [OF c] show ?thesis
  proof
    assume "\<exists>x \<in> set row. c \<in> set x"
    then obtain f where "f \<in> set row" "c \<in> set f" by blast
    with row have "plain_char c" by (simp add: plain_row_def plain_field_def list_all_iff)
    then show ?thesis by (simp add: plain_charD)
  qed simp
qed

lemma plain_row_line: "plain_row row \<Longrightarrow> nl \<notin> set (py_join '','' row) \<and> py_join '','' row \<noteq> []"
  using plain_row_chars [of row nl] by (auto simp: plain_row_def py_join_eq_Nil)

lemma csv_line_row:
  assumes "plain_row row" and "tail = [] \<or> tail = [nl]"
  shows "csv_line (py_join '','' row @ tail) csv_reset
           = Inr (csv_reset\<lparr>cp_fields := rev row\<rparr>)"
proof -
  let ?s = "py_join '','' row @ tail"
  have "py_join '','' row \<noteq> []" using plain_row_line [OF assms(1)] by simp
  then obtain c cs where s: "?s = c # cs" and "c \<in> set (py_join '','' row)"
    by (cases "py_join '','' row") auto
  with plain_row_chars [OF assms(1)] have "c \<noteq> nl \<and> c \<noteq> cr" by blast
  then have "csv_line ?s csv_reset = csv_line ?s (csv_reset\<lparr>cp_state := StartField\<rparr>)"
    unfolding s by (simp add: csv_char_def csv_reset_def csv_start_field_def csv_add_def csv_save_def)
  also have "\<dots> = Inr (csv_reset\<lparr>cp_fields := rev row\<rparr>)"
    using csv_line_fields [of row "csv_reset\<lparr>cp_state := StartField\<rparr>" tail] assms
    by (simp add: plain_row_def csv_reset_def)
  finally show ?thesis .
qed

lemma io_lines_acc_line:
  "nl \<notin> set l \<Longrightarrow> io_lines_acc acc (l @ nl # s) = (rev acc @ l @ [nl]) # io_lines_acc [] s"
  "nl \<notin> set l \<Longrightarrow> acc @ l \<noteq> [] \<Longrightarrow> io_lines_acc acc l = [rev acc @ l]"
  by (induction l arbitrary: acc) auto

definition csv_text :: "string list list \<Rightarrow> string" where
  "csv_text rows = py_join [nl] (map (py_join '','') rows)"

text \<open>Reading back the rows of a CSV text written without quoting.\<close>

lemma csv_reader_text: "\<forall>row \<in> set rows. plain_row row \<Longrightarrow> csv_reader (csv_text rows) = Inr rows"
proof (induction rows rule: induct_list012)
  case 1
  show ?case by (simp add: csv_text_def csv_reader_def csv_reset_def)
next
  case (2 row)
  then have "io_lines_acc [] (py_join '','' row) = [py_join '','' row]"
    using io_lines_acc_line(2) [of "py_join '','' row" "[]"] plain_row_line [of row] by simp
  with 2 csv_line_row [of row "[]"] show ?case
    by (simp add: csv_text_def csv_reader_def csv_reset_def)
next
  case (3 row row' rows)
  have IH: "csv_records csv_reset (io_lines_acc [] (csv_text (row' # rows))) = Inr (row' # rows)"
    using 3 by (simp add: csv_reader_def)
  have "io_lines_acc [] (csv_text (row # row' # rows))
      = (py_join '','' row @ [nl]) # io_lines_acc [] (csv_text (row' # rows))"
    using io_lines_acc_line(1) [of "py_join '','' row" "[]"] plain_row_line [of row] "3.prems"
    by (simp add: csv_text_def)
  with IH csv_line_row [of row "[nl]"] "3.prems" show ?case
    by (simp add: csv_reader_def csv_reset_def)
qed

text \<open>Every section a parser produces, except the fallback for a text without any, is not empty.\<close>

lemma markdown_blocks_text: "sec \<in> set (markdown_blocks ref raws) \<Longrightarrow> sec_text sec \<noteq> []"
  by (induction raws arbitrary: ref) (auto simp: Let_def split: if_splits)

lemma parse_document_sections:
  assumes "parse_document decode docling data ft = Inr pd" and "\<not> pd_is_tabular pd"
  shows "pd_sections pd \<noteq> []"
  using assms
  by (auto simp: parse_document_def Let_def parse_txt_def parse_csv_def parse_with_docling_def
      sections_from_markdown_def default_parsed_def
      split: if_splits sum.splits option.splits prod.splits)

text \<open>
  A file of an unknown type, a Docling failure and a missing Docling are all \<open>ParseError\<close>s.
\<close>

lemma parse_document_error:
  assumes "parse_document decode docling data ft = Inl e"
    and "dropWhile (\<lambda>c. c = CHR ''.'') (py_lower ft) \<noteq> ''csv''"
  shows "exn_name e = ''ParseError''"
  using assms
  by (auto simp: parse_document_def Let_def parse_with_docling_def parse_error_def
      split: if_splits sum.splits option.splits prod.splits)

end
