(* ===== verification/Chunk.thy ===== *)
theory Chunk
  imports Doc_Parsing
begin

text \<open>
  Token-bounded chunking (\<^verbatim>\<open>app/services/chunking.py\<close>). The tokenizer (tiktoken) is the
  parameter \<open>enc\<close>: \<open>None\<close> when it is not installed, otherwise the number of tokens of a text.
\<close>

type_synonym tokenizer = "(string \<Rightarrow> nat) option"

definition target_tokens :: nat where "target_tokens = 512"
definition max_tokens :: nat where "max_tokens = 1024"
definition overlap_tokens :: nat where "overlap_tokens = 64"
definition min_tokens :: nat where "min_tokens = 50"
definition rows_per_chunk :: nat where "rows_per_chunk = 50"

lemmas token_constants =
  target_tokens_def max_tokens_def overlap_tokens_def min_tokens_def rows_per_chunk_def

record chunk_data =
  ch_index :: nat
  ch_text :: string
  ch_tokens :: nat
  ch_ref :: "string option"
  ch_rows :: "(nat \<times> nat) option"

definition count_tokens :: "tokenizer \<Rightarrow> string \<Rightarrow> nat" where
  "count_tokens enc text =
     (case enc of Some f \<Rightarrow> f text | None \<Rightarrow> max 1 (length text div 4))"

subsection \<open>Windows of words\<close>

text \<open>\<open>while count_tokens(piece) > MAX_TOKENS and " " in piece: piece = piece.rsplit(" ", 1)[0]\<close>\<close>

lemma rsplit_head_shorter: "c \<in> set s \<Longrightarrow> length (rsplit_head c s) < length s"
proof -
  assume "c \<in> set s"
  then have "dropWhile (\<lambda>x. x \<noteq> c) (rev s) \<noteq> []" by (simp add: dropWhile_eq_Nil_conv)
  moreover have "length (dropWhile (\<lambda>x. x \<noteq> c) (rev s)) \<le> length s"
    using length_dropWhile_le [of _ "rev s"] by simp
  ultimately show ?thesis
    using \<open>c \<in> set s\<close> by (cases "dropWhile (\<lambda>x. x \<noteq> c) (rev s)") (auto simp: rsplit_head_def)
qed

function trim_piece :: "tokenizer \<Rightarrow> string \<Rightarrow> string" where
  "trim_piece enc piece =
     (if max_tokens < count_tokens enc piece \<and> CHR '' '' \<in> set piece
      then trim_piece enc (rsplit_head CHR '' '' piece) else piece)"
  by pat_completeness auto
termination
  by (relation "measure (\<lambda>(enc, piece). length piece)") (auto simp: rsplit_head_shorter)

declare trim_piece.simps [simp del]

text \<open>\<open>int(512 * 0.75)\<close> words per window, a new window every \<open>int(448 * 0.75)\<close> words.\<close>

definition window_words :: nat where
  "window_words = max 1 (target_tokens * 3 div 4)"

definition window_step :: nat where
  "window_step = max 1 (max 1 (target_tokens - overlap_tokens) * 3 div 4)"

lemma window_values [simp]: "window_words = 384" "window_step = 336"
  by (simp_all add: window_words_def window_step_def token_constants)

function split_loop :: "tokenizer \<Rightarrow> string list \<Rightarrow> nat \<Rightarrow> string list" where
  "split_loop enc words i =
     (if i < length words
      then trim_piece enc (py_join '' '' (take window_words (drop i words)))
           # split_loop enc words (i + window_step)
      else [])"
  by pat_completeness auto
termination
  by (relation "measure (\<lambda>(enc, words, i). length words - i)") auto

declare split_loop.simps [simp del]

definition split_tokens :: "tokenizer \<Rightarrow> string \<Rightarrow> string list" where
  "split_tokens enc text =
     (let words = py_words text in if words = [] then [] else split_loop enc words 0)"

subsection \<open>Text chunks\<close>

record chunk_state =
  cs_out :: "chunk_data list"
  cs_idx :: nat
  cs_buffer :: string
  cs_ref :: "string option"

fun emit_pieces ::
    "tokenizer \<Rightarrow> string option \<Rightarrow> string list \<Rightarrow> chunk_state \<Rightarrow> chunk_state" where
  "emit_pieces enc ref [] st = st"
| "emit_pieces enc ref (piece # pieces) st =
     emit_pieces enc ref pieces
       (st\<lparr>cs_out := cs_out st @ [\<lparr>ch_index = cs_idx st, ch_text = piece,
              ch_tokens = count_tokens enc piece, ch_ref = ref, ch_rows = None\<rparr>],
           cs_idx := cs_idx st + 1\<rparr>)"

definition flush :: "tokenizer \<Rightarrow> string option \<Rightarrow> chunk_state \<Rightarrow> chunk_state" where
  "flush enc ref st =
     (if py_strip (cs_buffer st) \<noteq> []
      then emit_pieces enc ref (split_tokens enc (cs_buffer st)) st else st)\<lparr>cs_buffer := []\<rparr>"

text \<open>\<open>buf_ref or sec.ref\<close>: an empty reference counts as absent.\<close>

definition ref_or :: "string option \<Rightarrow> string option \<Rightarrow> string option" where
  "ref_or a b = (case a of Some r \<Rightarrow> (if r = [] then b else a) | None \<Rightarrow> b)"

definition section_step :: "tokenizer \<Rightarrow> chunk_state \<Rightarrow> doc_section \<Rightarrow> chunk_state" where
  "section_step enc st sec =
     (let st1 = (if target_tokens < count_tokens enc (cs_buffer st @ '' '' @ sec_text sec)
                 then (flush enc (cs_ref st) st)\<lparr>cs_ref := sec_ref sec\<rparr> else st);
          buffer = (if cs_buffer st1 \<noteq> []
                    then py_strip (cs_buffer st1 @ [nl, nl] @ sec_text sec) else sec_text sec)
      in st1\<lparr>cs_buffer := buffer, cs_ref := ref_or (cs_ref st1) (sec_ref sec)\<rparr>)"

text \<open>A trailing chunk below the minimum is merged into the one before it.\<close>

definition merge_trailing :: "tokenizer \<Rightarrow> chunk_data list \<Rightarrow> chunk_data list" where
  "merge_trailing enc out =
     (if 2 \<le> length out \<and> ch_tokens (last out) < min_tokens
      then let prev = last (butlast out);
               text = ch_text prev @ [nl, nl] @ ch_text (last out)
           in butlast (butlast out) @ [prev\<lparr>ch_text := text, ch_tokens := count_tokens enc text\<rparr>]
      else out)"

definition chunk_sections :: "tokenizer \<Rightarrow> doc_section list \<Rightarrow> chunk_data list" where
  "chunk_sections enc sections =
     (let st = foldl (section_step enc) \<lparr>cs_out = [], cs_idx = 0, cs_buffer = [], cs_ref = None\<rparr> sections
      in cs_out (flush enc (cs_ref st) st))"

definition chunk_text :: "tokenizer \<Rightarrow> parsed_document \<Rightarrow> chunk_data list" where
  "chunk_text enc parsed =
     merge_trailing enc (chunk_sections enc
       (if pd_sections parsed = [] then [\<lparr>sec_ref = None, sec_text = pd_text parsed\<rparr>]
        else pd_sections parsed))"

subsection \<open>Row chunks\<close>

definition row_chunk :: "tokenizer \<Rightarrow> nat \<Rightarrow> string \<Rightarrow> string list \<Rightarrow> nat \<Rightarrow> chunk_data" where
  "row_chunk enc idx header_line block start =
     (let body = py_join [nl] block;
          text = (if header_line \<noteq> [] then header_line @ [nl] @ body else body)
      in \<lparr>ch_index = idx, ch_text = text, ch_tokens = count_tokens enc text,
          ch_ref = Some (''Rows '' @ str_int (int (start + 1)) @ ''-'' @ str_int (int (start + length block))),
          ch_rows = Some (start + 1, start + length block)\<rparr>)"

text \<open>The loop of \<open>_chunk_tabular\<close>: \<open>out\<close>, \<open>batch\<close> and \<open>start\<close> are its variables.\<close>

fun row_loop ::
    "tokenizer \<Rightarrow> string \<Rightarrow> chunk_data list \<Rightarrow> string list \<Rightarrow> nat \<Rightarrow> string list list \<Rightarrow>
     chunk_data list" where
  "row_loop enc hdr out batch start [] =
     (if batch \<noteq> [] then out @ [row_chunk enc (length out) hdr batch start] else out)"
| "row_loop enc hdr out batch start (row # rows) =
     (let batch' = batch @ [py_join '','' row]
      in if rows_per_chunk \<le> length batch'
         then row_loop enc hdr (out @ [row_chunk enc (length out) hdr batch' start]) []
                (start + length batch') rows
         else row_loop enc hdr out batch' start rows)"

definition chunk_tabular :: "tokenizer \<Rightarrow> parsed_document \<Rightarrow> exn + chunk_data list" where
  "chunk_tabular enc parsed =
     (let header_line = py_join '','' (pd_headers parsed)
      in case csv_reader (pd_text parsed) of
           Inl e \<Rightarrow> Inl e
         | Inr rows \<Rightarrow> Inr (row_loop enc header_line [] [] 0 (tl rows)))"

definition chunk_parsed :: "tokenizer \<Rightarrow> parsed_document \<Rightarrow> exn + chunk_data list" where
  "chunk_parsed enc parsed =
     (if pd_is_tabular parsed then chunk_tabular enc parsed else Inr (chunk_text enc parsed))"

subsection \<open>Pieces are runs of whole words\<close>

definition spacefree :: "string list \<Rightarrow> bool" where
  "spacefree ws \<longleftrightarrow> (\<forall>w \<in> set ws. CHR '' '' \<notin> set w)"

lemma spacefree_words: "spacefree (py_words s)"
  by (simp add: spacefree_def py_words_no_space)

lemma spacefree_sub: "spacefree ws \<Longrightarrow> spacefree (take n ws)" "spacefree ws \<Longrightarrow> spacefree (drop n ws)"
  by (auto simp: spacefree_def dest: in_set_takeD in_set_dropD)

lemma rsplit_head_join:
  "ws \<noteq> [] \<Longrightarrow> CHR '' '' \<notin> set w \<Longrightarrow>
   rsplit_head CHR '' '' (py_join '' '' (ws @ [w])) = py_join '' '' ws"
  by (auto simp: rsplit_head_def py_join_snoc dropWhile_append3 dropWhile_append)

lemma trim_fits: "count_tokens enc p \<le> max_tokens \<Longrightarrow> trim_piece enc p = p"
  by (simp add: trim_piece.simps [of enc p])

lemma trim_join:
  assumes "ws \<noteq> []" and "spacefree ws"
  shows "\<exists>k. 1 \<le> k \<and> k \<le> length ws \<and> trim_piece enc (py_join '' '' ws) = py_join '' '' (take k ws)
           \<and> (count_tokens enc (py_join '' '' (take k ws)) \<le> max_tokens \<or> k = 1)"
  using assms
proof (induction ws rule: rev_induct)
  case (snoc w ws)
  have w: "CHR '' '' \<notin> set w" and ws: "spacefree ws" using snoc.prems by (auto simp: spacefree_def)
  show ?case
  proof (cases "ws = []")
    case True
    with w show ?thesis by (intro exI [of _ 1]) (simp add: trim_piece.simps [of enc w])
  next
    case False
    note ne = this
    show ?thesis
    proof (cases "count_tokens enc (py_join '' '' (ws @ [w])) \<le> max_tokens")
      case True
      then show ?thesis
        by (intro exI [of _ "length (ws @ [w])"]) (simp add: trim_fits)
    next
      case False
      have "CHR '' '' \<in> set (py_join '' '' (ws @ [w]))" using ne by (simp add: py_join_snoc)
      with False have "trim_piece enc (py_join '' '' (ws @ [w])) = trim_piece enc (py_join '' '' ws)"
        by (subst trim_piece.simps) (simp add: rsplit_head_join ne w)
      with snoc.IH [OF ne ws] show ?thesis by (auto simp: le_SucI)
    qed
  qed
qed simp

lemma split_loop_pieces:
  assumes "spacefree words" and "p \<in> set (split_loop enc words i)"
  shows "\<exists>j k. 1 \<le> k \<and> k \<le> window_words \<and> j + k \<le> length words \<and>
           p = py_join '' '' (take k (drop j words)) \<and> (count_tokens enc p \<le> max_tokens \<or> k = 1)"
  using assms
proof (induction enc words i rule: split_loop.induct)
  case (1 enc words i)
  show ?case
  proof (cases "i < length words")
    case True
    let ?ws = "take window_words (drop i words)"
    have "?ws \<noteq> []" and "spacefree ?ws" using True "1.prems"(1) by (auto intro: spacefree_sub)
    from trim_join [OF this, of enc]
    obtain k where k: "1 \<le> k" "k \<le> length ?ws"
      "trim_piece enc (py_join '' '' ?ws) = py_join '' '' (take k ?ws)"
      "count_tokens enc (py_join '' '' (take k ?ws)) \<le> max_tokens \<or> k = 1"
      by blast
    from k(2) have k': "k \<le> 384" "i + k \<le> length words" using True by auto
    then have tk: "take k ?ws = take k (drop i words)" by (simp add: min_def)
    from "1.prems"(2) consider
        "p = trim_piece enc (py_join '' '' ?ws)"
      | "p \<in> set (split_loop enc words (i + window_step))"
      using True by (auto simp: split_loop.simps [of enc words i])
    then show ?thesis
    proof cases
      case 1
      with k k' tk show ?thesis by (intro exI [of _ i] exI [of _ k]) simp
    next
      case 2
      with "1.IH" [OF True] "1.prems"(1) show ?thesis by blast
    qed
  next
    case False
    with "1.prems"(2) show ?thesis by (simp add: split_loop.simps [of enc words i])
  qed
qed

lemma split_tokens_pieces:
  assumes "p \<in> set (split_tokens enc text)"
  shows "\<exists>j k. 1 \<le> k \<and> k \<le> 384 \<and> j + k \<le> length (py_words text) \<and>
           p = py_join '' '' (take k (drop j (py_words text))) \<and>
           (count_tokens enc p \<le> max_tokens \<or> k = 1)"
  using assms split_loop_pieces [OF spacefree_words, where p = p and enc = enc and i = 0]
  by (auto simp: split_tokens_def Let_def split: if_splits)

lemma split_tokens_nonempty: "p \<in> set (split_tokens enc text) \<Longrightarrow> p \<noteq> []"
proof
  assume p: "p \<in> set (split_tokens enc text)" and "p = []"
  from split_tokens_pieces [OF p] obtain j k where
    k: "1 \<le> k" "j + k \<le> length (py_words text)" "p = py_join '' '' (take k (drop j (py_words text)))"
    by blast
  let ?ws = "take k (drop j (py_words text))"
  have "?ws = [] \<or> ?ws = [[]]" using k(3) \<open>p = []\<close> py_join_eq_Nil [of "'' ''" ?ws] by simp
  moreover have "?ws \<noteq> []" using k(1,2) by simp
  moreover have "[] \<notin> set ?ws"
    using py_words_props(1) by (metis in_set_dropD in_set_takeD)
  ultimately show False by auto
qed

text \<open>When every window fits the cap, cutting the overlap off the pieces gives the words back.\<close>

lemma split_loop_cover:
  assumes "\<And>w. w \<in> set words \<Longrightarrow> w \<noteq> [] \<and> (\<forall>c \<in> set w. \<not> py_isspace c)"
    and "\<And>j. count_tokens enc (py_join '' '' (take 384 (drop j words))) \<le> max_tokens"
  shows "concat (map (\<lambda>p. take 336 (py_words p)) (split_loop enc words i)) = drop i words"
  using assms
proof (induction enc words i rule: split_loop.induct)
  case (1 enc words i)
  show ?case
  proof (cases "i < length words")
    case True
    let ?ws = "take 384 (drop i words)"
    have "py_words (py_join '' '' ?ws) = ?ws"
      by (rule py_words_join) (meson "1.prems"(1) in_set_dropD in_set_takeD)
    moreover have "trim_piece enc (py_join '' '' ?ws) = py_join '' '' ?ws"
      by (rule trim_fits) (rule "1.prems"(2))
    moreover have "concat (map (\<lambda>p. take 336 (py_words p)) (split_loop enc words (i + 336)))
        = drop (i + 336) words"
      using "1.IH" [OF True] "1.prems" by simp
    moreover have "take 336 (drop i words) @ drop (i + 336) words = drop i words"
      by (metis add.commute append_take_drop_id drop_drop)
    ultimately show ?thesis
      using True by (simp add: split_loop.simps [of enc words i] min_def del: drop_drop)
  next
    case False
    then show ?thesis by (simp add: split_loop.simps [of enc words i])
  qed
qed

subsection \<open>Chunk lists are well formed\<close>

text \<open>Indices count from zero without gaps, and token counts are those of the texts.\<close>

definition wf_chunks :: "tokenizer \<Rightarrow> chunk_data list \<Rightarrow> bool" where
  "wf_chunks enc out \<longleftrightarrow>
     map ch_index out = [0..<length out] \<and>
     (\<forall>c \<in> set out. ch_tokens c = count_tokens enc (ch_text c))"

text \<open>A chunk of text is not empty, and it obeys the cap unless it is one unbroken word.\<close>

definition text_piece :: "tokenizer \<Rightarrow> string \<Rightarrow> bool" where
  "text_piece enc p \<longleftrightarrow>
     p \<noteq> [] \<and> (count_tokens enc p \<le> max_tokens \<or> (\<forall>c \<in> set p. \<not> py_isspace c))"

lemma split_tokens_text_piece: "p \<in> set (split_tokens enc s) \<Longrightarrow> text_piece enc p"
proof -
  assume p: "p \<in> set (split_tokens enc s)"
  from split_tokens_pieces [OF p] obtain j k where
    jk: "1 \<le> k" "j + k \<le> length (py_words s)" "p = py_join '' '' (take k (drop j (py_words s)))"
    and cap: "count_tokens enc p \<le> max_tokens \<or> k = 1"
    by blast
  have "\<forall>c \<in> set p. \<not> py_isspace c" if "k = 1"
  proof -
    obtain w where w: "take 1 (drop j (py_words s)) = [w]"
      using jk(1,2) by (cases "drop j (py_words s)") auto
    then have "w \<in> set (py_words s)" by (metis in_set_dropD in_set_takeD list.set_intros(1))
    with py_words_props(2) w jk(3) that show ?thesis by auto
  qed
  with cap split_tokens_nonempty [OF p] show ?thesis by (auto simp: text_piece_def)
qed

definition good_state :: "tokenizer \<Rightarrow> chunk_state \<Rightarrow> bool" where
  "good_state enc st \<longleftrightarrow>
     wf_chunks enc (cs_out st) \<and> cs_idx st = length (cs_out st) \<and>
     (\<forall>c \<in> set (cs_out st). text_piece enc (ch_text c))"

lemma emit_pieces_good:
  "good_state enc st \<Longrightarrow> (\<And>p. p \<in> set pieces \<Longrightarrow> text_piece enc p) \<Longrightarrow>
   good_state enc (emit_pieces enc ref pieces st)"
proof (induction pieces arbitrary: st)
  case (Cons p pieces)
  have "good_state enc (st\<lparr>cs_out := cs_out st @ [\<lparr>ch_index = cs_idx st, ch_text = p,
              ch_tokens = count_tokens enc p, ch_ref = ref, ch_rows = None\<rparr>],
           cs_idx := cs_idx st + 1\<rparr>)"
    using Cons.prems by (auto simp: good_state_def wf_chunks_def)
  then show ?case using Cons.IH Cons.prems(2) by simp
qed simp

lemma flush_good: "good_state enc st \<Longrightarrow> good_state enc (flush enc ref st)"
proof -
  assume st: "good_state enc st"
  have buf: "good_state enc (st'\<lparr>cs_buffer := []\<rparr>) = good_state enc st'" for st'
    by (simp add: good_state_def)
  show ?thesis
    using st emit_pieces_good [OF st split_tokens_text_piece] by (simp add: flush_def buf)
qed

lemma section_step_good: "good_state enc st \<Longrightarrow> good_state enc (section_step enc st sec)"
proof -
  assume st: "good_state enc st"
  let ?st1 = "if target_tokens < count_tokens enc (cs_buffer st @ '' '' @ sec_text sec)
              then flush enc (cs_ref st) st else st"
  have "cs_out (section_step enc st sec) = cs_out ?st1"
    and "cs_idx (section_step enc st sec) = cs_idx ?st1"
    by (simp_all add: section_step_def Let_def)
  moreover have "good_state enc ?st1" using st flush_good [OF st] by simp
  ultimately show ?thesis by (simp add: good_state_def)
qed

interpretation chunker: guarded_steps "section_step enc" "good_state enc" for enc
  by unfold_locales (rule section_step_good)

lemma chunk_sections_good:
  "wf_chunks enc (chunk_sections enc secs)"
  "c \<in> set (chunk_sections enc secs) \<Longrightarrow> text_piece enc (ch_text c)"
proof -
  let ?st = "foldl (section_step enc) \<lparr>cs_out = [], cs_idx = 0, cs_buffer = [], cs_ref = None\<rparr> secs"
  have "good_state enc ?st"
    by (rule chunker.run_inv) (simp add: good_state_def wf_chunks_def)
  then have good: "good_state enc (flush enc (cs_ref ?st) ?st)" by (rule flush_good)
  then show "wf_chunks enc (chunk_sections enc secs)"
    by (simp add: chunk_sections_def Let_def good_state_def)
  show "text_piece enc (ch_text c)" if "c \<in> set (chunk_sections enc secs)"
    using good that by (simp add: chunk_sections_def Let_def good_state_def)
qed

lemma two_last: "2 \<le> length xs \<Longrightarrow> \<exists>ys a b. xs = ys @ [a, b]"
proof -
  assume len: "2 \<le> length xs"
  then have "xs \<noteq> []" and "butlast xs \<noteq> []" by (auto simp flip: length_0_conv)
  then have "xs = butlast (butlast xs) @ [last (butlast xs), last xs]"
    by (metis append.assoc append_Cons append_Nil append_butlast_last_id)
  then show ?thesis by blast
qed

lemma merge_trailing_wf: "wf_chunks enc out \<Longrightarrow> wf_chunks enc (merge_trailing enc out)"
proof (cases "2 \<le> length out \<and> ch_tokens (last out) < min_tokens")
  case True
  assume wf: "wf_chunks enc out"
  from True obtain ys a b where out: "out = ys @ [a, b]" using two_last by blast
  have "butlast (butlast out) = ys" "last (butlast out) = a" "last out = b"
    by (simp_all add: out butlast_append)
  with True wf show ?thesis
    by (auto simp: merge_trailing_def Let_def wf_chunks_def out)
next
  case False
  assume "wf_chunks enc out"
  with False show ?thesis by (simp only: merge_trailing_def if_False)
qed

lemma merge_trailing_butlast: "c \<in> set (butlast (merge_trailing enc out)) \<Longrightarrow> c \<in> set out"
  by (auto simp: merge_trailing_def Let_def split: if_splits dest: in_set_butlastD)

lemma merge_trailing_text:
  "(\<And>c. c \<in> set out \<Longrightarrow> ch_text c \<noteq> []) \<Longrightarrow> c \<in> set (merge_trailing enc out) \<Longrightarrow> ch_text c \<noteq> []"
  by (auto simp: merge_trailing_def Let_def split: if_splits dest: in_set_butlastD)

subsection \<open>Row chunks in closed form\<close>

text \<open>Chunk \<open>n\<close> holds the header and lines \<open>50 n\<close> to \<open>50 n + 49\<close>.\<close>

definition row_chunks :: "tokenizer \<Rightarrow> string \<Rightarrow> string list \<Rightarrow> chunk_data list" where
  "row_chunks enc hdr lines =
     map (\<lambda>n. row_chunk enc n hdr (take 50 (drop (50 * n) lines)) (50 * n))
       [0..<(length lines + 49) div 50]"

lemma row_loop_closed:
  assumes "length batch < 50" and "start = 50 * length out"
  shows "row_loop enc hdr out batch start rows = out @
    map (\<lambda>n. row_chunk enc (length out + n) hdr
               (take 50 (drop (50 * n) (batch @ map (py_join '','') rows))) (50 * (length out + n)))
      [0..<(length batch + length rows + 49) div 50]"
  using assms
proof (induction rows arbitrary: out batch start)
  case Nil
  show ?case
  proof (cases "batch = []")
    case False
    then have "1 \<le> length batch" by (cases batch) auto
    with Nil have "(length batch + 49) div 50 = 1" by linarith
    with False Nil show ?thesis by simp
  qed simp
next
  case (Cons row rows)
  let ?b = "batch @ [py_join '','' row]"
  show ?case
  proof (cases "rows_per_chunk \<le> length ?b")
    case True
    with Cons.prems have len: "length ?b = 50" by (simp add: token_constants)
    have upt: "[0..<(length batch + length (row # rows) + 49) div 50]
        = 0 # map Suc [0..<(length rows + 49) div 50]"
    proof -
      have "(length batch + length (row # rows) + 49) div 50 = Suc ((length rows + 49) div 50)"
        using len by simp
      then show ?thesis by (simp add: upt_conv_Cons map_Suc_upt del: upt_Suc)
    qed
    have lines: "batch @ map (py_join '','') (row # rows) = ?b @ map (py_join '','') rows" by simp
    have first: "take 50 (drop (50 * 0) (?b @ map (py_join '','') rows)) = ?b"
      using len by simp
    have later: "drop (50 * Suc n) (?b @ map (py_join '','') rows)
        = drop (50 * n) (map (py_join '','') rows)" for n
      using len by simp
    show ?thesis
      unfolding upt lines
      using True len Cons.IH [of "[]" "start + length ?b" "out @ [row_chunk enc (length out) hdr ?b start]"]
        Cons.prems
      by (simp add: first later Let_def add.left_commute)
  next
    case False
    then show ?thesis
      using Cons.IH [of ?b start out] Cons.prems by (simp add: Let_def token_constants)
  qed
qed

lemma chunk_tabular_closed:
  assumes "csv_reader (pd_text pd) = Inr rows"
  shows "chunk_tabular enc pd
           = Inr (row_chunks enc (py_join '','' (pd_headers pd)) (map (py_join '','') (tl rows)))"
  using row_loop_closed [of "[]" 0 "[]" enc "py_join '','' (pd_headers pd)" "tl rows"] assms
  by (simp add: chunk_tabular_def row_chunks_def)

lemma row_chunks_wf: "wf_chunks enc (row_chunks enc hdr lines)"
  by (auto simp: wf_chunks_def row_chunks_def row_chunk_def Let_def comp_def)

lemma strip_by_eq_Nil: "strip_by P s = [] \<longleftrightarrow> (\<forall>c \<in> set s. P c)"
proof
  assume "strip_by P s = []"
  then have "dropWhile P (rev (dropWhile P s)) = []" by (simp add: strip_by_def)
  then have all: "\<forall>c \<in> set (dropWhile P s). P c"
    by (simp only: dropWhile_eq_Nil_conv set_rev)
  then have "dropWhile P s = []" by (metis hd_dropWhile list.set_sel(1))
  then show "\<forall>c \<in> set s. P c" by (simp add: dropWhile_eq_Nil_conv)
next
  assume all: "\<forall>c \<in> set s. P c"
  have none: "dropWhile P s = []" using all by (simp only: dropWhile_eq_Nil_conv)
  show "strip_by P s = []" unfolding strip_by_def none by simp
qed

lemma is_word_space: "is_word w \<Longrightarrow> CHR '' '' \<notin> set w"
  using space_isspace by (auto simp: is_word_def)

lemma split_two_long_words:
  assumes "is_word w1" and "is_word w2" and "4099 \<le> length w1 + length w2"
  shows "split_tokens None (w1 @ '' '' @ w2) = [w1]"
proof -
  have words: "py_words (w1 @ '' '' @ w2) = [w1, w2]"
    using py_words_join [of "[w1, w2]"] assms(1,2) by (auto simp: is_word_def)
  let ?p = "w1 @ CHR '' '' # w2"
  have "max_tokens < count_tokens None ?p"
    using assms(3) by (simp add: count_tokens_def token_constants)
  moreover have "rsplit_head CHR '' '' ?p = w1"
    using rsplit_head_join [of "[w1]" w2] assms(2) is_word_space by simp
  ultimately have "trim_piece None ?p = trim_piece None w1"
    by (simp add: trim_piece.simps [of None ?p])
  also have "\<dots> = w1"
    using is_word_space [OF assms(1)] by (simp add: trim_piece.simps [of None w1])
  finally show ?thesis
    using words by (simp add: split_tokens_def split_loop.simps [of None "[w1, w2]" 0]
        split_loop.simps [of None "[w1, w2]" 336])
qed

subsection \<open>Properties\<close>

text \<open>
  Whatever the document, text or table, and whatever the tokenizer: the chunks are numbered
  \<open>0, 1, 2, \<dots>\<close> without gaps and each stores the token count of its own text, also after the
  trailing chunk was merged.
\<close>

theorem chunk_list_wf:
  assumes "chunk_parsed enc pd = Inr out"
  shows "wf_chunks enc out"
proof (cases "pd_is_tabular pd")
  case True
  with assms obtain rows where "csv_reader (pd_text pd) = Inr rows"
    by (auto simp: chunk_parsed_def chunk_tabular_def Let_def split: sum.splits)
  from chunk_tabular_closed [OF this] assms True show ?thesis
    by (auto simp: chunk_parsed_def row_chunks_wf)
next
  case False
  with assms show ?thesis
    by (auto simp: chunk_parsed_def chunk_text_def intro!: merge_trailing_wf chunk_sections_good)
qed


text \<open>
  When every window of 384 words fits the cap, no word of the text is lost and none is cut: the
  chunks are windows that start every 336 words, and dropping each window's overlap with the next
  gives back exactly the words of the text, in order.
\<close>

theorem split_tokens_lossless:
  assumes "\<forall>j. count_tokens enc (py_join '' '' (take 384 (drop j (py_words s)))) \<le> 1024"
  shows "concat (map (\<lambda>p. take 336 (py_words p)) (split_tokens enc s)) = py_words s"
proof -
  have w: "w \<noteq> [] \<and> (\<forall>c \<in> set w. \<not> py_isspace c)" if "w \<in> set (py_words s)" for w
    using py_words_props that by blast
  have "concat (map (\<lambda>p. take 336 (py_words p)) (split_loop enc (py_words s) 0)) = drop 0 (py_words s)"
    by (rule split_loop_cover) (use w assms in \<open>auto simp: max_tokens_def\<close>)
  then show ?thesis by (auto simp: split_tokens_def Let_def)
qed

text \<open>
  When a window overshoots the cap, what the trim cuts off is lost: the next window starts 336
  words later all the same. With the character-based counter, a text of two long words (4099
  characters or more together) yields one chunk that holds only the first; the second word is in
  no chunk of the document.
\<close>

theorem chunk_text_drops_words:
  assumes "is_word w1" and "is_word w2" and "4099 \<le> length w1 + length w2"
  shows "map ch_text (chunk_text None (default_parsed\<lparr>pd_text := w1 @ '' '' @ w2\<rparr>)) = [w1]"
proof -
  let ?t = "w1 @ '' '' @ w2"
  have split: "split_tokens None ?t = [w1]" by (rule split_two_long_words [OF assms])
  have "\<exists>c \<in> set ?t. \<not> py_isspace c" using assms(1) by (cases w1) (auto simp: is_word_def)
  then have strip: "py_strip ?t \<noteq> []" by (auto simp: py_strip_def strip_by_eq_Nil)
  have "target_tokens < count_tokens None ('' '' @ ?t)"
    using assms(3) by (simp add: count_tokens_def token_constants)
  then have "section_step None \<lparr>cs_out = [], cs_idx = 0, cs_buffer = [], cs_ref = None\<rparr>
        \<lparr>sec_ref = None, sec_text = ?t\<rparr>
      = \<lparr>cs_out = [], cs_idx = 0, cs_buffer = ?t, cs_ref = None\<rparr>"
    by (simp add: section_step_def Let_def flush_def py_strip_def strip_by_def ref_or_def)
  with split strip show ?thesis
    by (simp add: chunk_text_def chunk_sections_def default_parsed_def flush_def merge_trailing_def)
qed

text \<open>
  A CSV file with a header and rows that need no quoting, parsed and chunked: chunk \<open>n\<close> is the
  header line followed by the rows \<open>50 n + 1\<close> to \<open>50 n + 50\<close> (fewer in the last one), labelled with
  that range; together the chunks hold every row once, in order.
\<close>

theorem csv_chunks_closed:
  assumes "\<forall>row \<in> set (hdr # rows). plain_row row" and "decode data = csv_text (hdr # rows)"
  shows "(\<exists>pd. parse_document decode docling data ''csv'' = Inr pd \<and> pd_headers pd = hdr \<and>
            chunk_parsed enc pd
              = Inr (row_chunks enc (py_join '','' hdr) (map (py_join '','') rows))) \<and>
         concat (map (\<lambda>n. take 50 (drop (50 * n) rows)) [0..<(length rows + 49) div 50]) = rows"
proof -
  have rd: "csv_reader (csv_text (hdr # rows)) = Inr (hdr # rows)"
    by (rule csv_reader_text) (use assms(1) in auto)
  let ?pd = "default_parsed\<lparr>pd_text := csv_text (hdr # rows), pd_is_tabular := True,
      pd_headers := hdr, pd_metadata := [(''row_count'', PInt (int (length rows)))]\<rparr>"
  have "parse_document decode docling data ''csv'' = Inr ?pd"
    using rd assms(2) by (simp add: parse_document_def Let_def py_lower_def py_lower_char_def parse_csv_def)
  moreover have "chunk_parsed enc ?pd
      = Inr (row_chunks enc (py_join '','' hdr) (map (py_join '','') rows))"
    using chunk_tabular_closed [of ?pd "hdr # rows" enc] rd by (simp add: chunk_parsed_def)
  moreover have "pd_headers ?pd = hdr" by simp
  moreover have "concat (map (\<lambda>n. take 50 (drop (50 * n) rows)) [0..<(length rows + 49) div 50]) = rows"
    using concat_slices [of 50 rows] by (simp add: add.commute)
  ultimately show ?thesis by blast
qed

subsection \<open>Witnesses\<close>

definition demo_tokenizer :: tokenizer where
  "demo_tokenizer = Some (\<lambda>t. 300 * length (py_words t))"

definition demo_parsed :: parsed_document where
  "demo_parsed = default_parsed\<lparr>pd_text := ''a b c d'',
     pd_sections := [\<lparr>sec_ref = Some ''I'', sec_text = ''a b''\<rparr>, \<lparr>sec_ref = None, sec_text = ''c d''\<rparr>]\<rparr>"

lemma demo_words: "py_words ''a b'' = [''a'', ''b'']" "py_words ''c d'' = [''c'', ''d'']"
  "py_words '' a b'' = [''a'', ''b'']" "py_words ''a b c d'' = [''a'', ''b'', ''c'', ''d'']"
  by (simp_all add: py_words_def py_isspace_def)

lemma demo_split:
  "split_tokens demo_tokenizer ''a b'' = [''a b'']" "split_tokens demo_tokenizer ''c d'' = [''c d'']"
  by (simp_all add: split_tokens_def demo_words split_loop.simps trim_piece.simps
      demo_tokenizer_def count_tokens_def token_constants)

lemma demo_chunks:
  "map (\<lambda>c. (ch_index c, ch_text c, ch_tokens c, ch_ref c)) (chunk_text demo_tokenizer demo_parsed)
     = [(0, ''a b'', 600, Some ''I''), (1, ''c d'', 600, None)]"
proof -
  have strip: "py_strip ''a b'' = ''a b''" "py_strip ''c d'' = ''c d''" "py_strip [] = []"
    by (simp_all add: py_strip_def strip_by_def py_isspace_def)
  have tokens: "count_tokens demo_tokenizer ''a b'' = 600" "count_tokens demo_tokenizer ''c d'' = 600"
    "count_tokens demo_tokenizer '' a b'' = 600" "count_tokens demo_tokenizer ''a b c d'' = 1200"
    by (simp_all add: count_tokens_def demo_tokenizer_def demo_words)
  show ?thesis
    by (simp add: chunk_text_def chunk_sections_def demo_parsed_def section_step_def Let_def tokens
        flush_def strip demo_split ref_or_def merge_trailing_def token_constants)
qed

theorem chunk_list_wf_witness:
  "wf_chunks demo_tokenizer (chunk_text demo_tokenizer demo_parsed)"
  by (rule chunk_list_wf [of demo_tokenizer demo_parsed])
    (simp add: chunk_parsed_def demo_parsed_def default_parsed_def)


theorem split_tokens_lossless_witness:
  "concat (map (\<lambda>p. take 336 (py_words p)) (split_tokens (Some (\<lambda>t. 7)) ''one two  three''))
     = [''one'', ''two'', ''three'']"
proof -
  have "concat (map (\<lambda>p. take 336 (py_words p)) (split_tokens (Some (\<lambda>t. 7)) ''one two  three''))
      = py_words ''one two  three''"
    by (rule split_tokens_lossless) (simp add: count_tokens_def)
  also have "\<dots> = [''one'', ''two'', ''three'']" by code_simp
  finally show ?thesis .
qed

theorem chunk_text_drops_words_witness:
  "map ch_text (chunk_text None (default_parsed\<lparr>pd_text :=
      replicate 4096 CHR ''a'' @ '' '' @ ''lost''\<rparr>)) = [replicate 4096 CHR ''a'']"
  by (rule chunk_text_drops_words) (simp_all add: is_word_def py_isspace_def)

theorem csv_chunks_closed_witness:
  "\<exists>pd. parse_document (\<lambda>_. csv_text [[''id'', ''v''], [''1'', ''x'']]) None [] ''csv'' = Inr pd
     \<and> pd_headers pd = [''id'', ''v'']
     \<and> chunk_parsed None pd = Inr (row_chunks None ''id,v'' [''1,x''])"
  using csv_chunks_closed [of "[''id'', ''v'']" "[[''1'', ''x'']]"
      "\<lambda>_. csv_text [[''id'', ''v''], [''1'', ''x'']]" "[]" None None]
  by (simp add: plain_row_def plain_field_def plain_char_def csv_field_limit_def)

end
