(* ===== verification/AI_Extract.thy ===== *)
theory AI_Extract
  imports Gateway
begin

text \<open>
  Tag generation (\<^verbatim>\<open>app/services/tagging_service.py\<close>) and entity extraction
  (\<^verbatim>\<open>app/services/ner.py\<close>): both prompt the gateway, cut the JSON out of the answer, read it with
  \<open>json.loads\<close> (the argument \<open>json_loads\<close>; \<open>rep\<close> is \<open>str\<close> of floats, lists and dicts) and turn any
  failure into an empty result.
\<close>

subsection \<open>Python values\<close>

definition find_char :: "char \<Rightarrow> string \<Rightarrow> nat option" where
  "find_char c s = (if c \<in> set s then Some (length (takeWhile (\<lambda>x. x \<noteq> c) s)) else None)"

definition rfind_char :: "char \<Rightarrow> string \<Rightarrow> nat option" where
  "rfind_char c s =
     (if c \<in> set s then Some (length s - 1 - length (takeWhile (\<lambda>x. x \<noteq> c) (rev s))) else None)"

definition py_upper_char :: "char \<Rightarrow> string" where
  "py_upper_char c =
     (let n = (of_char c :: nat)
      in if n = 223 then ''SS''
         else if (97 \<le> n \<and> n \<le> 122) \<or> (224 \<le> n \<and> n \<le> 254 \<and> n \<noteq> 247)
         then [char_of (n - 32)] else [c])"

definition py_upper :: "string \<Rightarrow> string" where
  "py_upper s = concat (map py_upper_char s)"

text \<open>\<open>for x in v\<close>, and \<open>v.get(k, d)\<close> of a value that should be a dict.\<close>

fun py_iter :: "pyval \<Rightarrow> exn + pyval list" where
  "py_iter (PList xs) = Inr xs"
| "py_iter (PStr s) = Inr (map (\<lambda>c. PStr [c]) s)"
| "py_iter (PDict d) = Inr (map (\<lambda>(k, v). PStr k) d)"
| "py_iter _ = Inl (PyError ''TypeError'' ''object is not iterable'')"

fun py_get :: "string \<Rightarrow> pyval \<Rightarrow> pyval \<Rightarrow> exn + pyval" where
  "py_get k dflt (PDict d) = Inr (dict_get k d dflt)"
| "py_get k dflt _ = Inl (PyError ''AttributeError'' ''get'')"

fun res_bind :: "'e + 'a \<Rightarrow> ('a \<Rightarrow> 'e + 'b) \<Rightarrow> 'e + 'b" where
  "res_bind (Inl e) f = Inl e"
| "res_bind (Inr x) f = f x"

text \<open>A list comprehension with a filter, whose parts may raise: \<open>None\<close> is an item filtered out.\<close>

fun collect :: "('a \<Rightarrow> exn + 'b option) \<Rightarrow> 'a list \<Rightarrow> exn + 'b list" where
  "collect f [] = Inr []"
| "collect f (x # xs) =
     res_bind (f x) (\<lambda>y. res_bind (collect f xs) (\<lambda>ys.
       Inr (case y of None \<Rightarrow> ys | Some z \<Rightarrow> z # ys)))"

subsection \<open>Tags\<close>

definition max_tags :: nat where "max_tags = 20"
definition max_tag_len :: nat where "max_tag_len = 50"
definition tag_head_chars :: nat where "tag_head_chars = 8000"

definition tag_prompt :: string where
  \<open>tag_prompt = ''You generate concise topical tags for an enterprise document. '' @
     ''Return ONLY a JSON array of 5-15 short lowercase tags (1-3 words each), '' @
     ''no commentary. Example: ["finance", "q3 report", "compliance"].''\<close>

fun normalize_loop :: "(pyval \<Rightarrow> string) \<Rightarrow> pyval list \<Rightarrow> string list \<Rightarrow> string list" where
  "normalize_loop rep [] seen = seen"
| "normalize_loop rep (item # raw) seen =
     (let tag = take max_tag_len (py_lower (py_strip (py_str rep item)));
          seen' = (if tag \<noteq> [] \<and> tag \<notin> set seen then seen @ [tag] else seen)
      in if max_tags \<le> length seen' then seen' else normalize_loop rep raw seen')"

definition normalize_tags :: "(pyval \<Rightarrow> string) \<Rightarrow> pyval list \<Rightarrow> string list" where
  "normalize_tags rep raw = normalize_loop rep raw []"

definition parse_json_array :: "(string \<Rightarrow> exn + pyval) \<Rightarrow> string \<Rightarrow> exn + pyval list" where
  "parse_json_array json_loads content =
     (let t0 = py_strip content;
          text = (if startswith t0 ''```''
                  then (let t1 = strip_by (\<lambda>c. c = CHR ''`'') t0
                        in case find_char CHR ''['' t1 of None \<Rightarrow> t1 | Some i \<Rightarrow> drop i t1)
                  else t0)
      in case (find_char CHR ''['' text, rfind_char CHR '']'' text) of
           (Some i, Some j) \<Rightarrow> res_bind (json_loads (drop i (take (j + 1) text))) py_iter
         | _ \<Rightarrow> Inr [])"

definition default_params :: chat_params where
  "default_params = \<lparr>cp_temperature = 2 / 10, cp_max_tokens = None, cp_json_object = False\<rparr>"

definition generate_tags ::
    "settings \<Rightarrow> 'w provider \<Rightarrow> (string \<Rightarrow> exn + pyval) \<Rightarrow> (pyval \<Rightarrow> string) \<Rightarrow> string \<Rightarrow> uuid \<Rightarrow>
     'w gateway \<Rightarrow> string list \<times> 'w gateway" where
  "generate_tags cfg pv json_loads rep text ws gw =
     (if py_strip text = [] then ([], gw)
      else case call_llm cfg pv [(''system'', tag_prompt), (''user'', take tag_head_chars text)]
                  default_params ws ''tagging'' None None gw of
             (Inl e, gw') \<Rightarrow> ([], gw')
           | (Inr result, gw') \<Rightarrow>
               ((case parse_json_array json_loads (lr_content result) of
                   Inl e \<Rightarrow> []
                 | Inr raw \<Rightarrow> normalize_tags rep raw), gw'))"

subsection \<open>Entities and relations\<close>

definition entity_types :: "string list" where
  "entity_types = [''PERSON'', ''ORGANIZATION'', ''PROJECT'', ''DOCUMENT'', ''PRODUCT'', ''DATE'', ''INDUSTRY'']"

definition relation_types :: "string list" where
  "relation_types = [''MENTIONS'', ''AUTHORED_BY'', ''BELONGS_TO'', ''REFERENCES'']"

definition ner_head_chars :: nat where "ner_head_chars = 24000"

definition ner_prompt :: string where
  \<open>ner_prompt = ''Extract named entities and relationships from the document. '' @
     ''Entity types: '' @ py_join '', '' entity_types @ ''. '' @
     ''Relationship types: '' @ py_join '', '' relation_types @ ''. '' @
     ''Return ONLY JSON: {"entities":[{"name":..,"type":..}],'' @
     ''"relationships":[{"source":..,"target":..,"type":..,"confidence":0-1}]}. '' @
     ''Use the exact type strings above.''\<close>

record entity =
  en_canonical_name :: string
  en_entity_type :: string

record relation =
  rl_source :: string
  rl_target :: string
  rl_rel_type :: string
  rl_confidence :: rat

definition ner_parse :: "(string \<Rightarrow> exn + pyval) \<Rightarrow> string \<Rightarrow> exn + pyval" where
  "ner_parse json_loads content =
     (let t0 = py_strip content;
          text = (if startswith t0 ''```'' then strip_by (\<lambda>c. c = CHR ''`'') t0 else t0)
      in case (find_char CHR ''{'' text, rfind_char CHR ''}'' text) of
           (Some i, Some j) \<Rightarrow> json_loads (drop i (take (j + 1) text))
         | _ \<Rightarrow> Inr (PDict []))"

definition norm_type :: "(pyval \<Rightarrow> string) \<Rightarrow> pyval \<Rightarrow> string" where
  "norm_type rep v = py_upper (py_strip (py_str rep v))"

definition read_entity :: "(pyval \<Rightarrow> string) \<Rightarrow> pyval \<Rightarrow> exn + entity option" where
  "read_entity rep e =
     res_bind (py_get ''name'' PNone e) (\<lambda>name.
     if \<not> py_truthy name then Inr None else
     res_bind (py_get ''type'' (PStr []) e) (\<lambda>ty.
     if norm_type rep ty \<notin> set entity_types then Inr None
     else Inr (Some \<lparr>en_canonical_name = py_strip (py_str rep name),
                     en_entity_type = norm_type rep ty\<rparr>)))"

text \<open>\<open>py_float\<close> is the constructor \<open>float\<close>, which may raise.\<close>

definition read_relation ::
    "(pyval \<Rightarrow> string) \<Rightarrow> (pyval \<Rightarrow> exn + rat) \<Rightarrow> pyval \<Rightarrow> exn + relation option" where
  "read_relation rep py_float r =
     res_bind (py_get ''source'' PNone r) (\<lambda>src.
     if \<not> py_truthy src then Inr None else
     res_bind (py_get ''target'' PNone r) (\<lambda>tgt.
     if \<not> py_truthy tgt then Inr None else
     res_bind (py_get ''type'' (PStr []) r) (\<lambda>ty.
     if norm_type rep ty \<notin> set relation_types then Inr None else
     res_bind (py_get ''confidence'' (PFloat (1 / 2)) r) (\<lambda>conf.
     res_bind (py_float conf) (\<lambda>x.
     Inr (Some \<lparr>rl_source = py_strip (py_str rep src), rl_target = py_strip (py_str rep tgt),
                rl_rel_type = norm_type rep ty, rl_confidence = x\<rparr>))))))"

definition read_extraction ::
    "(pyval \<Rightarrow> string) \<Rightarrow> (pyval \<Rightarrow> exn + rat) \<Rightarrow> pyval \<Rightarrow> exn + entity list \<times> relation list" where
  "read_extraction rep py_float data =
     res_bind (py_get ''entities'' (PList []) data) (\<lambda>es.
     res_bind (py_iter es) (\<lambda>es.
     res_bind (collect (read_entity rep) es) (\<lambda>entities.
     res_bind (py_get ''relationships'' (PList []) data) (\<lambda>rs.
     res_bind (py_iter rs) (\<lambda>rs.
     res_bind (collect (read_relation rep py_float) rs) (\<lambda>relations.
     Inr (entities, relations)))))))"

definition ner_extract ::
    "settings \<Rightarrow> 'w provider \<Rightarrow> (string \<Rightarrow> exn + pyval) \<Rightarrow> (pyval \<Rightarrow> string) \<Rightarrow> (pyval \<Rightarrow> exn + rat) \<Rightarrow>
     string \<Rightarrow> uuid \<Rightarrow> 'w gateway \<Rightarrow> (entity list \<times> relation list) \<times> 'w gateway" where
  "ner_extract cfg pv json_loads rep py_float text ws gw =
     (if py_strip text = [] then (([], []), gw)
      else case call_llm cfg pv [(''system'', ner_prompt), (''user'', take ner_head_chars text)]
                  default_params ws ''ner'' None None gw of
             (Inl e, gw') \<Rightarrow> (([], []), gw')
           | (Inr result, gw') \<Rightarrow>
               ((case res_bind (ner_parse json_loads (lr_content result)) (read_extraction rep py_float) of
                   Inl e \<Rightarrow> ([], [])
                 | Inr er \<Rightarrow> er), gw'))"

subsection \<open>What the extractors return\<close>

lemma res_bind_Inr: "res_bind r f = Inr y \<longleftrightarrow> (\<exists>x. r = Inr x \<and> f x = Inr y)"
  by (cases r) auto

lemma collect_props:
  "collect f xs = Inr ys \<Longrightarrow> (\<And>x z. f x = Inr (Some z) \<Longrightarrow> P z) \<Longrightarrow> y \<in> set ys \<Longrightarrow> P y"
  by (induction xs arbitrary: ys) (auto simp: res_bind_Inr split: option.splits)

definition tags_wf :: "string list \<Rightarrow> bool" where
  "tags_wf tags \<longleftrightarrow> length tags \<le> max_tags \<and> distinct tags \<and>
     (\<forall>t \<in> set tags. t \<noteq> [] \<and> length t \<le> max_tag_len \<and> py_lower t = t)"



lemma normalize_loop_wf:
  "tags_wf seen \<Longrightarrow> length seen < max_tags \<Longrightarrow> tags_wf (normalize_loop rep raw seen)"
proof (induction raw arbitrary: seen)
  case (Cons item raw)
  let ?tag = "take max_tag_len (py_lower (py_strip (py_str rep item)))"
  let ?seen' = "if ?tag \<noteq> [] \<and> ?tag \<notin> set seen then seen @ [?tag] else seen"
  have "py_lower ?tag = ?tag" by (simp add: py_lower_def take_map [symmetric] comp_def)
  then have wf: "tags_wf ?seen'"
    using Cons.prems unfolding tags_wf_def by (auto simp: Suc_le_eq)
  show ?case
  proof (cases "max_tags \<le> length ?seen'")
    case True
    then show ?thesis using wf by (simp add: Let_def)
  next
    case False
    then show ?thesis using wf Cons.IH [of ?seen'] by (simp add: Let_def)
  qed
qed simp

lemma read_entity_type: "read_entity rep e = Inr (Some x) \<Longrightarrow> en_entity_type x \<in> set entity_types"
  by (auto simp: read_entity_def res_bind_Inr split: if_splits)

lemma read_relation_type:
  "read_relation rep py_float r = Inr (Some x) \<Longrightarrow> rl_rel_type x \<in> set relation_types"
  by (auto simp: read_relation_def res_bind_Inr split: if_splits)

lemma read_extraction_types:
  assumes "read_extraction rep py_float data = Inr (es, rs)"
  shows "\<forall>e \<in> set es. en_entity_type e \<in> set entity_types"
    "\<forall>r \<in> set rs. rl_rel_type r \<in> set relation_types"
  using assms collect_props [where f = "read_entity rep", OF _ read_entity_type]
    collect_props [where f = "read_relation rep py_float", OF _ read_relation_type]
  by (fastforce simp: read_extraction_def res_bind_Inr)+

text \<open>
  C9: Whatever the model answers, tagging and entity extraction give well-formed results and
  nothing else: at most 20 distinct tags, none empty, none over 50 characters, all in lower case;
  entities and relations of the configured types only. On blank text they return empty results and
  leave the gateway untouched; otherwise they try at most one usage row each.
\<close>

theorem extraction_well_formed:
  "(case generate_tags cfg pv json_loads rep text ws gw of (tags, gw') \<Rightarrow>
      tags_wf tags \<and> gw_writes gw \<le> gw_writes gw' \<and> gw_writes gw' \<le> gw_writes gw + 1) \<and>
   (case ner_extract cfg pv json_loads rep py_float text ws gw of ((es, rs), gw') \<Rightarrow>
      (list_all (\<lambda>e. en_entity_type e \<in> set entity_types) es \<and>
       list_all (\<lambda>r. rl_rel_type r \<in> set relation_types) rs) \<and>
      gw_writes gw \<le> gw_writes gw' \<and> gw_writes gw' \<le> gw_writes gw + 1) \<and>
   (if py_strip text = []
    then generate_tags cfg pv json_loads rep text ws gw = ([], gw) \<and>
         ner_extract cfg pv json_loads rep py_float text ws gw = (([], []), gw)
    else True)"
proof (intro conjI)
  have tags: "tags_wf []" "tags_wf (normalize_tags rep raw)" for raw
    using normalize_loop_wf [of "[]" rep raw]
    by (simp_all add: normalize_tags_def tags_wf_def max_tags_def)
  show "case generate_tags cfg pv json_loads rep text ws gw of (tags, gw') \<Rightarrow>
      tags_wf tags \<and> gw_writes gw \<le> gw_writes gw' \<and> gw_writes gw' \<le> gw_writes gw + 1"
    by (auto simp: generate_tags_def tags dest: call_llm_writes split: prod.splits sum.splits)
  have types: "list_all (\<lambda>e. en_entity_type e \<in> set entity_types) es \<and>
      list_all (\<lambda>r. rl_rel_type r \<in> set relation_types) rs"
    if "res_bind m (read_extraction rep py_float) = Inr (es, rs)" for m es rs
    using that read_extraction_types [of rep py_float] by (auto simp: list_all_iff res_bind_Inr)
  show "case ner_extract cfg pv json_loads rep py_float text ws gw of ((es, rs), gw') \<Rightarrow>
      (list_all (\<lambda>e. en_entity_type e \<in> set entity_types) es \<and>
       list_all (\<lambda>r. rl_rel_type r \<in> set relation_types) rs) \<and>
      gw_writes gw \<le> gw_writes gw' \<and> gw_writes gw' \<le> gw_writes gw + 1"
    by (auto simp: ner_extract_def dest: call_llm_writes types split: prod.splits sum.splits)
  show "if py_strip text = []
    then generate_tags cfg pv json_loads rep text ws gw = ([], gw) \<and>
         ner_extract cfg pv json_loads rep py_float text ws gw = (([], []), gw)
    else True"
    by (simp add: generate_tags_def ner_extract_def)
qed

end
