(* ===== verification/Graph_Store.thy ===== *)
theory Graph_Store
  imports AI_Extract
begin

text \<open>
  The Neo4j adapter (\<^verbatim>\<open>app/stores/graph_store.py\<close>): the graph its Cypher statements build, with
  \<open>MERGE\<close> as update-or-create on the key it names. Every statement commits by itself; the argument
  \<open>up\<close> says which statements the server answers, and the first one it does not ends the operation.
\<close>

record graph_document =
  gd_ws :: string
  gd_id :: string
  gd_name :: "string option"
  gd_tags :: "string list"
  gd_source_type :: "string option"

record graph_entity =
  ge_ws :: string
  ge_type :: string
  ge_name :: string

record mention =
  gm_ws :: string
  gm_doc :: string
  gm_entity :: graph_entity
  gm_chunk :: "string option"
  gm_confidence :: rat

record graph_relation =
  gr_from :: graph_entity
  gr_to :: graph_entity
  gr_type :: string
  gr_doc :: string
  gr_confidence :: rat

record graph =
  g_documents :: "graph_document list"
  g_entities :: "graph_entity list"
  g_mentions :: "mention list"
  g_relations :: "graph_relation list"

definition empty_graph :: graph where
  "empty_graph = \<lparr>g_documents = [], g_entities = [], g_mentions = [], g_relations = []\<rparr>"

subsection \<open>Statements\<close>

definition merge_document ::
    "string \<Rightarrow> string \<Rightarrow> string option \<Rightarrow> string list \<Rightarrow> string option \<Rightarrow> graph \<Rightarrow> graph" where
  "merge_document ws doc name tags src g =
     g\<lparr>g_documents := merge_row (\<lambda>d. gd_ws d = ws \<and> gd_id d = doc)
         (\<lambda>d. d\<lparr>gd_name := name, gd_tags := tags, gd_source_type := src\<rparr>)
         \<lparr>gd_ws = ws, gd_id = doc, gd_name = name, gd_tags = tags, gd_source_type = src\<rparr>
         (g_documents g)\<rparr>"

definition merge_entity :: "graph_entity \<Rightarrow> graph \<Rightarrow> graph" where
  "merge_entity e g = g\<lparr>g_entities := merge_row (\<lambda>x. x = e) id e (g_entities g)\<rparr>"

text \<open>\<open>MATCH\<close> on the document: without one, the statement does nothing.\<close>

definition merge_mention :: "string \<Rightarrow> string \<Rightarrow> entity \<Rightarrow> string option \<Rightarrow> graph \<Rightarrow> graph" where
  "merge_mention ws doc e chunk g =
     (if \<exists>d \<in> set (g_documents g). gd_ws d = ws \<and> gd_id d = doc
      then
        let x = \<lparr>ge_ws = ws, ge_type = en_entity_type e, ge_name = en_canonical_name e\<rparr>;
            g1 = merge_entity x g
        in g1\<lparr>g_mentions := merge_row (\<lambda>m. gm_ws m = ws \<and> gm_doc m = doc \<and> gm_entity m = x)
                (\<lambda>m. m\<lparr>gm_chunk := chunk\<rparr>)
                \<lparr>gm_ws = ws, gm_doc = doc, gm_entity = x, gm_chunk = chunk, gm_confidence = 1\<rparr>
                (g_mentions g1)\<rparr>
      else g)"

definition merge_relation ::
    "string \<Rightarrow> string \<Rightarrow> string \<Rightarrow> string \<Rightarrow> relation \<Rightarrow> graph \<Rightarrow> graph" where
  "merge_relation ws doc src_type tgt_type rel g =
     (let a = \<lparr>ge_ws = ws, ge_type = src_type, ge_name = rl_source rel\<rparr>;
          b = \<lparr>ge_ws = ws, ge_type = tgt_type, ge_name = rl_target rel\<rparr>;
          g1 = merge_entity b (merge_entity a g)
      in g1\<lparr>g_relations := merge_row
              (\<lambda>r. gr_from r = a \<and> gr_to r = b \<and> gr_type r = rl_rel_type rel)
              (\<lambda>r. r\<lparr>gr_doc := doc, gr_confidence := rl_confidence rel\<rparr>)
              \<lparr>gr_from = a, gr_to = b, gr_type = rl_rel_type rel, gr_doc = doc,
               gr_confidence = rl_confidence rel\<rparr>
              (g_relations g1)\<rparr>)"

subsection \<open>Operations\<close>

fun run_statements :: "(nat \<Rightarrow> bool) \<Rightarrow> nat \<Rightarrow> (graph \<Rightarrow> graph) list \<Rightarrow> graph \<Rightarrow> graph" where
  "run_statements up n [] g = g"
| "run_statements up n (s # ss) g = (if up n then run_statements up (n + 1) ss (s g) else g)"

text \<open>A relation is linked when both of its ends were extracted as entities.\<close>

definition relation_statements ::
    "string \<Rightarrow> string \<Rightarrow> entity list \<Rightarrow> relation list \<Rightarrow> (graph \<Rightarrow> graph) list" where
  "relation_statements ws doc entities relations =
     (let type_by_name = map_of (rev (map (\<lambda>e. (en_canonical_name e, en_entity_type e)) entities))
      in concat (map (\<lambda>rel.
           case (type_by_name (rl_source rel), type_by_name (rl_target rel)) of
             (Some st, Some tt) \<Rightarrow> [merge_relation ws doc st tt rel]
           | _ \<Rightarrow> []) relations))"

definition upsert_graph ::
    "(nat \<Rightarrow> bool) \<Rightarrow> uuid \<Rightarrow> uuid \<Rightarrow> entity list \<Rightarrow> relation list \<Rightarrow> uuid option \<Rightarrow> string option \<Rightarrow>
     string list option \<Rightarrow> string option \<Rightarrow> graph \<Rightarrow> graph" where
  "upsert_graph up workspace_id document_id entities relations default_chunk_id doc_name tags source_type g =
     (if entities = [] \<and> relations = [] then g
      else
        let ws = str_uuid workspace_id; doc = str_uuid document_id
        in run_statements up 0
             (merge_document ws doc doc_name (case tags of None \<Rightarrow> [] | Some t \<Rightarrow> t) source_type
              # map (\<lambda>e. merge_mention ws doc e (map_option str_uuid default_chunk_id)) entities
              @ relation_statements ws doc entities relations) g)"

definition find_document_ids_for_entities :: "bool \<Rightarrow> uuid \<Rightarrow> string list \<Rightarrow> graph \<Rightarrow> string list" where
  "find_document_ids_for_entities available workspace_id names g =
     (if names = [] then []
      else if \<not> available then []
      else filter (\<lambda>d. d \<noteq> []) (take 25 (remdups (map gm_doc
             (filter (\<lambda>m. gm_ws m = str_uuid workspace_id \<and> ge_name (gm_entity m) \<in> set names)
               (g_mentions g))))))"

subsection \<open>What a workspace sees of the graph\<close>

definition restrict_graph :: "string \<Rightarrow> graph \<Rightarrow> graph" where
  "restrict_graph ws g =
     \<lparr>g_documents = filter (\<lambda>d. gd_ws d = ws) (g_documents g),
      g_entities = filter (\<lambda>e. ge_ws e = ws) (g_entities g),
      g_mentions = filter (\<lambda>m. gm_ws m = ws) (g_mentions g),
      g_relations = filter (\<lambda>r. ge_ws (gr_from r) = ws) (g_relations g)\<rparr>"

text \<open>A statement of a workspace: it acts on that workspace's part and on no other.\<close>

definition ws_statement :: "string \<Rightarrow> (graph \<Rightarrow> graph) \<Rightarrow> bool" where
  "ws_statement ws s \<longleftrightarrow>
     (\<forall>g. restrict_graph ws (s g) = s (restrict_graph ws g)) \<and>
     (\<forall>w g. w \<noteq> ws \<longrightarrow> restrict_graph w (s g) = restrict_graph w g)"

lemma ws_merge_document: "ws_statement ws (merge_document ws doc name tags src)"
  by (auto simp: ws_statement_def restrict_graph_def merge_document_def
      intro!: merge_row_own merge_row_other)

lemma merge_entity_restrict:
  "restrict_graph (ge_ws e) (merge_entity e g) = merge_entity e (restrict_graph (ge_ws e) g)"
  "w \<noteq> ge_ws e \<Longrightarrow> restrict_graph w (merge_entity e g) = restrict_graph w g"
  by (auto simp: restrict_graph_def merge_entity_def intro!: merge_row_own merge_row_other)

lemma merge_entity_simps [simp]:
  "g_documents (merge_entity e g) = g_documents g"
  "g_mentions (merge_entity e g) = g_mentions g"
  "g_relations (merge_entity e g) = g_relations g"
  "set (g_entities (merge_entity e g)) = insert e (set (g_entities g))"
  by (auto simp: merge_entity_def merge_row_def set_rows_def)

lemma restrict_update:
  "restrict_graph w (g\<lparr>g_mentions := ms\<rparr>) = (restrict_graph w g)\<lparr>g_mentions := filter (\<lambda>m. gm_ws m = w) ms\<rparr>"
  "restrict_graph w (g\<lparr>g_relations := rs\<rparr>)
     = (restrict_graph w g)\<lparr>g_relations := filter (\<lambda>r. ge_ws (gr_from r) = w) rs\<rparr>"
  "g_mentions (restrict_graph w g) = filter (\<lambda>m. gm_ws m = w) (g_mentions g)"
  "g_relations (restrict_graph w g) = filter (\<lambda>r. ge_ws (gr_from r) = w) (g_relations g)"
  "g_documents (restrict_graph w g) = filter (\<lambda>d. gd_ws d = w) (g_documents g)"
  by (simp_all add: restrict_graph_def)

lemma ws_merge_mention: "ws_statement ws (merge_mention ws doc e chunk)"
  unfolding ws_statement_def
proof (intro conjI allI impI)
  let ?x = "\<lparr>ge_ws = ws, ge_type = en_entity_type e, ge_name = en_canonical_name e\<rparr>"
  let ?P = "\<lambda>m. gm_ws m = ws \<and> gm_doc m = doc \<and> gm_entity m = ?x"
  let ?m = "\<lparr>gm_ws = ws, gm_doc = doc, gm_entity = ?x, gm_chunk = chunk, gm_confidence = 1\<rparr>"
  show "restrict_graph ws (merge_mention ws doc e chunk g) = merge_mention ws doc e chunk (restrict_graph ws g)" for g
    using merge_entity_restrict(1) [of ?x g]
      merge_row_own [of ?P "\<lambda>m. gm_ws m = ws" "\<lambda>m. m\<lparr>gm_chunk := chunk\<rparr>" ?m "g_mentions g"]
    by (auto simp: merge_mention_def restrict_update Let_def)
  show "restrict_graph w (merge_mention ws doc e chunk g) = restrict_graph w g" if "w \<noteq> ws" for w g
    using merge_entity_restrict(2) [of w ?x g] that
      merge_row_other [of ?P "\<lambda>m. gm_ws m = w" "\<lambda>m. m\<lparr>gm_chunk := chunk\<rparr>" ?m "g_mentions g"]
    by (auto simp: merge_mention_def restrict_update Let_def)
qed

lemma ws_merge_relation: "ws_statement ws (merge_relation ws doc st tt rel)"
  unfolding ws_statement_def
proof (intro conjI allI impI)
  let ?a = "\<lparr>ge_ws = ws, ge_type = st, ge_name = rl_source rel\<rparr>"
  let ?b = "\<lparr>ge_ws = ws, ge_type = tt, ge_name = rl_target rel\<rparr>"
  let ?P = "\<lambda>r. gr_from r = ?a \<and> gr_to r = ?b \<and> gr_type r = rl_rel_type rel"
  let ?f = "\<lambda>r. r\<lparr>gr_doc := doc, gr_confidence := rl_confidence rel\<rparr>"
  let ?r = "\<lparr>gr_from = ?a, gr_to = ?b, gr_type = rl_rel_type rel, gr_doc = doc,
      gr_confidence = rl_confidence rel\<rparr>"
  show "restrict_graph ws (merge_relation ws doc st tt rel g) = merge_relation ws doc st tt rel (restrict_graph ws g)" for g
    using merge_entity_restrict(1) [of ?a g] merge_entity_restrict(1) [of ?b "merge_entity ?a g"]
      merge_row_own [of ?P "\<lambda>r. ge_ws (gr_from r) = ws" ?f ?r "g_relations g"]
    by (auto simp: merge_relation_def restrict_update Let_def)
  show "restrict_graph w (merge_relation ws doc st tt rel g) = restrict_graph w g" if "w \<noteq> ws" for w g
    using merge_entity_restrict(2) [of w ?a g] merge_entity_restrict(2) [of w ?b "merge_entity ?a g"] that
      merge_row_other [of ?P "\<lambda>r. ge_ws (gr_from r) = w" ?f ?r "g_relations g"]
    by (auto simp: merge_relation_def restrict_update Let_def)
qed

lemma run_statements_restrict:
  assumes "\<forall>s \<in> set ss. ws_statement ws s"
  shows "restrict_graph ws (run_statements up n ss g) = run_statements up n ss (restrict_graph ws g)"
    and "w \<noteq> ws \<Longrightarrow> restrict_graph w (run_statements up n ss g) = restrict_graph w g"
  using assms by (induction ss arbitrary: n g) (auto simp: ws_statement_def)

record graph_op =
  go_up :: "nat \<Rightarrow> bool"
  go_ws :: uuid
  go_doc :: uuid
  go_entities :: "entity list"
  go_relations :: "relation list"
  go_chunk :: "uuid option"
  go_name :: "string option"
  go_tags :: "string list option"
  go_source :: "string option"

definition graph_step :: "graph \<Rightarrow> graph_op \<Rightarrow> graph" where
  "graph_step g x = upsert_graph (go_up x) (go_ws x) (go_doc x) (go_entities x) (go_relations x)
     (go_chunk x) (go_name x) (go_tags x) (go_source x) g"

definition upsert_statements :: "graph_op \<Rightarrow> (graph \<Rightarrow> graph) list" where
  "upsert_statements x =
     (if go_entities x = [] \<and> go_relations x = [] then []
      else merge_document (str_uuid (go_ws x)) (str_uuid (go_doc x)) (go_name x)
             (case go_tags x of None \<Rightarrow> [] | Some t \<Rightarrow> t) (go_source x)
           # map (\<lambda>e. merge_mention (str_uuid (go_ws x)) (str_uuid (go_doc x)) e
                    (map_option str_uuid (go_chunk x))) (go_entities x)
           @ relation_statements (str_uuid (go_ws x)) (str_uuid (go_doc x)) (go_entities x) (go_relations x))"

lemma graph_step_statements: "graph_step g x = run_statements (go_up x) 0 (upsert_statements x) g"
  by (simp add: graph_step_def upsert_graph_def upsert_statements_def Let_def)

lemma set_relation_statements:
  "s \<in> set (relation_statements ws doc es rs) \<Longrightarrow> \<exists>st tt rel. s = merge_relation ws doc st tt rel"
  by (auto simp: relation_statements_def Let_def split: option.splits)

lemma upsert_statements_cases:
  assumes "s \<in> set (upsert_statements x)"
  obtains name tags src where "s = merge_document (str_uuid (go_ws x)) (str_uuid (go_doc x)) name tags src"
  | e c where "s = merge_mention (str_uuid (go_ws x)) (str_uuid (go_doc x)) e c"
  | st tt rel where "s = merge_relation (str_uuid (go_ws x)) (str_uuid (go_doc x)) st tt rel"
proof -
  let ?w = "str_uuid (go_ws x)" and ?d = "str_uuid (go_doc x)"
  from assms have "(\<exists>name tags src. s = merge_document ?w ?d name tags src) \<or>
      (\<exists>e c. s = merge_mention ?w ?d e c) \<or> s \<in> set (relation_statements ?w ?d (go_entities x) (go_relations x))"
    unfolding upsert_statements_def by (simp split: if_splits) blast
  then show thesis using that set_relation_statements [of s ?w ?d] by metis
qed

lemma upsert_statements_ws: "s \<in> set (upsert_statements x) \<Longrightarrow> ws_statement (str_uuid (go_ws x)) s"
  by (erule upsert_statements_cases) (auto simp: ws_merge_document ws_merge_mention ws_merge_relation)

interpretation graph: tenant_scoped graph_step go_ws "\<lambda>ws. restrict_graph (str_uuid ws)"
proof unfold_locales
  fix x ws g g'
  have st: "\<forall>s \<in> set (upsert_statements x). ws_statement (str_uuid (go_ws x)) s"
    using upsert_statements_ws by blast
  show "go_ws x \<noteq> ws \<Longrightarrow> restrict_graph (str_uuid ws) (graph_step g x) = restrict_graph (str_uuid ws) g"
    unfolding graph_step_statements by (rule run_statements_restrict(2) [OF st]) simp
  show "go_ws x = ws \<Longrightarrow> restrict_graph (str_uuid ws) g = restrict_graph (str_uuid ws) g' \<Longrightarrow>
      restrict_graph (str_uuid ws) (graph_step g x) = restrict_graph (str_uuid ws) (graph_step g' x)"
    unfolding graph_step_statements using run_statements_restrict(1) [OF st] by auto
qed

text \<open>
  C10: The graph is tenant-isolated: after any sequence of upserts of any workspaces, with any
  server failures, what a workspace sees, and so every entity lookup it makes, is what it would
  see had only its own upserts run.
\<close>

theorem graph_isolated:
  "restrict_graph (str_uuid ws) (foldl graph_step g xs)
     = restrict_graph (str_uuid ws) (foldl graph_step g (filter (\<lambda>x. go_ws x = ws) xs)) \<and>
   find_document_ids_for_entities up ws names (foldl graph_step g xs)
     = find_document_ids_for_entities up ws names (foldl graph_step g (filter (\<lambda>x. go_ws x = ws) xs))"
proof -
  have "find_document_ids_for_entities up ws names g
      = find_document_ids_for_entities up ws names (restrict_graph (str_uuid ws) g)" for g
    by (simp add: find_document_ids_for_entities_def restrict_graph_def conj_commute)
  then show ?thesis using graph.run_isolated [of ws g xs] by metis
qed

subsection \<open>Integrity of the graph\<close>

text \<open>
  Nodes and edges are unique on their merge keys, and no edge dangles or crosses workspaces.
\<close>

definition mention_ok :: "graph \<Rightarrow> mention \<Rightarrow> bool" where
  "mention_ok g m \<longleftrightarrow> gm_entity m \<in> set (g_entities g) \<and> ge_ws (gm_entity m) = gm_ws m \<and>
     (gm_ws m, gm_doc m) \<in> (\<lambda>d. (gd_ws d, gd_id d)) ` set (g_documents g)"

definition relation_ok :: "graph \<Rightarrow> graph_relation \<Rightarrow> bool" where
  "relation_ok g r \<longleftrightarrow> gr_from r \<in> set (g_entities g) \<and> gr_to r \<in> set (g_entities g) \<and>
     ge_ws (gr_from r) = ge_ws (gr_to r)"

definition graph_ok :: "graph \<Rightarrow> bool" where
  "graph_ok g \<longleftrightarrow>
     distinct (map (\<lambda>d. (gd_ws d, gd_id d)) (g_documents g)) \<and>
     distinct (g_entities g) \<and>
     distinct (map (\<lambda>m. (gm_ws m, gm_doc m, gm_entity m)) (g_mentions g)) \<and>
     distinct (map (\<lambda>r. (gr_from r, gr_to r, gr_type r)) (g_relations g)) \<and>
     list_all (mention_ok g) (g_mentions g) \<and> list_all (relation_ok g) (g_relations g)"

lemma keys_merge_row:
  assumes "\<And>x. P x \<longleftrightarrow> key x = key r" and "\<And>x. key (f x) = key x"
  shows "key ` set (merge_row P f r rows) = insert (key r) (key ` set rows)"
proof -
  have "key ` set (set_rows P f rows) = key ` set rows"
    using arg_cong [OF set_rows_key [of key f P rows], of set] assms(2) by simp
  then show ?thesis using assms(1) by (auto simp: merge_row_def image_iff) metis
qed

lemma doc_keys_merge_document:
  "(\<lambda>d. (gd_ws d, gd_id d)) ` set (g_documents (merge_document ws doc name tags src g))
     = insert (ws, doc) ((\<lambda>d. (gd_ws d, gd_id d)) ` set (g_documents g))"
  by (simp add: merge_document_def, subst keys_merge_row) auto

lemma merge_document_simps [simp]:
  "g_entities (merge_document ws doc name tags src g) = g_entities g"
  "g_mentions (merge_document ws doc name tags src g) = g_mentions g"
  "g_relations (merge_document ws doc name tags src g) = g_relations g"
  by (simp_all add: merge_document_def)

lemma merge_document_ok [inv_intros]: "graph_ok g \<Longrightarrow> graph_ok (merge_document ws doc name tags src g)"
proof -
  assume ok: "graph_ok g"
  have "distinct (map (\<lambda>d. (gd_ws d, gd_id d)) (g_documents (merge_document ws doc name tags src g)))"
    unfolding merge_document_def using ok
    by (auto intro!: distinct_merge_row simp: graph_ok_def)
  then show ?thesis
    using ok by (auto simp: graph_ok_def list_all_iff mention_ok_def relation_ok_def doc_keys_merge_document)
qed

lemma merge_entity_ok [inv_intros]: "graph_ok g \<Longrightarrow> graph_ok (merge_entity e g)"
proof -
  assume ok: "graph_ok g"
  have "distinct (map id (merge_row (\<lambda>x. x = e) id e (g_entities g)))"
    by (rule distinct_merge_row) (use ok in \<open>auto simp: graph_ok_def\<close>)
  then have "distinct (g_entities (merge_entity e g))" by (simp add: merge_entity_def)
  then show ?thesis
    using ok by (auto simp: graph_ok_def list_all_iff mention_ok_def relation_ok_def)
qed

lemma merge_mention_ok [inv_intros]: "graph_ok g \<Longrightarrow> graph_ok (merge_mention ws doc e chunk g)"
proof (cases "\<exists>d \<in> set (g_documents g). gd_ws d = ws \<and> gd_id d = doc")
  case True
  assume ok: "graph_ok g"
  let ?x = "\<lparr>ge_ws = ws, ge_type = en_entity_type e, ge_name = en_canonical_name e\<rparr>"
  let ?P = "\<lambda>m. gm_ws m = ws \<and> gm_doc m = doc \<and> gm_entity m = ?x"
  let ?m = "\<lparr>gm_ws = ws, gm_doc = doc, gm_entity = ?x, gm_chunk = chunk, gm_confidence = 1\<rparr>"
  let ?f = "\<lambda>m. m\<lparr>gm_chunk := chunk\<rparr>" and ?g1 = "merge_entity ?x g"
  have ok1: "graph_ok ?g1" by (rule merge_entity_ok [OF ok])
  have "distinct (map (\<lambda>m. (gm_ws m, gm_doc m, gm_entity m)) (merge_row ?P ?f ?m (g_mentions ?g1)))"
    by (rule distinct_merge_row) (use ok1 in \<open>auto simp: graph_ok_def\<close>)
  moreover have "list_all (mention_ok ?g1) (merge_row ?P ?f ?m (g_mentions ?g1))"
    using ok1 True set_merge_row [of _ ?P ?f ?m "g_mentions ?g1"]
    by (fastforce simp: graph_ok_def list_all_iff mention_ok_def)
  ultimately show ?thesis
    using ok1 True by (simp add: graph_ok_def merge_mention_def Let_def mention_ok_def relation_ok_def cong: list.pred_cong)
next
  case False
  then show "graph_ok g \<Longrightarrow> ?thesis" unfolding merge_mention_def by (subst if_not_P)
qed

lemma merge_relation_ok [inv_intros]: "graph_ok g \<Longrightarrow> graph_ok (merge_relation ws doc st tt rel g)"
proof -
  assume ok: "graph_ok g"
  let ?a = "\<lparr>ge_ws = ws, ge_type = st, ge_name = rl_source rel\<rparr>"
  let ?b = "\<lparr>ge_ws = ws, ge_type = tt, ge_name = rl_target rel\<rparr>"
  let ?P = "\<lambda>r. gr_from r = ?a \<and> gr_to r = ?b \<and> gr_type r = rl_rel_type rel"
  let ?f = "\<lambda>r. r\<lparr>gr_doc := doc, gr_confidence := rl_confidence rel\<rparr>"
  let ?r = "\<lparr>gr_from = ?a, gr_to = ?b, gr_type = rl_rel_type rel, gr_doc = doc,
      gr_confidence = rl_confidence rel\<rparr>"
  let ?g1 = "merge_entity ?b (merge_entity ?a g)"
  have ok1: "graph_ok ?g1" by (intro merge_entity_ok ok)
  have "distinct (map (\<lambda>r. (gr_from r, gr_to r, gr_type r)) (merge_row ?P ?f ?r (g_relations ?g1)))"
    by (rule distinct_merge_row) (use ok1 in \<open>auto simp: graph_ok_def\<close>)
  moreover have "list_all (relation_ok ?g1) (merge_row ?P ?f ?r (g_relations ?g1))"
    using ok1 set_merge_row [of _ ?P ?f ?r "g_relations ?g1"]
    by (fastforce simp: graph_ok_def list_all_iff relation_ok_def)
  ultimately show ?thesis
    using ok1 by (simp add: graph_ok_def merge_relation_def Let_def mention_ok_def relation_ok_def cong: list.pred_cong)
qed

lemma run_statements_ok:
  "(\<And>s g. s \<in> set ss \<Longrightarrow> graph_ok g \<Longrightarrow> graph_ok (s g)) \<Longrightarrow> graph_ok g \<Longrightarrow> graph_ok (run_statements up n ss g)"
  by (induction ss arbitrary: n g) auto

interpretation graph_inv: guarded_steps graph_step graph_ok
proof unfold_locales
  fix g x
  assume "graph_ok g"
  then show "graph_ok (graph_step g x)"
    unfolding graph_step_statements
    by (rule run_statements_ok [rotated]) (erule upsert_statements_cases, auto intro: inv_intros)
qed

text \<open>
  C11: However upserts are interleaved and wherever the server fails, the graph stays sound:
  documents, entities, mentions and relations are unique on their merge keys (so the uniqueness
  constraint of \<open>ensure_constraints\<close> never fires), no edge dangles, and no edge joins two
  workspaces.
\<close>

theorem graph_integrity: "graph_ok (foldl graph_step empty_graph xs)"
  by (rule graph_inv.run_inv) (simp add: graph_ok_def empty_graph_def)

subsection \<open>Lookup\<close>

definition mention_keys :: "graph \<Rightarrow> (string \<times> string \<times> graph_entity) set" where
  "mention_keys g = (\<lambda>m. (gm_ws m, gm_doc m, gm_entity m)) ` set (g_mentions g)"

definition document_keys :: "graph \<Rightarrow> (string \<times> string) set" where
  "document_keys g = (\<lambda>d. (gd_ws d, gd_id d)) ` set (g_documents g)"

lemma document_keys_steps [simp]:
  "document_keys (merge_document ws doc name tags src g) = insert (ws, doc) (document_keys g)"
  "document_keys (merge_mention ws doc e chunk g) = document_keys g"
  "document_keys (merge_relation ws doc st tt rel g) = document_keys g"
  by (simp_all add: document_keys_def doc_keys_merge_document merge_mention_def merge_relation_def Let_def)

lemma mention_keys_steps [simp]:
  "mention_keys (merge_document ws doc name tags src g) = mention_keys g"
  "mention_keys (merge_relation ws doc st tt rel g) = mention_keys g"
  "(ws, doc) \<in> document_keys g \<Longrightarrow> mention_keys (merge_mention ws doc e chunk g)
     = insert (ws, doc, \<lparr>ge_ws = ws, ge_type = en_entity_type e, ge_name = en_canonical_name e\<rparr>)
         (mention_keys g)"
proof -
  show "mention_keys (merge_document ws doc name tags src g) = mention_keys g"
    "mention_keys (merge_relation ws doc st tt rel g) = mention_keys g"
    by (simp_all add: mention_keys_def merge_relation_def Let_def)
  assume "(ws, doc) \<in> document_keys g"
  then have "\<exists>d \<in> set (g_documents g). gd_ws d = ws \<and> gd_id d = doc" by (auto simp: document_keys_def)
  then show "mention_keys (merge_mention ws doc e chunk g)
     = insert (ws, doc, \<lparr>ge_ws = ws, ge_type = en_entity_type e, ge_name = en_canonical_name e\<rparr>)
         (mention_keys g)"
    unfolding mention_keys_def merge_mention_def Let_def
    by (simp, subst keys_merge_row) auto
qed

lemma run_all: "run_statements (\<lambda>_. True) n ss g = foldl (\<lambda>g s. s g) g ss"
  by (induction ss arbitrary: n g) auto

lemma merge_mention_mono: "mention_keys g \<subseteq> mention_keys (merge_mention ws doc e chunk g)"
  unfolding mention_keys_def merge_mention_def Let_def
  by (simp, intro impI, subst keys_merge_row) auto

lemma run_mono:
  "\<forall>s \<in> set ss. \<forall>g. mention_keys g \<subseteq> mention_keys (s g) \<and> document_keys g \<subseteq> document_keys (s g) \<Longrightarrow>
   mention_keys g \<subseteq> mention_keys (foldl (\<lambda>g s. s g) g ss) \<and>
   document_keys g \<subseteq> document_keys (foldl (\<lambda>g s. s g) g ss)"
  by (induction ss arbitrary: g) (simp_all, blast)

lemma upsert_mention_key:
  assumes "e \<in> set es"
  shows "(ws, doc, \<lparr>ge_ws = ws, ge_type = en_entity_type e, ge_name = en_canonical_name e\<rparr>)
     \<in> mention_keys (run_statements (\<lambda>_. True) 0 (merge_document ws doc name tags src
          # map (\<lambda>e. merge_mention ws doc e chunk) es @ relation_statements ws doc es rs) g)"
proof -
  obtain es1 es2 where es: "es = es1 @ e # es2" using assms by (meson split_list)
  let ?run = "foldl (\<lambda>g s. s g)"
  let ?g1 = "?run (merge_document ws doc name tags src g) (map (\<lambda>e. merge_mention ws doc e chunk) es1)"
  let ?post = "map (\<lambda>e. merge_mention ws doc e chunk) es2 @ relation_statements ws doc es rs"
  have pre: "\<forall>s \<in> set (map (\<lambda>e. merge_mention ws doc e chunk) es1).
      \<forall>g. mention_keys g \<subseteq> mention_keys (s g) \<and> document_keys g \<subseteq> document_keys (s g)"
    using merge_mention_mono by auto
  have post: "\<forall>s \<in> set ?post. \<forall>g. mention_keys g \<subseteq> mention_keys (s g) \<and> document_keys g \<subseteq> document_keys (s g)"
    using merge_mention_mono set_relation_statements by fastforce
  have "(ws, doc) \<in> document_keys ?g1"
    using run_mono [OF pre, of "merge_document ws doc name tags src g"] by auto
  then have "(ws, doc, \<lparr>ge_ws = ws, ge_type = en_entity_type e, ge_name = en_canonical_name e\<rparr>)
      \<in> mention_keys (merge_mention ws doc e chunk ?g1)"
    by simp
  then show ?thesis
    using run_mono [OF post, of "merge_mention ws doc e chunk ?g1"] by (auto simp: run_all es)
qed

lemma str_uuid_nonempty [simp]: "str_uuid u \<noteq> []"
  by (simp add: str_uuid_def Let_def)

definition mentioning :: "uuid \<Rightarrow> string list \<Rightarrow> graph \<Rightarrow> string set" where
  "mentioning ws names g = {gm_doc m | m. m \<in> set (g_mentions g) \<and> gm_ws m = str_uuid ws \<and>
     ge_name (gm_entity m) \<in> set names}"

lemma find_sound: "set (find_document_ids_for_entities up ws names g) \<subseteq> mentioning ws names g"
  by (auto simp: find_document_ids_for_entities_def mentioning_def dest!: in_set_takeD)

lemma find_complete:
  assumes "card (mentioning ws names g) \<le> 25" and "names \<noteq> []"
  shows "set (find_document_ids_for_entities True ws names g) = mentioning ws names g - {[]}"
proof -
  let ?ms = "filter (\<lambda>m. gm_ws m = str_uuid ws \<and> ge_name (gm_entity m) \<in> set names) (g_mentions g)"
  have eq: "set (map gm_doc ?ms) = mentioning ws names g" by (auto simp: mentioning_def)
  then have "length (remdups (map gm_doc ?ms)) \<le> 25"
    using assms(1) by (simp only: length_remdups_card_conv)
  then show ?thesis using eq assms(2) by (auto simp: find_document_ids_for_entities_def)
qed

text \<open>
  C12: A document is found by the entities extracted from it: after an upsert that the server
  answered, a lookup of a name among its entities returns the document, unless more than the limit
  of 25 documents match; and every lookup returns only documents of the workspace that mention
  one of the names, at most 25 and none twice.
\<close>

theorem upsert_then_lookup:
  assumes "e \<in> set entities" and "en_canonical_name e \<in> set names"
    and "g' = upsert_graph (\<lambda>_. True) ws doc entities relations chunk name tags src g"
    and "card (mentioning ws names g') \<le> 25"
  shows "str_uuid doc \<in> set (find_document_ids_for_entities True ws names g') \<and>
         set (find_document_ids_for_entities up ws names h) \<subseteq> mentioning ws names h \<and>
         distinct (find_document_ids_for_entities up ws names h) \<and>
         length (find_document_ids_for_entities up ws names h) \<le> 25"
proof (intro conjI)
  let ?w = "str_uuid ws" and ?d = "str_uuid doc"
  let ?x = "\<lparr>ge_ws = ?w, ge_type = en_entity_type e, ge_name = en_canonical_name e\<rparr>"
  have "(?w, ?d, ?x) \<in> mention_keys g'"
    using upsert_mention_key [OF assms(1)] assms(1,3) unfolding upsert_graph_def Let_def by auto
  then obtain m where "m \<in> set (g_mentions g')" "gm_ws m = ?w" "gm_doc m = ?d" "gm_entity m = ?x"
    by (auto simp: mention_keys_def)
  then have "?d \<in> mentioning ws names g'"
    using assms(2) unfolding mentioning_def by (intro CollectI exI [of _ m]) simp
  then show "?d \<in> set (find_document_ids_for_entities True ws names g')"
    using find_complete [OF assms(4)] list.set_cases [OF assms(2)] by force
  show "set (find_document_ids_for_entities up ws names h) \<subseteq> mentioning ws names h"
    by (rule find_sound)
  show "distinct (find_document_ids_for_entities up ws names h)"
    "length (find_document_ids_for_entities up ws names h) \<le> 25"
    by (auto simp: find_document_ids_for_entities_def intro: order_trans [OF length_filter_le])
qed

lemma upsert_then_lookup_witness:
  "str_uuid 7 \<in> set (find_document_ids_for_entities True 1 [''ACME'']
     (upsert_graph (\<lambda>_. True) 1 7 [\<lparr>en_canonical_name = ''ACME'', en_entity_type = ''ORGANIZATION''\<rparr>] []
        None None None None empty_graph))"
proof -
  let ?e = "\<lparr>en_canonical_name = ''ACME'', en_entity_type = ''ORGANIZATION''\<rparr>"
  let ?g = "upsert_graph (\<lambda>_. True) 1 7 [?e] [] None None None None empty_graph"
  have "map gm_doc (g_mentions ?g) = [str_uuid 7]"
    unfolding upsert_graph_def Let_def relation_statements_def merge_document_def empty_graph_def
    by (simp add: merge_row_def merge_mention_def) (simp add: Let_def)
  then have "gm_doc ` set (g_mentions ?g) = {str_uuid 7}"
    unfolding set_map [symmetric] by (simp only: list.set)
  then have "mentioning 1 [''ACME''] ?g \<subseteq> {str_uuid 7}"
    unfolding mentioning_def by blast
  moreover have "card {str_uuid 7} = 1" "finite {str_uuid 7}" by simp_all
  ultimately have "card (mentioning 1 [''ACME''] ?g) \<le> 25"
    using card_mono [of "{str_uuid 7}" "mentioning 1 [''ACME''] ?g"] by linarith
  then show ?thesis
    by (intro upsert_then_lookup [THEN conjunct1, of ?e]) simp_all
qed

end
