(* ===== verification/Vector_Store.thy ===== *)
theory Vector_Store
  imports Gateway
begin

text \<open>
  The Qdrant adapter (\<^verbatim>\<open>app/stores/vector_store.py\<close>). The Qdrant client is the record
  \<open>qdrant\<close>, a parameter; \<open>qdrant_laws\<close> states what its documentation promises of a collection as a
  set of points with unique ids. \<open>mem_qdrant\<close> is an in-memory client with those laws.
\<close>

type_synonym payload = "(string \<times> pyval) list"

record point =
  p_id :: string
  p_vector :: vector
  p_payload :: payload

record search_hit =
  h_chunk_id :: string
  h_score :: rat
  h_payload :: payload

datatype condition = Match_Value string string | Match_Any string "string list"

record scored_point =
  sp_id :: string
  sp_score :: rat
  sp_payload :: "payload option"

record 'q qdrant =
  qd_exists :: "string \<Rightarrow> 'q \<Rightarrow> exn + bool"
  qd_create :: "string \<Rightarrow> int \<Rightarrow> 'q \<Rightarrow> (exn + unit) \<times> 'q"
  qd_index :: "string \<Rightarrow> string \<Rightarrow> 'q \<Rightarrow> (exn + unit) \<times> 'q"
  qd_upsert :: "string \<Rightarrow> point list \<Rightarrow> 'q \<Rightarrow> (exn + unit) \<times> 'q"
  qd_query :: "string \<Rightarrow> vector \<Rightarrow> condition list \<Rightarrow> int \<Rightarrow> rat option \<Rightarrow> 'q \<Rightarrow> exn + scored_point list"

subsection \<open>Operations\<close>

text \<open>The module's state: the names in \<open>_ensured\<close> and the server behind the client.\<close>

record 'q vstore =
  vs_ensured :: "string list"
  vs_server :: 'q

definition collection_name :: "uuid \<Rightarrow> string" where
  "collection_name ws = ''ws_'' @ str_uuid ws"

definition ensure_collection ::
    "settings \<Rightarrow> 'q qdrant \<Rightarrow> uuid \<Rightarrow> 'q vstore \<Rightarrow> (exn + unit) \<times> 'q vstore" where
  "ensure_collection cfg qd ws vs =
     (let name = collection_name ws;
          done = (\<lambda>q. (Inr (), \<lparr>vs_ensured = name # vs_ensured vs, vs_server = q\<rparr>))
      in if name \<in> set (vs_ensured vs) then (Inr (), vs)
         else case qd_exists qd name (vs_server vs) of
                Inl e \<Rightarrow> (Inl e, vs)
              | Inr True \<Rightarrow> done (vs_server vs)
              | Inr False \<Rightarrow>
                  (case qd_create qd name (embedding_dims cfg) (vs_server vs) of
                     (Inl e, q1) \<Rightarrow> (Inl e, vs\<lparr>vs_server := q1\<rparr>)
                   | (Inr _, q1) \<Rightarrow>
                       (case qd_index qd name ''workspace_id'' q1 of
                          (Inl e, q2) \<Rightarrow> (Inl e, vs\<lparr>vs_server := q2\<rparr>)
                        | (Inr _, q2) \<Rightarrow> done q2)))"

definition vs_upsert ::
    "settings \<Rightarrow> 'q qdrant \<Rightarrow> uuid \<Rightarrow> point list \<Rightarrow> 'q vstore \<Rightarrow> (exn + unit) \<times> 'q vstore" where
  "vs_upsert cfg qd ws points vs =
     (if points = [] then (Inr (), vs)
      else case ensure_collection cfg qd ws vs of
             (Inl e, vs') \<Rightarrow> (Inl e, vs')
           | (Inr _, vs') \<Rightarrow>
               (case qd_upsert qd (collection_name ws) points (vs_server vs') of
                  (r, q) \<Rightarrow> (r, vs'\<lparr>vs_server := q\<rparr>)))"

definition some_list :: "'a list option \<Rightarrow> 'a list" where
  "some_list x = (case x of None \<Rightarrow> [] | Some ys \<Rightarrow> ys)"

definition must_conditions :: "uuid \<Rightarrow> string list option \<Rightarrow> string list option \<Rightarrow> condition list" where
  "must_conditions ws source_types document_ids =
     Match_Value ''workspace_id'' (str_uuid ws)
     # (if some_list source_types \<noteq> [] then [Match_Any ''source_type'' (some_list source_types)] else [])
     @ (if some_list document_ids \<noteq> [] then [Match_Any ''document_id'' (some_list document_ids)] else [])"

definition vs_search ::
    "'q qdrant \<Rightarrow> uuid \<Rightarrow> vector \<Rightarrow> int \<Rightarrow> rat option \<Rightarrow> string list option \<Rightarrow> string list option \<Rightarrow>
     'q vstore \<Rightarrow> exn + search_hit list" where
  "vs_search qd ws query_vector top_k score_threshold source_types document_ids vs =
     map_sum id (map (\<lambda>p. \<lparr>h_chunk_id = sp_id p, h_score = sp_score p,
                           h_payload = (case sp_payload p of None \<Rightarrow> [] | Some d \<Rightarrow> d)\<rparr>))
       (qd_query qd (collection_name ws) query_vector (must_conditions ws source_types document_ids)
          top_k score_threshold (vs_server vs))"

subsection \<open>What the client promises\<close>

fun cond_ok :: "condition \<Rightarrow> payload \<Rightarrow> bool" where
  "cond_ok (Match_Value k v) d = (map_of d k = Some (PStr v))"
| "cond_ok (Match_Any k vs) d = (case map_of d k of Some (PStr v) \<Rightarrow> v \<in> set vs | _ \<Rightarrow> False)"

definition upsert_points :: "point list \<Rightarrow> point list \<Rightarrow> point list" where
  "upsert_points new old = foldl (\<lambda>ps p. merge_row (\<lambda>x. p_id x = p_id p) (\<lambda>_. p) p ps) old new"

definition query_law :: "'q qdrant \<Rightarrow> ('q \<Rightarrow> string \<Rightarrow> point list) \<Rightarrow> bool" where
  "query_law qd pts \<longleftrightarrow>
     (\<forall>c v conds limit thr q rs. qd_query qd c v conds limit thr q = Inr rs \<longrightarrow>
        (\<forall>r \<in> set rs. \<exists>p \<in> set (pts q c).
            sp_id r = p_id p \<and> sp_payload r = Some (p_payload p) \<and>
            list_all (\<lambda>k. cond_ok k (p_payload p)) conds \<and>
            (case thr of None \<Rightarrow> True | Some t \<Rightarrow> t \<le> sp_score r)) \<and>
        distinct (map sp_id rs) \<and> int (length rs) \<le> max 0 limit \<and>
        sorted_wrt (\<ge>) (map sp_score rs))"

definition write_law :: "'q qdrant \<Rightarrow> ('q \<Rightarrow> string \<Rightarrow> point list) \<Rightarrow> bool" where
  "write_law qd pts \<longleftrightarrow>
     (\<forall>c ps q r q'. qd_upsert qd c ps q = (r, q') \<longrightarrow>
        (\<forall>c'. c' \<noteq> c \<longrightarrow> pts q' c' = pts q c') \<and>
        (r = Inr () \<longrightarrow> pts q' c = upsert_points ps (pts q c))) \<and>
     (\<forall>c d q. pts (snd (qd_create qd c d q)) = pts q) \<and>
     (\<forall>c k q. pts (snd (qd_index qd c k q)) = pts q)"

lemma query_lawD:
  assumes "query_law qd pts" and "qd_query qd c v conds limit thr q = Inr rs"
  shows "r \<in> set rs \<Longrightarrow> \<exists>p \<in> set (pts q c).
      sp_id r = p_id p \<and> sp_payload r = Some (p_payload p) \<and> list_all (\<lambda>k. cond_ok k (p_payload p)) conds \<and>
      (case thr of None \<Rightarrow> True | Some t \<Rightarrow> t \<le> sp_score r)"
    and "distinct (map sp_id rs)" and "int (length rs) \<le> max 0 limit"
    and "sorted_wrt (\<ge>) (map sp_score rs)"
proof -
  note law = assms(1) [unfolded query_law_def, rule_format, OF assms(2)]
  show "distinct (map sp_id rs)" "int (length rs) \<le> max 0 limit" "sorted_wrt (\<ge>) (map sp_score rs)"
    using law by blast+
  show "\<exists>p \<in> set (pts q c).
      sp_id r = p_id p \<and> sp_payload r = Some (p_payload p) \<and> list_all (\<lambda>k. cond_ok k (p_payload p)) conds \<and>
      (case thr of None \<Rightarrow> True | Some t \<Rightarrow> t \<le> sp_score r)" if "r \<in> set rs"
    using law that by blast
qed

lemma write_lawD:
  assumes "write_law qd pts"
  shows "qd_upsert qd c ps q = (r, q') \<Longrightarrow> c' \<noteq> c \<Longrightarrow> pts q' c' = pts q c'"
    and "qd_upsert qd c ps q = (Inr (), q') \<Longrightarrow> pts q' c = upsert_points ps (pts q c)"
    and "pts (snd (qd_create qd c d q)) = pts q"
    and "pts (snd (qd_index qd c k q)) = pts q"
  using assms unfolding write_law_def by blast+

text \<open>A client that holds its collections in memory and scores with the dot product.\<close>

fun nub_points :: "point list \<Rightarrow> point list" where
  "nub_points [] = []"
| "nub_points (p # ps) = p # filter (\<lambda>x. p_id x \<noteq> p_id p) (nub_points ps)"

definition mem_points :: "(string \<Rightarrow> point list) \<Rightarrow> string \<Rightarrow> point list" where
  "mem_points q c = nub_points (q c)"

definition dot :: "vector \<Rightarrow> vector \<Rightarrow> rat" where
  "dot v w = sum_list (map2 (*) v w)"

definition mem_scored :: "vector \<Rightarrow> point \<Rightarrow> scored_point" where
  "mem_scored v p = \<lparr>sp_id = p_id p, sp_score = dot v (p_vector p), sp_payload = Some (p_payload p)\<rparr>"

definition mem_query ::
    "string \<Rightarrow> vector \<Rightarrow> condition list \<Rightarrow> int \<Rightarrow> rat option \<Rightarrow> (string \<Rightarrow> point list) \<Rightarrow>
     exn + scored_point list" where
  "mem_query c v conds limit thr q =
     Inr (take (nat limit) (sort_key (\<lambda>r. - sp_score r)
       (filter (\<lambda>r. case thr of None \<Rightarrow> True | Some t \<Rightarrow> t \<le> sp_score r)
         (map (mem_scored v)
           (filter (\<lambda>p. list_all (\<lambda>k. cond_ok k (p_payload p)) conds) (mem_points q c))))))"

definition mem_qdrant :: "(string \<Rightarrow> point list) qdrant" where
  "mem_qdrant =
     \<lparr>qd_exists = (\<lambda>c q. Inr True), qd_create = (\<lambda>c d q. (Inr (), q)), qd_index = (\<lambda>c k q. (Inr (), q)),
      qd_upsert = (\<lambda>c ps q. (Inr (), q(c := upsert_points ps (mem_points q c)))),
      qd_query = mem_query\<rparr>"

lemma distinct_nub: "distinct (map p_id (nub_points ps))"
  by (induction ps) (auto simp: distinct_map_filter)

lemma nub_distinct: "distinct (map p_id ps) \<Longrightarrow> nub_points ps = ps"
proof (induction ps)
  case (Cons p ps)
  then have "p_id x \<noteq> p_id p" if "x \<in> set ps" for x
    using that by (auto simp: image_iff)
  then have "filter (\<lambda>x. p_id x \<noteq> p_id p) ps = ps" by (intro filter_True) auto
  with Cons show ?case by simp
qed simp

lemma upsert_points_distinct:
  "distinct (map p_id old) \<Longrightarrow> distinct (map p_id (upsert_points new old))"
  unfolding upsert_points_def
proof (induction new arbitrary: old)
  case (Cons p new)
  have "distinct (map p_id (merge_row (\<lambda>x. p_id x = p_id p) (\<lambda>_. p) p old))"
    using Cons.prems by (auto simp: merge_row_def set_rows_def comp_def if_distrib cong: if_cong)
  then show ?case using Cons.IH by simp
qed simp

lemma mem_write_law: "write_law mem_qdrant mem_points"
proof -
  have "nub_points (upsert_points ps (nub_points q)) = upsert_points ps (nub_points q)" for ps q
    by (intro nub_distinct upsert_points_distinct distinct_nub)
  then show ?thesis by (auto simp: write_law_def mem_qdrant_def mem_points_def)
qed

lemma sorted_wrt_neg_key: "sorted (map (\<lambda>r. - f r) rs) = sorted_wrt (\<ge>) (map f rs)" for f :: "'a \<Rightarrow> rat"
  by (induction rs) auto

lemma mem_query_law: "query_law mem_qdrant mem_points"
  unfolding query_law_def
proof (intro allI impI)
  fix c v conds limit thr q rs
  assume "qd_query mem_qdrant c v conds limit thr q = Inr rs"
  then have rs: "rs = take (nat limit) (sort_key (\<lambda>r. - sp_score r)
       (filter (\<lambda>r. case thr of None \<Rightarrow> True | Some t \<Rightarrow> t \<le> sp_score r)
         (map (mem_scored v)
           (filter (\<lambda>p. list_all (\<lambda>k. cond_ok k (p_payload p)) conds) (mem_points q c)))))"
    (is "rs = take _ (sort_key ?key ?found)")
    by (simp add: mem_qdrant_def mem_query_def)
  have "distinct (map sp_id (map (mem_scored v) (mem_points q c)))"
    using distinct_nub by (simp add: mem_points_def comp_def mem_scored_def)
  then have "distinct (map sp_id ?found)"
    by (auto intro!: distinct_map_filter simp: comp_def mem_scored_def)
  then have "distinct (map sp_id (sort_key ?key ?found))"
    by (simp add: distinct_map)
  then have "distinct (take (nat limit) (map sp_id (sort_key ?key ?found)))"
    by (rule distinct_take)
  then have "distinct (map sp_id rs)" by (simp only: rs take_map)
  moreover have "sorted_wrt (\<ge>) (map sp_score rs)"
    by (simp add: rs sorted_wrt_neg_key [symmetric] take_map [symmetric] sorted_wrt_take)
  moreover have "set rs \<subseteq> set ?found" using set_take_subset by (fastforce simp: rs)
  moreover have "int (length rs) \<le> max 0 limit" by (simp add: rs)
  ultimately show "(\<forall>r \<in> set rs. \<exists>p \<in> set (mem_points q c).
            sp_id r = p_id p \<and> sp_payload r = Some (p_payload p) \<and>
            list_all (\<lambda>k. cond_ok k (p_payload p)) conds \<and>
            (case thr of None \<Rightarrow> True | Some t \<Rightarrow> t \<le> sp_score r)) \<and>
        distinct (map sp_id rs) \<and> int (length rs) \<le> max 0 limit \<and>
        sorted_wrt (\<ge>) (map sp_score rs)"
    by (fastforce simp: mem_scored_def)
qed

end
