(* ===== verification/Retrieval.thy ===== *)
theory Retrieval
  imports Chunk Graph_Store Vector_Store
begin

text \<open>
  Retrieval (\<^verbatim>\<open>app/services/retrieval_service.py\<close>): embed the query, search the workspace's
  vectors, add the passages of documents linked to the entities named in the query, and assemble
  the context for the language model. \<open>rep\<close> is \<open>str\<close> of floats, lists and dicts in a payload.
\<close>

record retrieved_chunk =
  rc_chunk_id :: string
  rc_document_id :: string
  rc_document_name :: string
  rc_source_type :: string
  rc_section_ref :: pyval
  rc_chunk_text :: string
  rc_score :: rat
  rc_metadata :: payload

definition chunk_from_hit :: "(pyval \<Rightarrow> string) \<Rightarrow> search_hit \<Rightarrow> retrieved_chunk" where
  "chunk_from_hit rep hit =
     (let p = h_payload hit
      in \<lparr>rc_chunk_id = h_chunk_id hit,
          rc_document_id = py_str rep (dict_get ''document_id'' p (PStr [])),
          rc_document_name = py_str rep (dict_get ''document_name'' p (PStr [])),
          rc_source_type = py_str rep (dict_get ''source_type'' p (PStr ''manual_upload'')),
          rc_section_ref = dict_get ''section_ref'' p PNone,
          rc_chunk_text = py_str rep (dict_get ''chunk_text'' p (PStr [])),
          rc_score = h_score hit,
          rc_metadata = filter (\<lambda>(k, v). k \<noteq> ''chunk_text'') p\<rparr>)"

subsection \<open>Entity candidates\<close>

text \<open>
  \<open>re.findall(r"\b[A-Z][A-Za-z0-9&.-]{2,}\b", query)\<close>: \<open>\w\<close> is \<open>isalnum()\<close> or the underscore; the
  quantifier takes the longest run and backs off to the last word boundary.
\<close>

definition ascii_between :: "nat \<Rightarrow> nat \<Rightarrow> char \<Rightarrow> bool" where
  "ascii_between lo hi c \<longleftrightarrow> lo \<le> of_char c \<and> of_char c \<le> hi"

definition word_char :: "char \<Rightarrow> bool" where
  "word_char c \<longleftrightarrow>
     ascii_between 48 57 c \<or> ascii_between 65 90 c \<or> ascii_between 97 122 c \<or> c = CHR ''_'' \<or>
     (of_char c :: nat) \<in> {170, 178, 179, 181, 185, 186, 188, 189, 190} \<or>
     (ascii_between 192 255 c \<and> (of_char c :: nat) \<noteq> 215 \<and> (of_char c :: nat) \<noteq> 247)"

definition entity_char :: "char \<Rightarrow> bool" where
  "entity_char c \<longleftrightarrow>
     ascii_between 65 90 c \<or> ascii_between 97 122 c \<or> ascii_between 48 57 c \<or>
     c = CHR ''&'' \<or> c = CHR ''.'' \<or> c = CHR ''-''"

definition is_wordopt :: "char option \<Rightarrow> bool" where
  "is_wordopt c = (case c of None \<Rightarrow> False | Some x \<Rightarrow> word_char x)"

definition char_at :: "string \<Rightarrow> nat \<Rightarrow> char option" where
  "char_at s n = (if n < length s then Some (s ! n) else None)"

text \<open>The length of the match at the start of \<open>s\<close>, whose previous character is \<open>prev\<close>.\<close>

definition entity_match :: "char option \<Rightarrow> string \<Rightarrow> nat option" where
  "entity_match prev s =
     (if s \<noteq> [] \<and> ascii_between 65 90 (hd s) \<and> \<not> is_wordopt prev
      then find (\<lambda>n. is_wordopt (char_at s (n - 1)) \<noteq> is_wordopt (char_at s n))
             (rev [3..<2 + length (takeWhile entity_char (tl s))])
      else None)"

lemma find_mem: "find P xs = Some x \<Longrightarrow> x \<in> set xs"
  by (induction xs) (auto split: if_splits)

lemma entity_match_range: "entity_match prev s = Some n \<Longrightarrow> 3 \<le> n \<and> n \<le> length s"
proof -
  assume "entity_match prev s = Some n"
  then have s: "s \<noteq> []" and
    f: "find (\<lambda>n. is_wordopt (char_at s (n - 1)) \<noteq> is_wordopt (char_at s n))
          (rev [3..<2 + length (takeWhile entity_char (tl s))]) = Some n"
    unfolding entity_match_def by (auto split: if_splits)
  from f have "n \<in> set (rev [3..<2 + length (takeWhile entity_char (tl s))])"
    by (rule find_mem)
  with s have "n \<in> set [3..<2 + length (takeWhile entity_char (tl s))]" "s \<noteq> []" by simp_all
  moreover have "length (takeWhile entity_char (tl s)) \<le> length s - 1"
    using length_takeWhile_le [of entity_char "tl s"] by simp
  ultimately show ?thesis by (cases s) auto
qed

function find_entities :: "char option \<Rightarrow> string \<Rightarrow> string list" where
  "find_entities prev s =
     (if s = [] then []
      else case entity_match prev s of
             Some n \<Rightarrow> take n s # find_entities (char_at s (n - 1)) (drop n s)
           | None \<Rightarrow> find_entities (Some (hd s)) (tl s))"
  by pat_completeness auto
termination
  by (relation "measure (\<lambda>(prev, s). length s)") (auto dest: entity_match_range)

declare find_entities.simps [simp del]

fun keep_first :: "'a list \<Rightarrow> 'a list \<Rightarrow> 'a list" where
  "keep_first acc [] = acc"
| "keep_first acc (n # ns) = keep_first (if n \<in> set acc then acc else acc @ [n]) ns"

definition candidate_entities :: "string \<Rightarrow> string list" where
  "candidate_entities query = take 8 (keep_first [] (find_entities None query))"

subsection \<open>Retrieval\<close>

definition graph_augment_limit :: int where "graph_augment_limit = 5"

definition int_or :: "int option \<Rightarrow> int \<Rightarrow> int" where
  "int_or a b = (case a of None \<Rightarrow> b | Some n \<Rightarrow> (if n = 0 then b else n))"

definition sort_desc :: "('a \<Rightarrow> rat) \<Rightarrow> 'a list \<Rightarrow> 'a list" where
  "sort_desc key xs = sort_key (\<lambda>x. - key x) xs"

definition augment_hits ::
    "'q qdrant \<Rightarrow> bool \<Rightarrow> uuid \<Rightarrow> string \<Rightarrow> vector \<Rightarrow> rat \<Rightarrow> 'q vstore \<Rightarrow> graph \<Rightarrow> exn + search_hit list" where
  "augment_hits qd graph_up ws query vector threshold vs g =
     (let names = candidate_entities query;
          doc_ids = find_document_ids_for_entities graph_up ws names g
      in if doc_ids = [] then Inr []
         else vs_search qd ws vector graph_augment_limit (Some threshold) None (Some doc_ids) vs)"

definition retrieve ::
    "settings \<Rightarrow> 'w provider \<Rightarrow> 'q qdrant \<Rightarrow> (pyval \<Rightarrow> string) \<Rightarrow> bool \<Rightarrow> uuid \<Rightarrow> string \<Rightarrow>
     int option \<Rightarrow> rat option \<Rightarrow> string list option \<Rightarrow> bool \<Rightarrow> 'q vstore \<Rightarrow> graph \<Rightarrow> 'w gateway \<Rightarrow>
     (exn + retrieved_chunk list) \<times> 'w gateway" where
  "retrieve cfg pv qd rep graph_up ws query top_k min_score source_types augment vs g gw =
     (let k = int_or top_k (chat_top_k cfg);
          threshold = (case min_score of None \<Rightarrow> chat_min_similarity cfg | Some m \<Rightarrow> m)
      in case embed cfg pv [query] ws None gw of
           (Inl e, gw') \<Rightarrow> (Inl e, gw')
         | (Inr [], gw') \<Rightarrow> (Inl (PyError ''IndexError'' ''list index out of range''), gw')
         | (Inr (vector # _), gw') \<Rightarrow>
             (case vs_search qd ws vector k (Some threshold) source_types None vs of
                Inl e \<Rightarrow> (Inl e, gw')
              | Inr hits \<Rightarrow>
                  let chunks = map (chunk_from_hit rep) hits;
                      extra = (if augment
                               then (case augment_hits qd graph_up ws query vector threshold vs g of
                                       Inl e \<Rightarrow> []
                                     | Inr ex \<Rightarrow> filter (\<lambda>h. h_chunk_id h \<notin> rc_chunk_id ` set chunks) ex)
                               else [])
                  in (Inr (sort_desc rc_score (chunks @ map (chunk_from_hit rep) extra)), gw')))"

definition confidence_score :: "retrieved_chunk list \<Rightarrow> rat" where
  "confidence_score chunks =
     (let top = take 3 chunks
      in if top = [] then 0
         else round_to 4 (sum_list (map rc_score top) / of_nat (length top)))"

subsection \<open>Context\<close>

text \<open>The em dash (U+2014) is outside the model's alphabet; code 151 stands for it.\<close>

definition em_dash :: char where "em_dash = char_of (151 :: nat)"

definition context_block :: "(pyval \<Rightarrow> string) \<Rightarrow> retrieved_chunk \<Rightarrow> string" where
  "context_block rep c =
     ''[Source: '' @ rc_document_name c
     @ (if py_truthy (rc_section_ref c)
        then '' '' @ [em_dash] @ '' '' @ py_str rep (rc_section_ref c) @ '']'' else '']'')
     @ [CHR 0x0A] @ rc_chunk_text c"

fun assemble_loop ::
    "tokenizer \<Rightarrow> (pyval \<Rightarrow> string) \<Rightarrow> int \<Rightarrow> retrieved_chunk list \<Rightarrow>
     string list \<times> retrieved_chunk list \<times> int \<times> bool \<Rightarrow>
     string list \<times> retrieved_chunk list \<times> int \<times> bool" where
  "assemble_loop enc rep cap [] acc = acc"
| "assemble_loop enc rep cap (c # cs) (parts, used, n_tok, truncated) =
     (let block = context_block rep c;
          tk = int (count_tokens enc block)
      in if cap < n_tok + tk then assemble_loop enc rep cap cs (parts, used, n_tok, True)
         else assemble_loop enc rep cap cs (parts @ [block], used @ [c], n_tok + tk, truncated))"

definition assemble_context ::
    "settings \<Rightarrow> tokenizer \<Rightarrow> (pyval \<Rightarrow> string) \<Rightarrow> retrieved_chunk list \<Rightarrow> int option \<Rightarrow>
     string \<times> retrieved_chunk list \<times> int \<times> bool" where
  "assemble_context cfg enc rep chunks limit =
     (case assemble_loop enc rep (int_or limit (context_max_tokens cfg)) chunks ([], [], 0, False) of
        (parts, used, n_tok, truncated) \<Rightarrow>
          (py_join [CHR 0x0A, CHR 0x0A] parts, used, n_tok, truncated))"

subsection \<open>What retrieval returns\<close>

lemma set_sort_desc [simp]: "set (sort_desc key xs) = set xs"
  "length (sort_desc key xs) = length xs"
  by (simp_all add: sort_desc_def)

lemma sorted_sort_desc: "sorted_wrt (\<ge>) (map key (sort_desc key xs))"
  using sorted_sort_key [of "\<lambda>x. - key x" xs] by (simp add: sort_desc_def sorted_wrt_neg_key)

lemma distinct_sort_desc: "distinct (map f xs) \<Longrightarrow> distinct (map f (sort_desc key xs))"
  by (simp add: distinct_map sort_desc_def)

lemma chunk_from_hit_simps [simp]:
  "rc_chunk_id (chunk_from_hit rep h) = h_chunk_id h"
  "rc_score (chunk_from_hit rep h) = h_score h"
  by (simp_all add: chunk_from_hit_def Let_def)

text \<open>A hit that stands for a stored point of the workspace, at or above the threshold.\<close>

definition own_hit :: "point list \<Rightarrow> uuid \<Rightarrow> rat \<Rightarrow> search_hit \<Rightarrow> bool" where
  "own_hit ps ws thr h \<longleftrightarrow> thr \<le> h_score h \<and>
     (\<exists>p \<in> set ps. h_chunk_id h = p_id p \<and> h_payload h = p_payload p \<and>
        map_of (p_payload p) ''workspace_id'' = Some (PStr (str_uuid ws)))"

lemma vs_search_own:
  assumes "query_law qd pts"
    and "vs_search qd ws v k (Some thr) srcs docs vs = Inr hits"
  shows "\<forall>h \<in> set hits. own_hit (pts (vs_server vs) (collection_name ws)) ws thr h"
    and "distinct (map h_chunk_id hits)" and "int (length hits) \<le> max 0 k"
    and "sorted_wrt (\<ge>) (map h_score hits)"
proof -
  obtain rs where rs: "qd_query qd (collection_name ws) v (must_conditions ws srcs docs) k (Some thr)
      (vs_server vs) = Inr rs"
    and hits: "hits = map (\<lambda>p. \<lparr>h_chunk_id = sp_id p, h_score = sp_score p,
        h_payload = (case sp_payload p of None \<Rightarrow> [] | Some d \<Rightarrow> d)\<rparr>) rs"
    using assms(2) by (auto simp: vs_search_def map_sum_def split: sum.splits)
  note law = query_lawD [OF assms(1) rs]
  show "\<forall>h \<in> set hits. own_hit (pts (vs_server vs) (collection_name ws)) ws thr h"
    using law(1) by (fastforce simp: hits own_hit_def must_conditions_def)
  show "distinct (map h_chunk_id hits)" "int (length hits) \<le> max 0 k" "sorted_wrt (\<ge>) (map h_score hits)"
    using law(2-4) by (simp_all add: hits comp_def)
qed

lemma augment_hits_own:
  assumes "query_law qd pts" and "augment_hits qd up ws query v thr vs g = Inr ex"
  shows "\<forall>h \<in> set ex. own_hit (pts (vs_server vs) (collection_name ws)) ws thr h"
    and "distinct (map h_chunk_id ex)" and "length ex \<le> 5"
proof -
  have "(\<forall>h \<in> set ex. own_hit (pts (vs_server vs) (collection_name ws)) ws thr h) \<and>
      distinct (map h_chunk_id ex) \<and> length ex \<le> 5"
  proof (cases "find_document_ids_for_entities up ws (candidate_entities query) g = []")
    case True
    then show ?thesis using assms(2) by (simp add: augment_hits_def Let_def)
  next
    case False
    then have "vs_search qd ws v graph_augment_limit (Some thr) None
        (Some (find_document_ids_for_entities up ws (candidate_entities query) g)) vs = Inr ex"
      using assms(2) by (simp add: augment_hits_def Let_def)
    from vs_search_own [OF assms(1) this] show ?thesis by (simp add: graph_augment_limit_def)
  qed
  then show "\<forall>h \<in> set ex. own_hit (pts (vs_server vs) (collection_name ws)) ws thr h"
    "distinct (map h_chunk_id ex)" "length ex \<le> 5" by blast+
qed

text \<open>A successful retrieval: the hits of the search and the extra ones of the graph.\<close>

definition extra_hits ::
    "'q qdrant \<Rightarrow> bool \<Rightarrow> uuid \<Rightarrow> string \<Rightarrow> vector \<Rightarrow> rat \<Rightarrow> 'q vstore \<Rightarrow> graph \<Rightarrow> bool \<Rightarrow>
     search_hit list \<Rightarrow> search_hit list" where
  "extra_hits qd up ws query v thr vs g augment hits =
     (if augment
      then (case augment_hits qd up ws query v thr vs g of
              Inl e \<Rightarrow> []
            | Inr ex \<Rightarrow> filter (\<lambda>h. h_chunk_id h \<notin> h_chunk_id ` set hits) ex)
      else [])"

lemma retrieve_eq:
  assumes "embed cfg pv [query] ws None gw = (Inr (v # vectors), gw')"
    and "vs_search qd ws v (int_or top_k (chat_top_k cfg))
           (Some (case min_score of None \<Rightarrow> chat_min_similarity cfg | Some m \<Rightarrow> m)) srcs None vs = Inr hits"
  shows "fst (retrieve cfg pv qd rep up ws query top_k min_score srcs augment vs g gw)
     = Inr (sort_desc rc_score (map (chunk_from_hit rep) (hits @ extra_hits qd up ws query v
         (case min_score of None \<Rightarrow> chat_min_similarity cfg | Some m \<Rightarrow> m) vs g augment hits)))"
  by (simp add: retrieve_def assms extra_hits_def Let_def image_image split: sum.split)

lemma retrieve_cases:
  assumes "fst (retrieve cfg pv qd rep up ws query top_k min_score srcs augment vs g gw) = Inr chunks"
  obtains v vectors hits where
    "fst (embed cfg pv [query] ws None gw) = Inr (v # vectors)"
    "vs_search qd ws v (int_or top_k (chat_top_k cfg))
       (Some (case min_score of None \<Rightarrow> chat_min_similarity cfg | Some m \<Rightarrow> m)) srcs None vs = Inr hits"
    "chunks = sort_desc rc_score (map (chunk_from_hit rep) (hits @ extra_hits qd up ws query v
       (case min_score of None \<Rightarrow> chat_min_similarity cfg | Some m \<Rightarrow> m) vs g augment hits))"
proof -
  let ?thr = "case min_score of None \<Rightarrow> chat_min_similarity cfg | Some m \<Rightarrow> m"
  obtain r gw' where emb: "embed cfg pv [query] ws None gw = (r, gw')" by fastforce
  with assms obtain v vectors where r: "r = Inr (v # vectors)"
    by (auto simp: retrieve_def Let_def split: sum.splits list.splits)
  obtain hits where hits: "vs_search qd ws v (int_or top_k (chat_top_k cfg)) (Some ?thr) srcs None vs = Inr hits"
    using assms emb r by (auto simp: retrieve_def Let_def split: sum.splits)
  show thesis
  proof (rule that [OF _ hits])
    show "fst (embed cfg pv [query] ws None gw) = Inr (v # vectors)" by (simp add: emb r)
    have "(Inr chunks :: exn + _) = Inr (sort_desc rc_score (map (chunk_from_hit rep)
        (hits @ extra_hits qd up ws query v ?thr vs g augment hits)))"
      using assms [symmetric] retrieve_eq [OF emb [unfolded r] hits] by (rule trans)
    then show "chunks = sort_desc rc_score (map (chunk_from_hit rep)
        (hits @ extra_hits qd up ws query v ?thr vs g augment hits))"
      by (simp only: sum.inject)
  qed
qed

lemma extra_hits_own:
  assumes "query_law qd pts"
  shows "\<forall>h \<in> set (extra_hits qd up ws query v thr vs g augment hits).
           own_hit (pts (vs_server vs) (collection_name ws)) ws thr h"
    and "h_chunk_id ` set hits \<inter> h_chunk_id ` set (extra_hits qd up ws query v thr vs g augment hits) = {}"
    and "distinct (map h_chunk_id (extra_hits qd up ws query v thr vs g augment hits))"
    and "length (extra_hits qd up ws query v thr vs g augment hits) \<le> 5"
proof -
  let ?ex = "extra_hits qd up ws query v thr vs g augment hits"
  have "?ex = [] \<or> (\<exists>ex. augment_hits qd up ws query v thr vs g = Inr ex \<and>
      ?ex = filter (\<lambda>h. h_chunk_id h \<notin> h_chunk_id ` set hits) ex)"
    by (cases "augment_hits qd up ws query v thr vs g") (simp_all add: extra_hits_def)
  then obtain ex where ex: "?ex = filter (\<lambda>h. h_chunk_id h \<notin> h_chunk_id ` set hits) ex"
    and own: "\<forall>h \<in> set ex. own_hit (pts (vs_server vs) (collection_name ws)) ws thr h"
      "distinct (map h_chunk_id ex)" "length ex \<le> 5"
    using augment_hits_own [OF assms] that [of "[]"] by auto
  show "\<forall>h \<in> set ?ex. own_hit (pts (vs_server vs) (collection_name ws)) ws thr h"
    "distinct (map h_chunk_id ?ex)" "length ?ex \<le> 5"
    using own length_filter_le [of "\<lambda>h. h_chunk_id h \<notin> h_chunk_id ` set hits" ex]
    by (simp_all add: ex distinct_map_filter del: length_filter_le)
  show "h_chunk_id ` set hits \<inter> h_chunk_id ` set ?ex = {}" unfolding ex by auto (metis image_eqI)
qed

text \<open>
  C3: Retrieval stays inside the tenant and keeps its promises: if the vector database obeys its
  filters, every returned chunk is a stored point of the workspace's collection whose payload names
  the workspace, scores at least the threshold, no chunk comes twice, the best come first, and
  there are at most \<open>k\<close> plus the five that the graph may add.
\<close>

theorem retrieve_tenant_safe:
  assumes "query_law qd pts"
    and "fst (retrieve cfg pv qd rep up ws query top_k min_score srcs augment vs g gw) = Inr chunks"
  shows "(\<forall>c \<in> set chunks. \<exists>h. c = chunk_from_hit rep h \<and>
            own_hit (pts (vs_server vs) (collection_name ws)) ws
              (case min_score of None \<Rightarrow> chat_min_similarity cfg | Some m \<Rightarrow> m) h) \<and>
         sorted_wrt (\<ge>) (map rc_score chunks) \<and> distinct (map rc_chunk_id chunks) \<and>
         int (length chunks) \<le> max 0 (int_or top_k (chat_top_k cfg)) + 5"
proof -
  let ?thr = "case min_score of None \<Rightarrow> chat_min_similarity cfg | Some m \<Rightarrow> m"
  obtain v vectors hits where
    hits: "vs_search qd ws v (int_or top_k (chat_top_k cfg)) (Some ?thr) srcs None vs = Inr hits"
    and chunks: "chunks = sort_desc rc_score (map (chunk_from_hit rep)
       (hits @ extra_hits qd up ws query v ?thr vs g augment hits))"
    by (rule retrieve_cases [OF assms(2)])
  let ?ex = "extra_hits qd up ws query v ?thr vs g augment hits"
  note own = vs_search_own [OF assms(1) hits]
    and ex = extra_hits_own [OF assms(1), where up = up and ws = ws and query = query and v = v and
      thr = ?thr and vs = vs and g = g and augment = augment and hits = hits]
  have "distinct (map h_chunk_id (hits @ ?ex))" using own(2) ex(2,3) by simp
  then have "distinct (map rc_chunk_id chunks)"
    unfolding chunks by (intro distinct_sort_desc) (simp add: comp_def)
  moreover have "int (length (hits @ ?ex)) \<le> max 0 (int_or top_k (chat_top_k cfg)) + 5"
    using own(3) ex(4) by simp
  moreover have "sorted_wrt (\<ge>) (map rc_score chunks)"
    unfolding chunks by (rule sorted_sort_desc)
  ultimately show ?thesis using own(1) ex(1) by (auto simp: chunks)
qed

text \<open>
  Graph augmentation is best-effort: once the query is embedded and the main search answered,
  retrieval succeeds and returns every hit of that search, whatever the graph, the entity lookup
  and the second search do; without augmentation, or with the graph down, it returns exactly those.
\<close>

theorem retrieve_best_effort:
  assumes "fst (embed cfg pv [query] ws None gw) = Inr (v # vectors)"
    and "vs_search qd ws v (int_or top_k (chat_top_k cfg))
           (Some (case min_score of None \<Rightarrow> chat_min_similarity cfg | Some m \<Rightarrow> m)) srcs None vs = Inr hits"
  shows "(\<exists>chunks. fst (retrieve cfg pv qd rep up ws query top_k min_score srcs augment vs g gw) = Inr chunks \<and>
            chunk_from_hit rep ` set hits \<subseteq> set chunks) \<and>
         fst (retrieve cfg pv qd rep False ws query top_k min_score srcs augment vs g gw)
           = Inr (sort_desc rc_score (map (chunk_from_hit rep) hits))"
proof -
  obtain gw' where emb: "embed cfg pv [query] ws None gw = (Inr (v # vectors), gw')"
    using assms(1) by (cases "embed cfg pv [query] ws None gw") auto
  have "extra_hits qd False ws query v t vs g augment hits = []" for t
    by (simp add: extra_hits_def augment_hits_def find_document_ids_for_entities_def Let_def)
  then show ?thesis
    using retrieve_eq [OF emb assms(2)] by simp
qed

subsection \<open>What the context holds\<close>

definition block_tokens :: "tokenizer \<Rightarrow> (pyval \<Rightarrow> string) \<Rightarrow> retrieved_chunk \<Rightarrow> int" where
  "block_tokens enc rep c = int (count_tokens enc (context_block rep c))"

lemma block_tokens_nonneg [simp]: "0 \<le> block_tokens enc rep c"
  by (simp add: block_tokens_def)

lemma assemble_loop_props:
  assumes "assemble_loop enc rep cap cs (parts, used, n, t) = (parts', used', n', t')"
  shows "\<exists>new. used' = used @ new \<and> subseq new cs \<and> parts' = parts @ map (context_block rep) new \<and>
           n' = n + (\<Sum>c \<leftarrow> new. block_tokens enc rep c) \<and> (t' \<longleftrightarrow> t \<or> new \<noteq> cs) \<and>
           n' \<le> max n cap \<and>
           (\<forall>c \<in> set cs. c \<in> set new \<or> cap < n' + block_tokens enc rep c)"
  using assms
proof (induction cs arbitrary: parts used n t)
  case (Cons c cs)
  let ?tk = "block_tokens enc rep c"
  show ?case
  proof (cases "cap < n + ?tk")
    case True
    then have "assemble_loop enc rep cap cs (parts, used, n, True) = (parts', used', n', t')"
      using Cons.prems by (simp add: block_tokens_def Let_def)
    from Cons.IH [OF this] obtain new where new: "used' = used @ new" "subseq new cs"
      "parts' = parts @ map (context_block rep) new" "n' = n + (\<Sum>c \<leftarrow> new. block_tokens enc rep c)"
      "t'" "n' \<le> max n cap" "\<forall>c \<in> set cs. c \<in> set new \<or> cap < n' + block_tokens enc rep c"
      by auto
    have "0 \<le> (\<Sum>c \<leftarrow> new. block_tokens enc rep c)" by (rule sum_list_nonneg) auto
    with True new(4) have "cap < n' + ?tk" by linarith
    moreover have "new \<noteq> c # cs" using list_emb_length [OF new(2)] by auto
    ultimately show ?thesis using new by (intro exI [of _ new]) auto
  next
    case False
    then have "assemble_loop enc rep cap cs (parts @ [context_block rep c], used @ [c], n + ?tk, t)
        = (parts', used', n', t')"
      using Cons.prems by (simp add: block_tokens_def Let_def)
    from Cons.IH [OF this] obtain new where new: "used' = used @ c # new" "subseq new cs"
      "parts' = parts @ map (context_block rep) (c # new)"
      "n' = n + ?tk + (\<Sum>c \<leftarrow> new. block_tokens enc rep c)" "t' \<longleftrightarrow> t \<or> new \<noteq> cs"
      "n' \<le> max (n + ?tk) cap" "\<forall>c \<in> set cs. c \<in> set new \<or> cap < n' + block_tokens enc rep c"
      by auto
    then show ?thesis using False by (intro exI [of _ "c # new"]) auto
  qed
qed auto

text \<open>
  C13: The assembled context keeps the rank order and the budget it counts: the chunks used are a
  subsequence of the ranked ones, whole; the token count is the sum of their blocks' tokens and
  within the cap; a chunk left out would not fit even at the end; \<open>truncated\<close> says exactly
  whether one was left out; and the text is their blocks, separated by a blank line.
\<close>

theorem assemble_context_correct:
  assumes "assemble_context cfg enc rep chunks limit = (context, used, n_tok, truncated)"
  shows "let cap = int_or limit (context_max_tokens cfg)
         in subseq used chunks \<and>
            n_tok = (\<Sum>c \<leftarrow> used. block_tokens enc rep c) \<and> n_tok \<le> max 0 cap \<and>
            (\<forall>c \<in> set chunks. c \<in> set used \<or> cap < n_tok + block_tokens enc rep c) \<and>
            (truncated \<longleftrightarrow> used \<noteq> chunks) \<and>
            context = py_join [CHR 0x0A, CHR 0x0A] (map (context_block rep) used)"
proof -
  obtain parts where run: "assemble_loop enc rep (int_or limit (context_max_tokens cfg)) chunks ([], [], 0, False)
      = (parts, used, n_tok, truncated)" and ctx: "context = py_join [CHR 0x0A, CHR 0x0A] parts"
    using assms by (auto simp: assemble_context_def split: prod.splits)
  from assemble_loop_props [OF run] ctx show ?thesis by (auto simp: Let_def)
qed

lemma length_join_replicate:
  "0 < n \<Longrightarrow> length (py_join sep (replicate n b)) = n * length b + (n - 1) * length sep"
proof (induction n)
  case (Suc n)
  then show ?case by (cases n) (simp_all add: algebra_simps)
qed simp

lemma assemble_replicate:
  assumes "int (n * k) \<le> cap - t" and "block_tokens enc rep c = int k"
  shows "assemble_loop enc rep cap (replicate n c) (ps, us, t, tr)
     = (ps @ replicate n (context_block rep c), us @ replicate n c, t + int (n * k), tr)"
  using assms(1)
proof (induction n arbitrary: ps us t)
  case (Suc n)
  have "int (n * k) \<le> cap - (t + int k)" using Suc.prems by (simp add: algebra_simps)
  moreover have "\<not> cap < t + int k"
  proof -
    have "int k + int (n * k) \<le> cap - t" using Suc.prems by (simp add: algebra_simps)
    then show ?thesis using of_nat_0_le_iff [of "n * k"] by linarith
  qed
  ultimately show ?case
    using Suc.IH [of "t + int k"] assms(2)
    by (simp add: block_tokens_def Let_def replicate_app_Cons_same algebra_simps)
qed simp

text \<open>
  The cap bounds the sum of the blocks, not the context: separators and the per-block rounding
  of the fallback tokenizer are not counted. For every \<open>n\<close> of at least two blocks of
  \<open>4 * k + 3\<close> characters the function reports \<open>n * k\<close> tokens, exactly the cap, and no truncation,
  while the context it returns counts \<open>(5 * n - 2) div 4\<close> tokens more.
\<close>

theorem context_exceeds_cap:
  assumes "length (context_block rep c) = 4 * k + 3" and "0 < k" and "2 \<le> n"
  shows "case assemble_context cfg None rep (replicate n c) (Some (int (n * k))) of
           (context, used, n_tok, truncated) \<Rightarrow>
             used = replicate n c \<and> n_tok = int (n * k) \<and> \<not> truncated \<and>
             count_tokens None context = n * k + (5 * n - 2) div 4 \<and>
             int (n * k) < int (count_tokens None context)"
proof -
  have "block_tokens None rep c = int k"
    using assms(1,2) by (simp add: block_tokens_def count_tokens_def)
  from assemble_replicate [OF _ this, of n "int (n * k)" 0 "[]" "[]" False] assms(2,3)
  have run: "assemble_context cfg None rep (replicate n c) (Some (int (n * k)))
      = (py_join [CHR 0x0A, CHR 0x0A] (replicate n (context_block rep c)), replicate n c, int (n * k), False)"
    by (simp add: assemble_context_def int_or_def)
  have "length (py_join [CHR 0x0A, CHR 0x0A] (replicate n (context_block rep c))) = n * (4 * k + 3) + (n - 1) * 2"
    using length_join_replicate [of n "[CHR 0x0A, CHR 0x0A]" "context_block rep c"] assms(1,3) by simp
  also have "\<dots> = 4 * (n * k) + (5 * n - 2)" using assms(3) by (simp add: algebra_simps)
  finally have "length (py_join [CHR 0x0A, CHR 0x0A] (replicate n (context_block rep c))) div 4
      = n * k + (5 * n - 2) div 4" by simp
  moreover have "2 \<le> (5 * n - 2) div 4" using assms(3) by linarith
  ultimately show ?thesis unfolding run by (simp add: count_tokens_def)
qed

text \<open>
  Confidence is a similarity: the score of a chunk list is 0 when it is empty, otherwise it
  lies between the rounded bounds of its scores, so in [0, 1] for cosine scores in [0, 1], and it
  is computed from the three best chunks alone.
\<close>

theorem confidence_between:
  assumes "\<forall>c \<in> set chunks. lo \<le> rc_score c \<and> rc_score c \<le> hi"
  shows "(chunks = [] \<longrightarrow> confidence_score chunks = 0) \<and>
         (chunks \<noteq> [] \<longrightarrow> round_to 4 lo \<le> confidence_score chunks \<and> confidence_score chunks \<le> round_to 4 hi) \<and>
         confidence_score chunks = confidence_score (take 3 chunks)"
proof -
  have "round_to 4 lo \<le> confidence_score chunks \<and> confidence_score chunks \<le> round_to 4 hi" if "chunks \<noteq> []"
  proof -
    let ?top = "take 3 chunks"
    have mem: "c \<in> set ?top \<Longrightarrow> lo \<le> rc_score c \<and> rc_score c \<le> hi" for c
      using assms by (blast dest: in_set_takeD)
    have "of_nat (length xs) * lo \<le> sum_list (map rc_score xs) \<and>
          sum_list (map rc_score xs) \<le> of_nat (length xs) * hi"
      if "\<forall>c \<in> set xs. lo \<le> rc_score c \<and> rc_score c \<le> hi" for xs
      using that by (induction xs) (auto simp: algebra_simps)
    from this [of ?top] mem have sum: "of_nat (length ?top) * lo \<le> sum_list (map rc_score ?top)"
      "sum_list (map rc_score ?top) \<le> of_nat (length ?top) * hi" by blast+
    have pos: "0 < (of_nat (length ?top) :: rat)" using that by (cases chunks) simp_all
    then have "lo \<le> sum_list (map rc_score ?top) / of_nat (length ?top)"
      "sum_list (map rc_score ?top) / of_nat (length ?top) \<le> hi"
      using sum by (simp_all add: pos_le_divide_eq pos_divide_le_eq mult.commute)
    then have "round_to 4 lo \<le> round_to 4 (sum_list (map rc_score ?top) / of_nat (length ?top))"
      "round_to 4 (sum_list (map rc_score ?top) / of_nat (length ?top)) \<le> round_to 4 hi"
      by (simp_all only: round_to_mono)
    then show ?thesis using that unfolding confidence_score_def Let_def by simp
  qed
  then show ?thesis by (simp add: confidence_score_def Let_def)
qed

subsection \<open>Witnesses\<close>

definition demo_payload :: "uuid \<Rightarrow> payload" where
  "demo_payload ws = [(''workspace_id'', PStr (str_uuid ws)), (''document_name'', PStr ''a''),
     (''chunk_text'', PStr ''text'')]"

definition demo_vstore :: "uuid \<Rightarrow> (string \<Rightarrow> point list) vstore" where
  "demo_vstore ws = \<lparr>vs_ensured = [],
     vs_server = (\<lambda>_. [\<lparr>p_id = ''c1'', p_vector = [1], p_payload = demo_payload ws\<rparr>])\<rparr>"

definition no_rep :: "pyval \<Rightarrow> string" where "no_rep v = []"

lemma demo_embed:
  "embed default_settings demo_provider [''q''] ws None (demo_gateway\<lparr>gw_world := 1\<rparr>)
     = (Inr [[1]], snd (embed default_settings demo_provider [''q''] ws None (demo_gateway\<lparr>gw_world := 1\<rparr>)))"
  by (simp add: embed_def batches_def upt_rec acquire_slot_def acquire_def on_world_def with_retry_unroll
      demo_provider_def demo_gateway_def default_settings_def Let_def split: prod.split)

lemma demo_search:
  "vs_search mem_qdrant 1 [1] 10 (Some (65 / 100)) None None (demo_vstore 1)
     = Inr [\<lparr>h_chunk_id = ''c1'', h_score = 1, h_payload = demo_payload 1\<rparr>]"
  by (simp add: vs_search_def mem_qdrant_def mem_query_def demo_vstore_def mem_points_def must_conditions_def
      some_list_def mem_scored_def dot_def demo_payload_def)

lemma demo_cfg: "int_or None (chat_top_k default_settings) = 10"
  "(case None of None \<Rightarrow> chat_min_similarity default_settings | Some m \<Rightarrow> m) = 65 / 100"
  by (simp_all add: int_or_def default_settings_def)

lemma demo_retrieve:
  "fst (retrieve default_settings demo_provider mem_qdrant no_rep False 1 ''q'' None None None True
      (demo_vstore 1) empty_graph (demo_gateway\<lparr>gw_world := 1\<rparr>))
     = Inr [chunk_from_hit no_rep \<lparr>h_chunk_id = ''c1'', h_score = 1, h_payload = demo_payload 1\<rparr>]"
  using retrieve_eq [OF demo_embed demo_search [folded demo_cfg],
      of no_rep False True empty_graph]
  by (simp add: extra_hits_def augment_hits_def find_document_ids_for_entities_def sort_desc_def)

lemma retrieve_tenant_safe_witness:
  "let chunks = [chunk_from_hit no_rep \<lparr>h_chunk_id = ''c1'', h_score = 1, h_payload = demo_payload 1\<rparr>]
   in fst (retrieve default_settings demo_provider mem_qdrant no_rep False 1 ''q'' None None None True
        (demo_vstore 1) empty_graph (demo_gateway\<lparr>gw_world := 1\<rparr>)) = Inr chunks \<and>
      int (length chunks) \<le> max 0 (int_or None (chat_top_k default_settings)) + 5"
  using retrieve_tenant_safe [OF mem_query_law demo_retrieve] demo_retrieve by (simp add: Let_def)

lemma retrieve_best_effort_witness:
  "\<exists>chunks. fst (retrieve default_settings demo_provider mem_qdrant no_rep True 1 ''q'' None None None True
      (demo_vstore 1) empty_graph (demo_gateway\<lparr>gw_world := 1\<rparr>)) = Inr chunks \<and> chunks \<noteq> []"
  using retrieve_best_effort [OF arg_cong [OF demo_embed, of fst, unfolded fst_conv]
      demo_search [folded demo_cfg], of no_rep True True empty_graph]
  by auto

definition demo_chunk :: "string \<Rightarrow> retrieved_chunk" where
  "demo_chunk t = \<lparr>rc_chunk_id = t, rc_document_id = ''d'', rc_document_name = ''n'',
     rc_source_type = ''s'', rc_section_ref = PNone, rc_chunk_text = t, rc_score = 1 / 2, rc_metadata = []\<rparr>"

lemma assemble_context_correct_witness:
  "case assemble_context default_settings None no_rep [demo_chunk (replicate 80 CHR ''x''), demo_chunk ''y'']
       (Some 5) of (context, used, n_tok, truncated) \<Rightarrow>
     used = [demo_chunk ''y''] \<and> truncated \<and> n_tok \<le> 5"
proof -
  let ?cs = "[demo_chunk (replicate 80 CHR ''x''), demo_chunk ''y'']"
  have run: "assemble_context default_settings None no_rep ?cs (Some 5)
      = (context_block no_rep (demo_chunk ''y''), [demo_chunk ''y''], 3, True)"
    by (simp add: assemble_context_def int_or_def context_block_def demo_chunk_def count_tokens_def Let_def)
  from assemble_context_correct [OF run] run show ?thesis by (simp add: int_or_def Let_def)
qed

lemma context_exceeds_cap_witness:
  "case assemble_context default_settings None no_rep (replicate 2 (demo_chunk ''1234567'')) (Some 8) of
     (context, used, n_tok, truncated) \<Rightarrow> n_tok = 8 \<and> count_tokens None context = 10"
proof -
  have "length (context_block no_rep (demo_chunk ''1234567'')) = 4 * 4 + 3"
    by (simp add: context_block_def demo_chunk_def)
  from context_exceeds_cap [OF this, of 2 default_settings] show ?thesis by (auto split: prod.splits)
qed

lemma confidence_between_witness:
  "confidence_score [demo_chunk ''a'', demo_chunk ''b''] \<le> 1"
  using confidence_between [of "[demo_chunk ''a'', demo_chunk ''b'']" 0 1] by (simp add: demo_chunk_def)

end
