(* ===== verification/Storage.thy ===== *)
theory Storage
  imports Config Models
begin

text \<open>
  Object storage (\<^verbatim>\<open>app/stores/storage.py\<close>) on the local file system and on S3. A file system is
  the map from resolved paths to contents; disk and permission errors are not modelled. The boto3
  client is the record \<open>s3_client\<close>, a parameter.
\<close>

definition build_path :: "string \<Rightarrow> string \<Rightarrow> string \<Rightarrow> string" where
  "build_path workspace_id document_id filename =
     ''workspaces/'' @ workspace_id @ ''/raw/'' @ document_id @ ''/'' @ filename"

text \<open>\<open>f"{n:06d}"\<close>\<close>

definition pad6 :: "int \<Rightarrow> string" where
  "pad6 n =
     (if n < 0 then CHR ''-'' # (let ds = nat_digits (nat (- n)) in replicate (5 - length ds) CHR ''0'' @ ds)
      else (let ds = nat_digits (nat n) in replicate (6 - length ds) CHR ''0'' @ ds))"

definition part_path :: "string \<Rightarrow> int \<Rightarrow> string" where
  "part_path upload_id n = ''_parts/'' @ upload_id @ ''/'' @ pad6 n @ ''.part''"

subsection \<open>Local file system\<close>

text \<open>
  \<open>root / path\<close>, as the system resolves it (without links): a path that starts with a slash replaces
  the root, empty and \<open>.\<close> components are skipped, \<open>..\<close> goes up.
\<close>

fun walk :: "string list \<Rightarrow> string list \<Rightarrow> string list" where
  "walk acc [] = rev acc"
| "walk acc (c # cs) =
     (if c = [] \<or> c = ''.'' then walk acc cs
      else if c = ''..'' then walk (tl acc) cs
      else walk (c # acc) cs)"

definition resolve :: "string \<Rightarrow> string \<Rightarrow> string list" where
  "resolve base path = walk [] (py_split ''/'' (if startswith path ''/'' then path else base @ ''/'' @ path))"

type_synonym fs = "string list \<Rightarrow> bytes option"

definition file_not_found :: "string \<Rightarrow> exn" where
  "file_not_found path = PyError ''FileNotFoundError'' path"

definition local_save_bytes :: "string \<Rightarrow> string \<Rightarrow> bytes \<Rightarrow> fs \<Rightarrow> (exn + string) \<times> fs" where
  "local_save_bytes base path data s = (Inr path, s(resolve base path \<mapsto> data))"

definition local_get_bytes :: "string \<Rightarrow> string \<Rightarrow> fs \<Rightarrow> exn + bytes" where
  "local_get_bytes base path s =
     (case s (resolve base path) of None \<Rightarrow> Inl (file_not_found path) | Some d \<Rightarrow> Inr d)"

definition local_save_part :: "string \<Rightarrow> string \<Rightarrow> int \<Rightarrow> bytes \<Rightarrow> fs \<Rightarrow> (exn + unit) \<times> fs" where
  "local_save_part base upload_id n data s = (Inr (), s(resolve base (part_path upload_id n) \<mapsto> data))"

text \<open>
  The parts are appended to the open file one by one; a missing part leaves what is written. (The
  file itself is not one of the parts: the writes are buffered.)
\<close>

fun local_append_parts :: "string \<Rightarrow> string \<Rightarrow> string \<Rightarrow> int list \<Rightarrow> fs \<Rightarrow> (exn + unit) \<times> fs" where
  "local_append_parts base upload_id final_path [] s = (Inr (), s)"
| "local_append_parts base upload_id final_path (n # ns) s =
     (case local_get_bytes base (part_path upload_id n) s of
        Inl e \<Rightarrow> (Inl e, s)
      | Inr d \<Rightarrow>
          local_append_parts base upload_id final_path ns
            (s(resolve base final_path :=
               Some ((case s (resolve base final_path) of None \<Rightarrow> [] | Some x \<Rightarrow> x) @ d))))"

definition local_complete_multipart ::
    "string \<Rightarrow> string \<Rightarrow> string \<Rightarrow> int \<Rightarrow> fs \<Rightarrow> (exn + string) \<times> fs" where
  "local_complete_multipart base upload_id final_path part_count s =
     (case local_append_parts base upload_id final_path [1..part_count] (s(resolve base final_path \<mapsto> [])) of
        (Inl e, s') \<Rightarrow> (Inl e, s')
      | (Inr _, s') \<Rightarrow> (Inr final_path, s'))"

definition local_size :: "string \<Rightarrow> string \<Rightarrow> fs \<Rightarrow> exn + int" where
  "local_size base path s =
     (case s (resolve base path) of None \<Rightarrow> Inl (file_not_found path) | Some d \<Rightarrow> Inr (int (length d)))"

subsection \<open>S3\<close>

record 'b s3_client =
  s3_put :: "string \<Rightarrow> bytes \<Rightarrow> 'b \<Rightarrow> (exn + unit) \<times> 'b"
  s3_get :: "string \<Rightarrow> 'b \<Rightarrow> exn + bytes"
  s3_head :: "string \<Rightarrow> 'b \<Rightarrow> exn + int"

definition s3_save_bytes :: "'b s3_client \<Rightarrow> string \<Rightarrow> bytes \<Rightarrow> 'b \<Rightarrow> (exn + string) \<times> 'b" where
  "s3_save_bytes c path data s =
     (case s3_put c path data s of (Inl e, s') \<Rightarrow> (Inl e, s') | (Inr _, s') \<Rightarrow> (Inr path, s'))"

definition s3_get_bytes :: "'b s3_client \<Rightarrow> string \<Rightarrow> 'b \<Rightarrow> exn + bytes" where
  "s3_get_bytes c path s = s3_get c path s"

definition s3_save_part :: "'b s3_client \<Rightarrow> string \<Rightarrow> int \<Rightarrow> bytes \<Rightarrow> 'b \<Rightarrow> (exn + unit) \<times> 'b" where
  "s3_save_part c upload_id n data s = s3_put c (part_path upload_id n) data s"

fun s3_read_parts :: "'b s3_client \<Rightarrow> string \<Rightarrow> int list \<Rightarrow> bytes \<Rightarrow> 'b \<Rightarrow> exn + bytes" where
  "s3_read_parts c upload_id [] buf s = Inr buf"
| "s3_read_parts c upload_id (n # ns) buf s =
     (case s3_get_bytes c (part_path upload_id n) s of
        Inl e \<Rightarrow> Inl e
      | Inr d \<Rightarrow> s3_read_parts c upload_id ns (buf @ d) s)"

definition s3_complete_multipart ::
    "'b s3_client \<Rightarrow> string \<Rightarrow> string \<Rightarrow> int \<Rightarrow> 'b \<Rightarrow> (exn + string) \<times> 'b" where
  "s3_complete_multipart c upload_id final_path part_count s =
     (case s3_read_parts c upload_id [1..part_count] [] s of
        Inl e \<Rightarrow> (Inl e, s)
      | Inr buf \<Rightarrow> s3_save_bytes c final_path buf s)"

definition s3_size :: "'b s3_client \<Rightarrow> string \<Rightarrow> 'b \<Rightarrow> exn + int" where
  "s3_size c path s = s3_head c path s"

subsection \<open>The adapter\<close>

text \<open>What the callers see of either: the interface \<open>StorageAdapter\<close>.\<close>

record 's storage_adapter =
  sa_save_bytes :: "string \<Rightarrow> bytes \<Rightarrow> 's \<Rightarrow> (exn + string) \<times> 's"
  sa_get_bytes :: "string \<Rightarrow> 's \<Rightarrow> exn + bytes"
  sa_save_part :: "string \<Rightarrow> int \<Rightarrow> bytes \<Rightarrow> 's \<Rightarrow> (exn + unit) \<times> 's"
  sa_complete_multipart :: "string \<Rightarrow> string \<Rightarrow> int \<Rightarrow> 's \<Rightarrow> (exn + string) \<times> 's"
  sa_size :: "string \<Rightarrow> 's \<Rightarrow> exn + int"

definition local_storage :: "string \<Rightarrow> fs storage_adapter" where
  "local_storage base =
     \<lparr>sa_save_bytes = local_save_bytes base, sa_get_bytes = local_get_bytes base,
      sa_save_part = local_save_part base, sa_complete_multipart = local_complete_multipart base,
      sa_size = local_size base\<rparr>"

definition s3_storage :: "'b s3_client \<Rightarrow> 'b storage_adapter" where
  "s3_storage c =
     \<lparr>sa_save_bytes = s3_save_bytes c, sa_get_bytes = s3_get_bytes c, sa_save_part = s3_save_part c,
      sa_complete_multipart = s3_complete_multipart c, sa_size = s3_size c\<rparr>"

text \<open>Whether \<open>get_storage\<close> builds the local adapter; anything else is S3.\<close>

definition use_local :: "settings \<Rightarrow> bool" where
  "use_local cfg \<longleftrightarrow> storage_backend cfg = ''local''"

subsection \<open>Object stores\<close>

text \<open>
  What callers rely on: a store in which a saved object is read back until it is saved again, other
  objects are not touched, a part is an object of its own, and completing an upload concatenates its
  parts. \<open>loc\<close> is where an object lies: two paths with the same location are the same object.
\<close>

locale object_store =
  fixes save :: "string \<Rightarrow> bytes \<Rightarrow> 's \<Rightarrow> (exn + string) \<times> 's"
    and get :: "string \<Rightarrow> 's \<Rightarrow> exn + bytes"
    and save_part :: "string \<Rightarrow> int \<Rightarrow> bytes \<Rightarrow> 's \<Rightarrow> (exn + unit) \<times> 's"
    and complete :: "string \<Rightarrow> string \<Rightarrow> int \<Rightarrow> 's \<Rightarrow> (exn + string) \<times> 's"
    and size :: "string \<Rightarrow> 's \<Rightarrow> exn + int"
    and loc :: "string \<Rightarrow> 'k"
  assumes save_ok: "fst (save p d s) = Inr p"
    and get_save: "get q (snd (save p d s)) = (if loc q = loc p then Inr d else get q s)"
    and part_save: "save_part u n d s = (Inr (), snd (save (part_path u n) d s))"
    and part_loc: "0 \<le> n \<Longrightarrow> 0 \<le> m \<Longrightarrow> loc (part_path u n) = loc (part_path u m) \<Longrightarrow> n = m"
    and complete_ok: "(\<And>n. 1 \<le> n \<Longrightarrow> n \<le> k \<Longrightarrow> get (part_path u n) s = Inr (ds n)) \<Longrightarrow>
       (\<And>n. 1 \<le> n \<Longrightarrow> n \<le> k \<Longrightarrow> loc (part_path u n) \<noteq> loc p) \<Longrightarrow>
       fst (complete u p k s) = Inr p \<and>
       get p (snd (complete u p k s)) = Inr (concat (map ds [1..k]))"
    and size_get: "get p s = Inr d \<Longrightarrow> size p s = Inr (int (length d))"
begin

lemma get_uploads:
  assumes "\<forall>(n, d) \<in> set uploads. 0 \<le> n" and "0 \<le> m"
  shows "get (part_path u m) (foldl (\<lambda>s (n, d). snd (save_part u n d s)) s uploads)
     = (case map_of (rev uploads) m of None \<Rightarrow> get (part_path u m) s | Some d \<Rightarrow> Inr d)"
  using assms(1)
proof (induction uploads rule: rev_induct)
  case (snoc x xs)
  obtain n d where x: "x = (n, d)" by fastforce
  have "loc (part_path u m) = loc (part_path u n) \<longleftrightarrow> m = n"
    using part_loc [of m n u] snoc.prems assms(2) by (auto simp: x)
  then show ?case using snoc by (auto simp: x part_save get_save split: option.split)
qed simp

text \<open>Uploading parts in any order, each once or more, and completing gives their concatenation.\<close>

lemma multipart_concat:
  assumes "\<forall>(n, d) \<in> set uploads. 0 \<le> n" and "\<And>n. 1 \<le> n \<Longrightarrow> n \<le> k \<Longrightarrow> map_of (rev uploads) n = Some (ds n)"
    and "\<And>n. 1 \<le> n \<Longrightarrow> n \<le> k \<Longrightarrow> loc (part_path u n) \<noteq> loc p"
  shows "fst (complete u p k (foldl (\<lambda>s (n, d). snd (save_part u n d s)) s uploads)) = Inr p \<and>
     get p (snd (complete u p k (foldl (\<lambda>s (n, d). snd (save_part u n d s)) s uploads)))
       = Inr (concat (map ds [1..k])) \<and>
     size p (snd (complete u p k (foldl (\<lambda>s (n, d). snd (save_part u n d s)) s uploads)))
       = Inr (int (length (concat (map ds [1..k]))))"
proof -
  have "get (part_path u n) (foldl (\<lambda>s (n, d). snd (save_part u n d s)) s uploads) = Inr (ds n)"
    if "1 \<le> n" "n \<le> k" for n
    using get_uploads [OF assms(1), of n u s] assms(2) [OF that] that by simp
  from complete_ok [OF this assms(3)] show ?thesis by (simp add: size_get)
qed

end

subsection \<open>The local file system as an object store\<close>

lemma split_sep_acc_last:
  assumes "c \<notin> set b"
  shows "split_sep_acc [c] acc (a @ c # b) = split_sep_acc [c] acc a @ [b]"
proof (induction a arbitrary: acc)
  case Nil
  have "split_sep_acc [c] [] b = [b]" using split_sep_acc_none [of "[c]" b "[]"] assms by simp
  then show ?case
    by (subst split_sep_acc.simps) (simp add: startswith_def split_sep_acc.simps [of "[c]" acc "[]"])
next
  case (Cons x a)
  show ?case
  proof (cases "x = c")
    case True
    then have "split_sep_acc [c] acc ((x # a) @ c # b) = rev acc # split_sep_acc [c] [] (a @ c # b)"
      "split_sep_acc [c] acc (x # a) = rev acc # split_sep_acc [c] [] a"
      by (subst split_sep_acc.simps, simp add: startswith_def)+
    then show ?thesis using Cons.IH by simp
  next
    case False
    then have "split_sep_acc [c] acc ((x # a) @ c # b) = split_sep_acc [c] (x # acc) (a @ c # b)"
      "split_sep_acc [c] acc (x # a) = split_sep_acc [c] (x # acc) a"
      by (subst split_sep_acc.simps, simp add: startswith_def)+
    then show ?thesis using Cons.IH by simp
  qed
qed

lemma walk_snoc: "c \<notin> {[], ''.'', ''..''} \<Longrightarrow> walk acc (cs @ [c]) = walk acc cs @ [c]"
  by (induction acc cs rule: walk.induct) auto

lemma resolve_file:
  assumes "dir \<noteq> []" and "CHR ''/'' \<notin> set f" and "f \<notin> {[], ''.'', ''..''}"
  shows "resolve base (dir @ ''/'' @ f) = resolve base dir @ [f]"
proof -
  have "startswith (dir @ ''/'' @ f) ''/'' = startswith dir ''/''" using assms(1) by (cases dir) (simp_all add: startswith_def)
  moreover have split: "py_split ''/'' (x @ CHR ''/'' # f) = py_split ''/'' x @ [f]" for x
    unfolding py_split_def by (rule split_sep_acc_last [OF assms(2)])
  ultimately show ?thesis
    using walk_snoc [OF assms(3)] split [of dir] split [of "base @ ''/'' @ dir"]
    by (simp add: resolve_def)
qed

text \<open>Part numbers are read back from their file names.\<close>

definition digits_val :: "string \<Rightarrow> nat" where
  "digits_val s = foldl (\<lambda>n c. 10 * n + (of_char c - 48)) 0 s"

lemma digits_val_nat_digits: "digits_val (nat_digits n) = n"
proof (induction n rule: nat_digits.induct)
  case (1 n)
  have step: "digits_val (s @ [c]) = 10 * digits_val s + (of_char c - 48)" for s c
    by (simp add: digits_val_def)
  show ?case
  proof (cases "n < 10")
    case True
    then show ?thesis by (subst nat_digits.simps) (simp add: digits_val_def)
  next
    case False
    then have "digits_val (nat_digits (n div 10)) = n div 10" by (rule 1)
    then have "digits_val (nat_digits n) = 10 * (n div 10) + n mod 10"
      using False by (subst nat_digits.simps) (simp add: step)
    then show ?thesis by simp
  qed
qed

lemma digits_val_zeros: "digits_val (replicate k CHR ''0'' @ s) = digits_val s"
  by (induction k) (simp_all add: digits_val_def)

lemma pad6_val: "0 \<le> n \<Longrightarrow> digits_val (pad6 n) = nat n"
  by (simp add: pad6_def Let_def digits_val_zeros digits_val_nat_digits)

lemma pad6_inject: "0 \<le> n \<Longrightarrow> 0 \<le> m \<Longrightarrow> pad6 n = pad6 m \<Longrightarrow> n = m"
  by (metis pad6_val nat_0_le)

lemma nat_digits_chars: "c \<in> set (nat_digits n) \<Longrightarrow> 48 \<le> (of_char c :: nat) \<and> (of_char c :: nat) \<le> 57"
proof (induction n arbitrary: c rule: nat_digits.induct)
  case (1 n)
  show ?case
  proof (cases "n < 10")
    case True
    then show ?thesis using 1(2) by (subst (asm) nat_digits.simps) simp
  next
    case False
    then have "c \<in> set (nat_digits (n div 10)) \<or> c = char_of (48 + n mod 10)"
      using 1(2) nat_digits.simps [of n] by auto
    moreover have "n mod 10 < 10" by simp
    ultimately show ?thesis using 1(1) [OF False] by auto
  qed
qed

lemma pad6_no_slash: "CHR ''/'' \<notin> set (pad6 n)"
proof -
  have "(of_char CHR ''/'' :: nat) = 47" by code_simp
  then have "CHR ''/'' \<notin> set (nat_digits k)" for k
    using nat_digits_chars [of "CHR ''/''" k] by auto
  then show ?thesis by (auto simp: pad6_def Let_def)
qed

lemma resolve_part:
  "resolve base (part_path u n) = resolve base (''_parts/'' @ u) @ [pad6 n @ ''.part'']"
proof -
  have "part_path u n = (''_parts/'' @ u) @ ''/'' @ (pad6 n @ ''.part'')" by (simp add: part_path_def)
  moreover have "pad6 n @ ''.part'' \<notin> {[], ''.'', ''..''}" by (cases "pad6 n") auto
  moreover have "CHR ''/'' \<notin> set (pad6 n @ ''.part'')" using pad6_no_slash by simp
  ultimately show ?thesis using resolve_file [of "''_parts/'' @ u" "pad6 n @ ''.part''" base] by (simp only:) simp
qed

lemma part_path_inject: "0 \<le> n \<Longrightarrow> 0 \<le> m \<Longrightarrow> part_path u n = part_path u m \<Longrightarrow> n = m"
  using pad6_inject by (simp add: part_path_def)

lemma local_append_parts_run:
  assumes "\<And>n. n \<in> set ns \<Longrightarrow> s (resolve base (part_path u n)) = Some (ds n)"
    and "\<And>n. n \<in> set ns \<Longrightarrow> resolve base (part_path u n) \<noteq> resolve base p"
    and "s (resolve base p) = Some done"
  shows "local_append_parts base u p ns s = (Inr (), s(resolve base p \<mapsto> done @ concat (map ds ns)))"
  using assms
proof (induction ns arbitrary: s "done")
  case Nil
  then show ?case by (simp add: fun_upd_idem)
next
  case (Cons n ns)
  let ?s = "s(resolve base p \<mapsto> done @ ds n)"
  have "local_append_parts base u p (n # ns) s = local_append_parts base u p ns ?s"
    using Cons.prems by (simp add: local_get_bytes_def)
  also have "\<dots> = (Inr (), ?s(resolve base p \<mapsto> (done @ ds n) @ concat (map ds ns)))"
    using Cons.prems by (intro Cons.IH) auto
  finally show ?case by (simp only: fun_upd_upd append_assoc list.map concat.simps)
qed

interpretation local_store: object_store "local_save_bytes base" "local_get_bytes base" "local_save_part base"
  "local_complete_multipart base" "local_size base" "resolve base" for base
proof unfold_locales
  fix k u s ds p
  assume get: "\<And>n. 1 \<le> n \<Longrightarrow> n \<le> k \<Longrightarrow> local_get_bytes base (part_path u n) s = Inr (ds n)"
    and away: "\<And>n. 1 \<le> n \<Longrightarrow> n \<le> k \<Longrightarrow> resolve base (part_path u n) \<noteq> resolve base p"
  have "s (resolve base (part_path u n)) = Some (ds n)" if "1 \<le> n" "n \<le> k" for n
    using get [OF that] by (auto simp: local_get_bytes_def split: option.splits)
  then have "local_append_parts base u p [1..k] (s(resolve base p \<mapsto> []))
      = (Inr (), s(resolve base p \<mapsto> [], resolve base p \<mapsto> [] @ concat (map ds [1..k])))"
    using away by (intro local_append_parts_run) auto
  then show "fst (local_complete_multipart base u p k s) = Inr p \<and>
      local_get_bytes base p (snd (local_complete_multipart base u p k s)) = Inr (concat (map ds [1..k]))"
    by (simp add: local_complete_multipart_def local_get_bytes_def)
next
  fix u n m
  assume "0 \<le> n" "0 \<le> m" "resolve base (part_path u n) = resolve base (part_path u m)"
  then show "n = m" using pad6_inject by (simp add: resolve_part)
qed (auto simp: local_save_bytes_def local_get_bytes_def local_save_part_def local_size_def split: option.splits)

subsection \<open>S3 as an object store\<close>

text \<open>What S3 documents of a bucket it can reach: strong read-after-write consistency per key.\<close>

definition s3_laws :: "'b s3_client \<Rightarrow> bool" where
  "s3_laws c \<longleftrightarrow>
     (\<forall>p d s. fst (s3_put c p d s) = Inr ()) \<and>
     (\<forall>p d s q. s3_get c q (snd (s3_put c p d s)) = (if q = p then Inr d else s3_get c q s)) \<and>
     (\<forall>p s d. s3_get c p s = Inr d \<longrightarrow> s3_head c p s = Inr (int (length d)))"

lemma s3_put_run: "s3_laws c \<Longrightarrow> s3_put c p d s = (Inr (), snd (s3_put c p d s))"
  by (simp add: s3_laws_def prod_eq_iff)

lemma s3_save_run: "s3_laws c \<Longrightarrow> s3_save_bytes c p d s = (Inr p, snd (s3_put c p d s))"
  by (subst s3_save_bytes_def, subst s3_put_run) simp_all

lemma s3_read_parts_run:
  "(\<And>n. n \<in> set ns \<Longrightarrow> s3_get c (part_path u n) s = Inr (ds n)) \<Longrightarrow>
   s3_read_parts c u ns buf s = Inr (buf @ concat (map ds ns))"
  by (induction ns arbitrary: buf) (simp_all add: s3_get_bytes_def)

lemma s3_object_store:
  assumes "s3_laws c"
  shows "object_store (s3_save_bytes c) (s3_get_bytes c) (s3_save_part c) (s3_complete_multipart c) (s3_size c) (\<lambda>p. p)"
proof unfold_locales
  fix k u s ds p
  assume "\<And>n. 1 \<le> n \<Longrightarrow> n \<le> k \<Longrightarrow> s3_get_bytes c (part_path u n) s = Inr (ds n)"
  then have "s3_read_parts c u [1..k] [] s = Inr (concat (map ds [1..k]))"
    using s3_read_parts_run [of "[1..k]" c u s ds "[]"] by (simp add: s3_get_bytes_def)
  then show "fst (s3_complete_multipart c u p k s) = Inr p \<and>
      s3_get_bytes c p (snd (s3_complete_multipart c u p k s)) = Inr (concat (map ds [1..k]))"
    using assms by (simp add: s3_complete_multipart_def s3_save_run [OF assms] s3_get_bytes_def) (simp add: s3_laws_def)
qed (use assms s3_save_run [OF assms] s3_put_run [OF assms] part_path_inject in
      \<open>auto simp: s3_get_bytes_def s3_save_part_def s3_size_def s3_laws_def\<close>)

text \<open>A bucket in memory, for concrete runs.\<close>

definition mem_s3 :: "(string \<Rightarrow> bytes option) s3_client" where
  "mem_s3 =
     \<lparr>s3_put = (\<lambda>p d s. (Inr (), s(p \<mapsto> d))),
      s3_get = (\<lambda>p s. case s p of None \<Rightarrow> Inl (PyError ''NoSuchKey'' p) | Some d \<Rightarrow> Inr d),
      s3_head = (\<lambda>p s. case s p of None \<Rightarrow> Inl (PyError ''ClientError'' p) | Some d \<Rightarrow> Inr (int (length d)))\<rparr>"

lemma mem_s3_laws: "s3_laws mem_s3"
  by (auto simp: s3_laws_def mem_s3_def split: option.splits)

text \<open>
  C21: Multipart uploads are put back together: parts uploaded in any order, each once or again,
  are concatenated in number order with the last upload of each, and the stored size is theirs; on
  the local file system and on S3 alike.
\<close>

theorem multipart_roundtrip:
  assumes "list_all (\<lambda>(n, d). 0 \<le> n) uploads"
    and "list_all (\<lambda>n. map_of (rev uploads) n = Some (ds n)) [1..k]"
    and "list_all (\<lambda>n. resolve base (part_path u n) \<noteq> resolve base p \<and> part_path u n \<noteq> p) [1..k]"
    and "s3_laws c"
  shows "(let s' = foldl (\<lambda>s (n, d). snd (local_save_part base u n d s)) s uploads;
              r = local_complete_multipart base u p k s'
          in fst r = Inr p \<and> local_get_bytes base p (snd r) = Inr (concat (map ds [1..k])) \<and>
             local_size base p (snd r) = Inr (int (length (concat (map ds [1..k]))))) \<and>
         (let b' = foldl (\<lambda>s (n, d). snd (s3_save_part c u n d s)) b uploads;
              r = s3_complete_multipart c u p k b'
          in fst r = Inr p \<and> s3_get_bytes c p (snd r) = Inr (concat (map ds [1..k])) \<and>
             s3_size c p (snd r) = Inr (int (length (concat (map ds [1..k])))))"
proof -
  have up: "\<forall>(n, d) \<in> set uploads. 0 \<le> n" and parts: "\<And>n. 1 \<le> n \<Longrightarrow> n \<le> k \<Longrightarrow> map_of (rev uploads) n = Some (ds n)"
    and away: "\<And>n. 1 \<le> n \<Longrightarrow> n \<le> k \<Longrightarrow> resolve base (part_path u n) \<noteq> resolve base p"
    and away': "\<And>n. 1 \<le> n \<Longrightarrow> n \<le> k \<Longrightarrow> part_path u n \<noteq> p"
    using assms(1-3) by (auto simp: list_all_iff)
  show ?thesis
    unfolding Let_def
    using local_store.multipart_concat [OF up parts away]
      object_store.multipart_concat [OF s3_object_store [OF assms(4)] up parts away']
    by blast
qed

lemma multipart_roundtrip_witness:
  "s3_get_bytes mem_s3 ''doc'' (snd (s3_complete_multipart mem_s3 ''u'' ''doc'' 2
      (foldl (\<lambda>s (n, d). snd (s3_save_part mem_s3 ''u'' n d s)) (\<lambda>_. None) [(2, [3]), (1, [9]), (1, [1, 2])])))
   = Inr [1, 2, 3]"
proof -
  have ks: "[1..2 :: int] = [1, 2]" by (simp add: upto.simps)
  have "list_all (\<lambda>n. resolve ''/data'' (part_path ''u'' n) \<noteq> resolve ''/data'' ''doc'' \<and> part_path ''u'' n \<noteq> ''doc'') [1..2]"
    unfolding ks by code_simp
  then show ?thesis
    using multipart_roundtrip [of "[(2, [3]), (1, [9]), (1, [1, 2])]" "\<lambda>n. if n = 1 then [1, 2] else [3]" 2
        "''/data''" "''u''" "''doc''" mem_s3 _ "\<lambda>_. None"] mem_s3_laws
    by (simp add: ks Let_def)
qed

end
