(* ===== verification/Ingestion.thy ===== *)
theory Ingestion
  imports Chunk AI_Extract Vector_Store Graph_Store Storage Auth
begin

text \<open>
  The ingestion worker (\<^verbatim>\<open>ingestion/worker_flow.py\<close>, \<^verbatim>\<open>ingestion/tasks.py\<close>). The worker has a
  database session and, beside it, what is not transactional: the gateway, the vector store, the
  graph, the object store and the session's own memory of the rows it loaded. Attributes are set
  in memory and written by the next flush, which updates the columns that changed; a flush that
  fails leaves the session unusable until it is rolled back. Other transactions may commit at each
  commit of the worker: \<open>ie_others n\<close> is what they do at its \<open>n\<close>-th commit site.
\<close>

record ('q, 'w, 's) services =
  wk_gateway :: "'w gateway"
  wk_vectors :: "'q vstore"
  wk_graph :: graph
  wk_storage :: 's

record ('q, 'w, 's) worker = "('q, 'w, 's) services" +
  wk_current :: string
  wk_doc :: document
  wk_doc_saved :: document
  wk_job :: ingestion_job
  wk_job_saved :: ingestion_job
  wk_new_chunks :: "document_chunk list"
  wk_new_errors :: "ingestion_error list"
  wk_broken :: bool

text \<open>The settings, clients, libraries, fresh ids and clock of a run.\<close>

record ('q, 'w, 's) ingest_env =
  ie_cfg :: settings
  ie_provider :: "'w provider"
  ie_json_loads :: "string \<Rightarrow> exn + pyval"
  ie_rep :: "pyval \<Rightarrow> string"
  ie_float :: "pyval \<Rightarrow> exn + rat"
  ie_decode :: "bytes \<Rightarrow> string"
  ie_docling :: docling
  ie_tokenizer :: tokenizer
  ie_sha256 :: "bytes \<Rightarrow> bytes"
  ie_qdrant :: "'q qdrant"
  ie_graph_up :: "nat \<Rightarrow> bool"
  ie_storage :: "'s storage_adapter"
  ie_chunk_id :: "nat \<Rightarrow> uuid"
  ie_job_id :: uuid
  ie_now :: timestamp
  ie_others :: "nat \<Rightarrow> db \<Rightarrow> db"

type_synonym ('q, 'w, 's, 'a) wk = "(db \<times> ('q, 'w, 's) worker, exn, 'a) tx"

definition steps_total :: nat where "steps_total = 16"

definition stale_data :: exn where "stale_data = PyError ''StaleDataError'' []"
definition pending_rollback :: exn where "pending_rollback = PyError ''PendingRollbackError'' []"

definition is_exn :: "string \<Rightarrow> exn \<Rightarrow> bool" where
  "is_exn name e \<longleftrightarrow> exn_name e = name"

subsection \<open>The session\<close>

text \<open>The columns of a row whose attribute changed in memory are written, the others are left.\<close>

definition changed :: "('r \<Rightarrow> 'a) \<Rightarrow> 'r \<Rightarrow> 'r \<Rightarrow> 'r \<Rightarrow> 'a" where
  "changed field old new row = (if field new = field old then field row else field new)"

definition write_doc :: "document \<Rightarrow> document \<Rightarrow> document \<Rightarrow> document" where
  "write_doc old new r =
     r\<lparr>d_tags := changed d_tags old new r, d_metadata := changed d_metadata old new r,
       d_ingestion_status := changed d_ingestion_status old new r,
       d_current_step := changed d_current_step old new r,
       d_chunk_count := changed d_chunk_count old new r,
       d_embedding_status := changed d_embedding_status old new r,
       d_content_hash := changed d_content_hash old new r\<rparr>"

definition write_job :: "ingestion_job \<Rightarrow> ingestion_job \<Rightarrow> ingestion_job \<Rightarrow> ingestion_job" where
  "write_job old new r =
     r\<lparr>j_status := changed j_status old new r, j_current_step := changed j_current_step old new r,
       j_steps_completed := changed j_steps_completed old new r, j_error := changed j_error old new r,
       j_completed_at := changed j_completed_at old new r\<rparr>"

definition flush_doc :: "document \<Rightarrow> document \<Rightarrow> db \<Rightarrow> exn + db" where
  "flush_doc old new d =
     (if new = old then Inr d
      else if get_by d_id (d_id new) (documents d) = None then Inl stale_data
      else Inr (d\<lparr>documents := set_rows (\<lambda>r. d_id r = d_id new) (write_doc old new) (documents d)\<rparr>))"

definition flush_job :: "ingestion_job \<Rightarrow> ingestion_job \<Rightarrow> db \<Rightarrow> exn + db" where
  "flush_job old new d =
     (if new = old then Inr d
      else if get_by j_id (j_id new) (ingestion_jobs d) = None then Inl stale_data
      else Inr (d\<lparr>ingestion_jobs := set_rows (\<lambda>r. j_id r = j_id new) (write_job old new) (ingestion_jobs d)\<rparr>))"

text \<open>\<open>section_ref\<close> is a \<open>String(255)\<close> column; a chunk and an error refer to an existing document.\<close>

definition insert_chunks :: "document_chunk list \<Rightarrow> db \<Rightarrow> exn + db" where
  "insert_chunks cs d =
     (if \<exists>c \<in> set cs. (case c_section_ref c of None \<Rightarrow> False | Some r \<Rightarrow> 255 < length r)
      then Inl (PyError ''DBAPIError'' ''value too long for type character varying(255)'')
      else if \<exists>c \<in> set cs. get_by d_id (c_document_id c) (documents d) = None \<or>
                get_by c_id (c_id c) (document_chunks d) \<noteq> None
      then Inl (integrity_error ''document_chunks'')
      else Inr (d\<lparr>document_chunks := document_chunks d @ cs\<rparr>))"

definition insert_errors :: "ingestion_error list \<Rightarrow> db \<Rightarrow> exn + db" where
  "insert_errors es d =
     (if \<exists>e \<in> set es. get_by d_id (e_document_id e) (documents d) = None
      then Inl (integrity_error ''ingestion_errors'')
      else Inr (d\<lparr>ingestion_errors := ingestion_errors d @ es\<rparr>))"

definition flush_db :: "('q, 'w, 's) worker \<Rightarrow> db \<Rightarrow> exn + db" where
  "flush_db w d =
     res_bind (flush_doc (wk_doc_saved w) (wk_doc w) d) (\<lambda>d.
     res_bind (flush_job (wk_job_saved w) (wk_job w) d) (\<lambda>d.
     res_bind (insert_chunks (wk_new_chunks w) d) (insert_errors (wk_new_errors w))))"

definition flush_session :: "('q, 'w, 's, unit) wk" where
  "flush_session = (\<lambda>s. case working s of (d, w) \<Rightarrow>
     if wk_broken w then (Inl pending_rollback, s)
     else case flush_db w d of
            Inl e \<Rightarrow> (Inl e, s\<lparr>working := (fst (committed s), w\<lparr>wk_broken := True\<rparr>)\<rparr>)
          | Inr d' \<Rightarrow> (Inr (), s\<lparr>working := (d', w\<lparr>wk_doc_saved := wk_doc w, wk_job_saved := wk_job w,
              wk_new_chunks := [], wk_new_errors := []\<rparr>)\<rparr>))"

definition commit_with :: "(db \<Rightarrow> db) \<Rightarrow> ('q, 'w, 's, unit) wk" where
  "commit_with others =
     tx_seq flush_session
       (tx_seq (tx_modify (\<lambda>(d, w). (others d, w))) tx_commit)"

text \<open>\<open>db.rollback()\<close>: pending changes and rows are dropped.\<close>

definition rollback_session :: "('q, 'w, 's, unit) wk" where
  "rollback_session = (\<lambda>s. case working s of (d, w) \<Rightarrow>
     (Inr (), s\<lparr>working := (fst (committed s), w\<lparr>wk_doc := wk_doc_saved w, wk_job := wk_job_saved w,
        wk_new_chunks := [], wk_new_errors := [], wk_broken := False\<rparr>)\<rparr>))"

definition set_doc :: "(document \<Rightarrow> document) \<Rightarrow> ('q, 'w, 's, unit) wk" where
  "set_doc f = tx_modify (\<lambda>(d, w). (d, w\<lparr>wk_doc := f (wk_doc w)\<rparr>))"

definition set_job :: "(ingestion_job \<Rightarrow> ingestion_job) \<Rightarrow> ('q, 'w, 's, unit) wk" where
  "set_job f = tx_modify (\<lambda>(d, w). (d, w\<lparr>wk_job := f (wk_job w)\<rparr>))"

definition set_current :: "string \<Rightarrow> ('q, 'w, 's, unit) wk" where
  "set_current c = tx_modify (\<lambda>(d, w). (d, w\<lparr>wk_current := c\<rparr>))"

definition the_doc :: "('q, 'w, 's, document) wk" where
  "the_doc = tx_read (\<lambda>(d, w). wk_doc w)"

text \<open>A call to a service: it acts on its own part of the worker and may raise.\<close>

definition on_gateway :: "('w gateway \<Rightarrow> 'a \<times> 'w gateway) \<Rightarrow> ('q, 'w, 's, 'a) wk" where
  "on_gateway f = (\<lambda>s. case working s of (d, w) \<Rightarrow>
     (case f (wk_gateway w) of (r, g) \<Rightarrow> (Inr r, s\<lparr>working := (d, w\<lparr>wk_gateway := g\<rparr>)\<rparr>)))"

definition on_vectors :: "('q vstore \<Rightarrow> 'a \<times> 'q vstore) \<Rightarrow> ('q, 'w, 's, 'a) wk" where
  "on_vectors f = (\<lambda>s. case working s of (d, w) \<Rightarrow>
     (case f (wk_vectors w) of (r, v) \<Rightarrow> (Inr r, s\<lparr>working := (d, w\<lparr>wk_vectors := v\<rparr>)\<rparr>)))"

definition on_graph :: "(graph \<Rightarrow> graph) \<Rightarrow> ('q, 'w, 's, unit) wk" where
  "on_graph f = tx_modify (\<lambda>(d, w). (d, w\<lparr>wk_graph := f (wk_graph w)\<rparr>))"

subsection \<open>Steps\<close>

definition set_status :: "(db \<Rightarrow> db) \<Rightarrow> ingestion_status \<Rightarrow> string \<Rightarrow> nat \<Rightarrow> ('q, 'w, 's, unit) wk" where
  "set_status others status step_name steps_done =
     tx_seq (set_doc (\<lambda>r. r\<lparr>d_ingestion_status := status_value status, d_current_step := Some step_name\<rparr>))
     (tx_seq (set_job (\<lambda>j. j\<lparr>j_status := status_value status, j_current_step := step_name,
        j_steps_completed := steps_done\<rparr>))
     (commit_with others))"

definition dead_letter :: "(db \<Rightarrow> db) \<Rightarrow> string \<Rightarrow> exn \<Rightarrow> ('q, 'w, 's, unit) wk" where
  "dead_letter others step exc =
     tx_seq (tx_modify (\<lambda>(d, w). (d, w\<lparr>wk_new_errors := wk_new_errors w @
       [\<lparr>e_document_id = d_id (wk_doc w), e_workspace_id = d_workspace_id (wk_doc w), e_step_failed = step,
         e_error_type = exn_name exc, e_error_message = take 2000 (exn_str exc), e_retry_count = 0\<rparr>]\<rparr>)))
     (tx_seq (set_doc (\<lambda>r. r\<lparr>d_ingestion_status := status_value Failed\<rparr>))
     (tx_seq (set_job (\<lambda>j. j\<lparr>j_status := status_value Failed, j_current_step := step,
        j_error := Some (take 2000 (exn_str exc))\<rparr>))
     (commit_with others)))"

definition step_retrieve :: "('q, 'w, 's) ingest_env \<Rightarrow> ('q, 'w, 's, bytes) wk" where
  "step_retrieve env =
     tx_seq (set_status (ie_others env 0) Processing ''retrieve'' 1)
     (tx_bind the_doc (\<lambda>doc.
      case d_storage_path doc of
        None \<Rightarrow> tx_return []
      | Some p \<Rightarrow> (if p = [] then tx_return []
                   else tx_query (\<lambda>(d, w). sa_get_bytes (ie_storage env) p (wk_storage w)))))"

definition step_parse :: "('q, 'w, 's) ingest_env \<Rightarrow> bytes \<Rightarrow> ('q, 'w, 's, parsed_document) wk" where
  "step_parse env data =
     tx_seq (set_current ''parse'')
     (tx_seq (set_status (ie_others env 1) Parsing ''parse'' 3)
     (tx_bind the_doc (\<lambda>doc.
      if data \<noteq> [] then tx_lift (parse_document (ie_decode env) (ie_docling env) data (d_file_type doc))
      else tx_return default_parsed)))"

definition step_tags :: "('q, 'w, 's) ingest_env \<Rightarrow> parsed_document \<Rightarrow> ('q, 'w, 's, unit) wk" where
  "step_tags env parsed =
     tx_seq (set_current ''tagging'')
     (tx_seq (set_status (ie_others env 2) Tagging ''tagging'' 5)
     (tx_bind the_doc (\<lambda>doc.
      if d_tags doc = []
      then tx_bind (on_gateway (generate_tags (ie_cfg env) (ie_provider env) (ie_json_loads env) (ie_rep env)
                      (pd_text parsed) (d_workspace_id doc))) (\<lambda>tags.
           tx_seq (set_doc (\<lambda>r. r\<lparr>d_tags := tags\<rparr>)) (commit_with (ie_others env 3)))
      else tx_return ())))"

definition step_chunk :: "('q, 'w, 's) ingest_env \<Rightarrow> bytes \<Rightarrow> parsed_document \<Rightarrow> ('q, 'w, 's, chunk_data list) wk" where
  "step_chunk env data parsed =
     tx_seq (set_current ''chunking'')
     (tx_seq (set_status (ie_others env 4) Chunking ''chunking'' 6)
     (tx_bind (tx_lift (chunk_parsed (ie_tokenizer env) parsed)) (\<lambda>chunks.
      tx_seq (set_doc (\<lambda>r. r\<lparr>d_content_hash :=
        (if data \<noteq> [] then Some (concat (map hex_byte (ie_sha256 env data))) else None)\<rparr>))
      (tx_return chunks))))"

text \<open>The metadata of a chunk: the row range of a table chunk.\<close>

definition chunk_meta :: "chunk_data \<Rightarrow> (string \<times> pyval) list" where
  "chunk_meta c =
     (case ch_rows c of None \<Rightarrow> []
      | Some (a, b) \<Rightarrow> [(''row_range'', PList [PInt (int a), PInt (int b)])])"

definition chunk_rows :: "(nat \<Rightarrow> uuid) \<Rightarrow> document \<Rightarrow> chunk_data list \<Rightarrow> document_chunk list" where
  "chunk_rows new_id doc chunks =
     map (\<lambda>(n, c). \<lparr>c_id = new_id n, c_document_id = d_id doc, c_workspace_id = d_workspace_id doc,
        c_chunk_index = ch_index c, c_chunk_text = ch_text c, c_token_count = ch_tokens c,
        c_section_ref = ch_ref c, c_source_type = d_source_type doc, c_metadata = chunk_meta c\<rparr>)
       (zip [0..<length chunks] chunks)"

text \<open>The bulk delete flushes first; it runs in the transaction of the rows that replace the old ones.\<close>

definition step_persist ::
    "('q, 'w, 's) ingest_env \<Rightarrow> chunk_data list \<Rightarrow> ('q, 'w, 's, document_chunk list) wk" where
  "step_persist env chunks =
     tx_seq (set_current ''persist_chunks'')
     (tx_seq flush_session
     (tx_seq (tx_modify (\<lambda>(d, w).
        (d\<lparr>document_chunks := filter (\<lambda>c. c_document_id c \<noteq> d_id (wk_doc w)) (document_chunks d)\<rparr>,
         w\<lparr>wk_new_chunks := chunk_rows (ie_chunk_id env) (wk_doc w) chunks\<rparr>)))
     (tx_bind (tx_read (\<lambda>(d, w). wk_new_chunks w)) (\<lambda>rows.
      tx_seq (set_doc (\<lambda>r. r\<lparr>d_chunk_count := Some (int (length rows))\<rparr>))
      (tx_seq (commit_with (ie_others env 5)) (tx_return rows))))))"

definition chunk_point :: "document \<Rightarrow> document_chunk \<Rightarrow> vector \<Rightarrow> point" where
  "chunk_point doc r v =
     \<lparr>p_id = str_uuid (c_id r), p_vector = v,
      p_payload =
        [(''workspace_id'', PStr (str_uuid (d_workspace_id doc))), (''document_id'', PStr (str_uuid (d_id doc))),
         (''document_name'', PStr (d_name doc)), (''chunk_index'', PInt (int (c_chunk_index r))),
         (''section_ref'', (case c_section_ref r of None \<Rightarrow> PNone | Some x \<Rightarrow> PStr x)),
         (''source_type'', PStr (d_source_type doc)), (''chunk_text'', PStr (c_chunk_text r)),
         (''tags'', PList (map PStr (d_tags doc)))]\<rparr>"

definition step_embed :: "('q, 'w, 's) ingest_env \<Rightarrow> document_chunk list \<Rightarrow> ('q, 'w, 's, unit) wk" where
  "step_embed env rows =
     tx_seq (set_current ''embedding'')
     (tx_seq (set_status (ie_others env 6) Embedding ''embedding'' 12)
     (tx_seq (set_doc (\<lambda>r. r\<lparr>d_embedding_status := emb_value EmbInProgress\<rparr>))
     (tx_seq (commit_with (ie_others env 7))
     (tx_bind the_doc (\<lambda>doc.
      tx_seq
        (if rows \<noteq> []
         then tx_bind (on_gateway (embed (ie_cfg env) (ie_provider env) (map c_chunk_text rows)
                         (d_workspace_id doc) None)) (\<lambda>r.
              tx_bind (tx_lift r) (\<lambda>vectors.
              tx_bind (on_vectors (vs_upsert (ie_cfg env) (ie_qdrant env) (d_workspace_id doc)
                         (map (\<lambda>(r, v). chunk_point doc r v) (zip rows vectors)))) tx_lift))
         else tx_return ())
        (tx_seq (set_doc (\<lambda>r. r\<lparr>d_embedding_status := emb_value EmbCompleted\<rparr>))
        (commit_with (ie_others env 8))))))))"

definition step_graph :: "('q, 'w, 's) ingest_env \<Rightarrow> parsed_document \<Rightarrow> document_chunk list \<Rightarrow> ('q, 'w, 's, nat) wk" where
  "step_graph env parsed rows =
     tx_seq (set_current ''graph'')
     (tx_seq (set_status (ie_others env 9) GraphMapping ''graph'' 14)
     (tx_bind the_doc (\<lambda>doc.
      tx_bind (on_gateway (ner_extract (ie_cfg env) (ie_provider env) (ie_json_loads env) (ie_rep env) (ie_float env)
                 (pd_text parsed) (d_workspace_id doc))) (\<lambda>(entities, relations).
      tx_seq (on_graph (upsert_graph (ie_graph_up env) (d_workspace_id doc) (d_id doc) entities relations
                (map_option c_id (first_row rows)) (Some (d_name doc)) (Some (d_tags doc)) (Some (d_source_type doc))))
      (tx_return (length entities))))))"

definition step_finalize :: "('q, 'w, 's) ingest_env \<Rightarrow> parsed_document \<Rightarrow> nat \<Rightarrow> ('q, 'w, 's, unit) wk" where
  "step_finalize env parsed entities =
     tx_seq (set_current ''finalize'')
     (tx_seq (set_doc (\<lambda>r. r\<lparr>d_metadata := dict_set ''entities'' (PInt (int entities))
        (dict_set ''page_count'' (PInt (pd_page_count parsed)) (d_metadata r))\<rparr>))
     (tx_seq (set_status (ie_others env 10) Finalizing ''finalize'' 15)
     (tx_seq (set_status (ie_others env 11) Completed ''completed'' steps_total)
     (tx_seq (set_job (\<lambda>j. j\<lparr>j_completed_at := Some (ie_now env)\<rparr>))
     (commit_with (ie_others env 12))))))"

definition ingest_steps :: "('q, 'w, 's) ingest_env \<Rightarrow> ('q, 'w, 's, unit) wk" where
  "ingest_steps env =
     tx_bind (step_retrieve env) (\<lambda>data.
     tx_bind (step_parse env data) (\<lambda>parsed.
     tx_seq (step_tags env parsed)
     (tx_bind (step_chunk env data parsed) (\<lambda>chunks.
      tx_bind (step_persist env chunks) (\<lambda>rows.
      tx_seq (step_embed env rows)
      (tx_bind (step_graph env parsed rows) (step_finalize env parsed)))))))"

subsection \<open>The run and its handlers\<close>

definition handle_parse_error :: "(db \<Rightarrow> db) \<Rightarrow> exn \<Rightarrow> ('q, 'w, 's, unit) wk" where
  "handle_parse_error others exc =
     tx_bind (tx_read (\<lambda>(d, w). wk_current w)) (\<lambda>current.
     tx_seq (dead_letter others current exc)
     (tx_raise (PyError ''PermanentIngestionError'' (exn_str exc))))"

definition handle_transient :: "(db \<Rightarrow> db) \<Rightarrow> exn \<Rightarrow> ('q, 'w, 's, unit) wk" where
  "handle_transient others exc =
     tx_bind (tx_read (\<lambda>(d, w). wk_current w)) (\<lambda>current.
     tx_seq (if current = ''embedding'' then set_doc (\<lambda>r. r\<lparr>d_embedding_status := emb_value EmbFailed\<rparr>) else tx_return ())
     (tx_seq (commit_with others)
     (tx_raise (PyError ''TransientIngestionError'' (current @ '': '' @ exn_str exc)))))"

definition run_steps :: "('q, 'w, 's) ingest_env \<Rightarrow> ('q, 'w, 's, unit) wk" where
  "run_steps env = (\<lambda>s.
     case ingest_steps env s of
       (Inr _, s') \<Rightarrow> (Inr (), s')
     | (Inl exc, s') \<Rightarrow>
         if is_exn ''ParseError'' exc then handle_parse_error (ie_others env 13) exc s'
         else if is_exn ''StaleDataError'' exc then rollback_session s'
         else handle_transient (ie_others env 14) exc s')"

definition new_job :: "uuid \<Rightarrow> document \<Rightarrow> timestamp \<Rightarrow> ingestion_job" where
  "new_job jid doc now =
     \<lparr>j_id = jid, j_document_id = d_id doc, j_workspace_id = d_workspace_id doc, j_status = status_value Queued,
      j_current_step = ''queued'', j_steps_completed = 0, j_steps_total = steps_total, j_error = None,
      j_completed_at = None, j_created_at = now\<rparr>"

definition latest_job :: "uuid \<Rightarrow> db \<Rightarrow> ingestion_job option" where
  "latest_job doc_id d =
     first_row (sort_key (\<lambda>j. - j_created_at j) (filter (\<lambda>j. j_document_id j = doc_id) (ingestion_jobs d)))"

definition load_worker ::
    "('q, 'w, 's) services \<Rightarrow> document \<Rightarrow> ingestion_job \<Rightarrow> ('q, 'w, 's) worker" where
  "load_worker sv doc job =
     \<lparr>wk_gateway = wk_gateway sv, wk_vectors = wk_vectors sv, wk_graph = wk_graph sv, wk_storage = wk_storage sv,
      wk_current = ''retrieve'', wk_doc = doc, wk_doc_saved = doc, wk_job = job, wk_job_saved = job,
      wk_new_chunks = [], wk_new_errors = [], wk_broken = False\<rparr>"

text \<open>
  A session on the document and its latest job, which is created when there is none; \<open>body\<close> runs in
  it, and what it did not commit is rolled back at the end.
\<close>

definition with_job ::
    "uuid \<Rightarrow> timestamp \<Rightarrow> ('q, 'w, 's, unit) wk \<Rightarrow> uuid \<Rightarrow> ('q, 'w, 's) services \<Rightarrow> db \<Rightarrow>
     (exn + unit) \<times> ('q, 'w, 's) services \<times> db" where
  "with_job new_id now body doc_id sv d =
     (case get_by d_id doc_id (documents d) of
        None \<Rightarrow> (Inr (), sv, d)
      | Some doc \<Rightarrow>
          let job = (case latest_job doc_id d of None \<Rightarrow> new_job new_id doc now | Some j \<Rightarrow> j);
              d' = (case latest_job doc_id d of
                      None \<Rightarrow> d\<lparr>ingestion_jobs := ingestion_jobs d @ [job]\<rparr> | Some j \<Rightarrow> d);
              w = load_worker sv doc job
          in if latest_job doc_id d = None \<and> get_by j_id new_id (ingestion_jobs d) \<noteq> None
             then (Inl (integrity_error ''ingestion_jobs''), sv, d)
             else case body \<lparr>committed = (d, w), working = (d', w)\<rparr> of
                    (r, s) \<Rightarrow> (r, services.truncate (snd (working s)), fst (committed s)))"

definition ingest_run ::
    "('q, 'w, 's) ingest_env \<Rightarrow> uuid \<Rightarrow> ('q, 'w, 's) services \<Rightarrow> db \<Rightarrow> (exn + unit) \<times> ('q, 'w, 's) services \<times> db" where
  "ingest_run env = with_job (ie_job_id env) (ie_now env) (run_steps env)"

definition mark_failed ::
    "('q, 'w, 's) ingest_env \<Rightarrow> string \<Rightarrow> string \<Rightarrow> uuid \<Rightarrow> ('q, 'w, 's) services \<Rightarrow> db \<Rightarrow>
     (exn + unit) \<times> ('q, 'w, 's) services \<times> db" where
  "mark_failed env step err = with_job (ie_job_id env) (ie_now env) (\<lambda>s.
     case dead_letter (ie_others env 0) step (PyError ''TransientIngestionError'' err) s of
       (Inl e, s') \<Rightarrow> (if is_exn ''StaleDataError'' e then rollback_session s' else (Inl e, s'))
     | (Inr _, s') \<Rightarrow> (Inr (), s'))"

subsection \<open>Properties that a run keeps\<close>

text \<open>
  A property of the database and the worker that the session, the services, the exchange of the
  chunks and the rollback keep is kept by every step and by the transient handler. \<open>touched\<close> and \<open>job_touched\<close> say that only written columns changed.
\<close>

definition touched :: "(document \<Rightarrow> document) \<Rightarrow> bool" where
  "touched f \<longleftrightarrow> (\<forall>r. write_doc r (f r) r = f r \<and> d_id (f r) = d_id r \<and> d_chunk_count (f r) = d_chunk_count r \<and>
     d_ingestion_status (f r) \<in> insert (d_ingestion_status r) (range status_value) \<and>
     d_embedding_status (f r) \<in> insert (d_embedding_status r) (range emb_value))"

definition job_touched :: "(ingestion_job \<Rightarrow> ingestion_job) \<Rightarrow> bool" where
  "job_touched f \<longleftrightarrow> (\<forall>j. write_job j (f j) j = f j \<and> j_id (f j) = j_id j \<and>
     j_status (f j) \<in> insert (j_status j) (range status_value))"

definition saved :: "('q, 'w, 's) worker \<Rightarrow> ('q, 'w, 's) worker" where
  "saved w = w\<lparr>wk_doc_saved := wk_doc w, wk_job_saved := wk_job w, wk_new_chunks := [], wk_new_errors := []\<rparr>"

locale worker_inv =
  fixes P :: "db \<times> ('q, 'w, 's) worker \<Rightarrow> bool"
    and env :: "('q, 'w, 's) ingest_env"
  assumes flush_ok: "P (d, w) \<Longrightarrow> flush_db w d = Inr d' \<Longrightarrow> P (d', saved w)"
    and flush_fail: "P (d, w) \<Longrightarrow> P (dc, wc) \<Longrightarrow> P (dc, w\<lparr>wk_broken := True\<rparr>)"
    and others_ok: "P (d, w) \<Longrightarrow> P (ie_others env n d, w)"
    and doc_ok: "touched f \<Longrightarrow> P (d, w) \<Longrightarrow> P (d, w\<lparr>wk_doc := f (wk_doc w)\<rparr>)"
    and job_ok: "job_touched h \<Longrightarrow> P (d, w) \<Longrightarrow> P (d, w\<lparr>wk_job := h (wk_job w)\<rparr>)"
    and services_ok: "P (d, w) \<Longrightarrow>
       P (d, w\<lparr>wk_gateway := g\<rparr>) \<and> P (d, w\<lparr>wk_graph := gr\<rparr>) \<and> P (d, w\<lparr>wk_current := cu\<rparr>) \<and>
       P (d, w\<lparr>wk_vectors := snd (vs_upsert cfg (ie_qdrant env) ws ps (wk_vectors w))\<rparr>)"
    and persist_ok: "P (d, w) \<Longrightarrow>
      P (d\<lparr>document_chunks := filter (\<lambda>c. c_document_id c \<noteq> d_id (wk_doc w)) (document_chunks d)\<rparr>,
         w\<lparr>wk_new_chunks := chunk_rows (ie_chunk_id env) (wk_doc w) chunks\<rparr>)"
    and count_ok: "P (d, w) \<Longrightarrow> P (d, w\<lparr>wk_doc := (wk_doc w)\<lparr>d_chunk_count := k\<rparr>\<rparr>)"
    and rollback_ok: "P (d, w) \<Longrightarrow> P (dc, wc) \<Longrightarrow> P (dc, w\<lparr>wk_doc := wk_doc_saved w, wk_job := wk_job_saved w,
        wk_new_chunks := [], wk_new_errors := [], wk_broken := False\<rparr>)"
begin

lemma flush_keeps: "tx_keeps P flush_session"
  unfolding tx_keeps_def flush_session_def
proof (intro allI impI)
  fix s :: "(db \<times> ('q, 'w, 's) worker) session"
  assume P: "P (committed s)" "P (working s)"
  obtain d w where dw: "working s = (d, w)" by fastforce
  obtain dc wc where c: "committed s = (dc, wc)" by fastforce
  show "P (committed (snd (case working s of (d, w) \<Rightarrow>
         if wk_broken w then (Inl pending_rollback, s)
         else case flush_db w d of
                Inl e \<Rightarrow> (Inl e, s\<lparr>working := (fst (committed s), w\<lparr>wk_broken := True\<rparr>)\<rparr>)
              | Inr d' \<Rightarrow> (Inr (), s\<lparr>working := (d', w\<lparr>wk_doc_saved := wk_doc w, wk_job_saved := wk_job w,
                  wk_new_chunks := [], wk_new_errors := []\<rparr>)\<rparr>)))) \<and>
      P (working (snd (case working s of (d, w) \<Rightarrow>
         if wk_broken w then (Inl pending_rollback, s)
         else case flush_db w d of
                Inl e \<Rightarrow> (Inl e, s\<lparr>working := (fst (committed s), w\<lparr>wk_broken := True\<rparr>)\<rparr>)
              | Inr d' \<Rightarrow> (Inr (), s\<lparr>working := (d', w\<lparr>wk_doc_saved := wk_doc w, wk_job_saved := wk_job w,
                  wk_new_chunks := [], wk_new_errors := []\<rparr>)\<rparr>))))"
    using P flush_fail [of d w dc wc] flush_ok [of d w] unfolding dw c
    by (auto simp: saved_def dw c split: sum.split)
qed

lemma commit_keeps: "tx_keeps P (commit_with (ie_others env n))"
  unfolding commit_with_def
  by (intro inv_intros flush_keeps tx_keeps_modify) (auto intro: others_ok)

lemma set_keeps:
  "touched f \<Longrightarrow> tx_keeps P (set_doc f)"
  "job_touched h \<Longrightarrow> tx_keeps P (set_job h)"
  "tx_keeps P (set_current c)"
  "tx_keeps P the_doc"
  unfolding set_doc_def set_job_def set_current_def the_doc_def
  by (rule tx_keeps_modify, auto intro: doc_ok)
     (rule tx_keeps_modify, auto intro: job_ok,
      rule tx_keeps_modify, use services_ok in auto,
      rule inv_intros)

end

lemma touched_set:
  "touched (\<lambda>r. r\<lparr>d_ingestion_status := status_value a\<rparr>)"
  "touched (\<lambda>r. r\<lparr>d_ingestion_status := status_value a, d_current_step := b\<rparr>)"
  "touched (\<lambda>r. r\<lparr>d_tags := t\<rparr>)"
  "touched (\<lambda>r. r\<lparr>d_content_hash := h\<rparr>)"
  "touched (\<lambda>r. r\<lparr>d_embedding_status := emb_value e\<rparr>)"
  "touched (\<lambda>r. r\<lparr>d_metadata := m (d_metadata r)\<rparr>)"
  by (simp_all add: touched_def write_doc_def changed_def)

lemma job_touched_set:
  "job_touched (\<lambda>j. j\<lparr>j_status := status_value a, j_current_step := b, j_steps_completed := n\<rparr>)"
  "job_touched (\<lambda>j. j\<lparr>j_status := status_value a, j_current_step := b, j_error := e\<rparr>)"
  "job_touched (\<lambda>j. j\<lparr>j_completed_at := t\<rparr>)"
  by (simp_all add: job_touched_def write_job_def changed_def)

lemmas touched_rules = touched_set job_touched_set

lemma on_service_keeps:
  "(\<And>d w g. P (d, w) \<Longrightarrow> P (d, w\<lparr>wk_gateway := g\<rparr>)) \<Longrightarrow> tx_keeps P (on_gateway c)"
  "(\<And>d w. P (d, w) \<Longrightarrow> P (d, w\<lparr>wk_vectors := snd (v (wk_vectors w))\<rparr>)) \<Longrightarrow> tx_keeps P (on_vectors v)"
  "(\<And>d w g. P (d, w) \<Longrightarrow> P (d, w\<lparr>wk_graph := g\<rparr>)) \<Longrightarrow> tx_keeps P (on_graph f)"
proof -
  show "(\<And>d w g. P (d, w) \<Longrightarrow> P (d, w\<lparr>wk_gateway := g\<rparr>)) \<Longrightarrow> tx_keeps P (on_gateway c)"
    by (auto simp: tx_keeps_def on_gateway_def split: prod.split)
  show "(\<And>d w. P (d, w) \<Longrightarrow> P (d, w\<lparr>wk_vectors := snd (v (wk_vectors w))\<rparr>)) \<Longrightarrow> tx_keeps P (on_vectors v)"
    by (auto simp: tx_keeps_def on_vectors_def split: prod.split) (metis snd_conv)
  show "(\<And>d w g. P (d, w) \<Longrightarrow> P (d, w\<lparr>wk_graph := g\<rparr>)) \<Longrightarrow> tx_keeps P (on_graph f)"
    unfolding on_graph_def by (rule tx_keeps_modify) auto
qed

context worker_inv begin

lemma services_keep:
  "tx_keeps P (on_gateway c)"
  "tx_keeps P (on_vectors (vs_upsert cfg (ie_qdrant env) ws ps))"
  "tx_keeps P (on_graph f)"
  using services_ok by (auto intro: on_service_keeps)

lemma status_keeps: "tx_keeps P (set_status (ie_others env n) st name k)"
  unfolding set_status_def by (intro inv_intros set_keeps touched_rules commit_keeps)

lemmas worker_intros = inv_intros set_keeps touched_rules commit_keeps status_keeps services_keep flush_keeps

lemma steps_keep:
  "tx_keeps P (step_retrieve env)"
  "tx_keeps P (step_parse env data)"
  "tx_keeps P (step_tags env parsed)"
  "tx_keeps P (step_chunk env data parsed)"
  "tx_keeps P (step_embed env rows)"
  "tx_keeps P (step_graph env parsed rows)"
  "tx_keeps P (step_finalize env parsed k)"
  unfolding step_retrieve_def step_parse_def step_tags_def step_chunk_def step_embed_def step_graph_def
    step_finalize_def
  by (intro worker_intros)+

lemma transient_keeps: "tx_keeps P (handle_transient (ie_others env n) e)"
  unfolding handle_transient_def by (intro worker_intros)

lemma count_keeps: "tx_keeps P (set_doc (\<lambda>r. r\<lparr>d_chunk_count := n\<rparr>))"
  unfolding set_doc_def by (rule tx_keeps_modify) (auto intro: count_ok)

lemma persist_keeps: "tx_keeps P (step_persist env chunks)"
  unfolding step_persist_def
  by (intro inv_intros set_keeps(3) flush_keeps count_keeps commit_keeps tx_keeps_modify) (auto intro: persist_ok)

lemma ingest_steps_keep: "tx_keeps P (ingest_steps env)"
  unfolding ingest_steps_def by (intro inv_intros steps_keep persist_keeps)

lemma rollback_keeps: "tx_keeps P rollback_session"
  unfolding tx_keeps_def rollback_session_def
proof (intro allI impI)
  fix s :: "(db \<times> ('q, 'w, 's) worker) session"
  assume P: "P (committed s)" "P (working s)"
  then show "P (committed (snd (case working s of (d, w) \<Rightarrow>
     (Inr (), s\<lparr>working := (fst (committed s), w\<lparr>wk_doc := wk_doc_saved w, wk_job := wk_job_saved w,
        wk_new_chunks := [], wk_new_errors := [], wk_broken := False\<rparr>)\<rparr>)))) \<and>
    P (working (snd (case working s of (d, w) \<Rightarrow>
     (Inr (), s\<lparr>working := (fst (committed s), w\<lparr>wk_doc := wk_doc_saved w, wk_job := wk_job_saved w,
        wk_new_chunks := [], wk_new_errors := [], wk_broken := False\<rparr>)\<rparr>))))"
    using rollback_ok [of "fst (working s)" "snd (working s)" "fst (committed s)" "snd (committed s)"]
    by (simp add: case_prod_unfold)
qed

end

text \<open>With the dead letter, a property is kept by the whole run.\<close>

locale worker_full = worker_inv P env
  for P :: "db \<times> ('q, 'w, 's) worker \<Rightarrow> bool" and env :: "('q, 'w, 's) ingest_env" +
  assumes error_ok: "P (d, w) \<Longrightarrow> e_document_id e = d_id (wk_doc w) \<Longrightarrow> P (d, w\<lparr>wk_new_errors := wk_new_errors w @ [e]\<rparr>)"
begin

lemma dead_letter_keeps: "tx_keeps P (dead_letter (ie_others env n) step exc)"
  unfolding dead_letter_def
  by (intro worker_intros tx_keeps_modify) (auto intro: error_ok)

lemma parse_error_keeps: "tx_keeps P (handle_parse_error (ie_others env n) e)"
  unfolding handle_parse_error_def by (intro inv_intros dead_letter_keeps)

lemma run_steps_keep: "tx_keeps P (run_steps env)"
  unfolding tx_keeps_def
proof (intro allI impI)
  fix s :: "(db \<times> ('q, 'w, 's) worker) session"
  assume P: "P (committed s)" "P (working s)"
  obtain r s' where run: "ingest_steps env s = (r, s')" by fastforce
  have P': "P (committed s')" "P (working s')"
    using ingest_steps_keep P run unfolding tx_keeps_def by (metis snd_conv)+
  note keeps = parse_error_keeps rollback_keeps transient_keeps
  show "P (committed (snd (run_steps env s))) \<and> P (working (snd (run_steps env s)))"
    using P' keeps unfolding run_steps_def run tx_keeps_def by (auto split: sum.split)
qed

text \<open>What a whole run keeps of the database, from the state it starts in.\<close>

lemma run_keeps:
  assumes "\<And>doc job. get_by d_id doc_id (documents d) = Some doc \<Longrightarrow> latest_job doc_id d = Some job \<Longrightarrow>
      P (d, load_worker sv doc job)"
    and "\<And>doc. get_by d_id doc_id (documents d) = Some doc \<Longrightarrow> latest_job doc_id d = None \<Longrightarrow>
      get_by j_id (ie_job_id env) (ingestion_jobs d) = None \<Longrightarrow>
      P (d, load_worker sv doc (new_job (ie_job_id env) doc (ie_now env))) \<and>
      P (d\<lparr>ingestion_jobs := ingestion_jobs d @ [new_job (ie_job_id env) doc (ie_now env)]\<rparr>,
         load_worker sv doc (new_job (ie_job_id env) doc (ie_now env)))"
    and "ingest_run env doc_id sv d = (r, sv', d')"
  shows "(sv' = sv \<and> d' = d) \<or> ((\<exists>w. P (d', w)) \<and> (\<exists>d w. sv' = services.truncate w \<and> P (d, w)))"
proof -
  have run: ?thesis if "P s" "P s2" "(case run_steps env \<lparr>committed = s, working = s2\<rparr> of
      (r, s) \<Rightarrow> (r, services.truncate (snd (working s)), fst (committed s))) = (r, sv', d')" for s s2
  proof -
    obtain r0 s0 where r0: "run_steps env \<lparr>committed = s, working = s2\<rparr> = (r0, s0)" by fastforce
    then have "P (committed s0)" "P (working s0)"
      using run_steps_keep that(1,2) unfolding tx_keeps_def
      by (metis session.select_convs(1,2) snd_conv)+
    then show ?thesis using that(3) r0 by (cases "committed s0"; cases "working s0") auto
  qed
  show ?thesis
  proof (cases "get_by d_id doc_id (documents d)")
    case None
    then show ?thesis using assms(3) by (simp add: ingest_run_def with_job_def)
  next
    case doc: (Some doc)
    show ?thesis
    proof (cases "latest_job doc_id d")
      case (Some job)
      then show ?thesis using assms(1) [OF doc Some] assms(3) doc
        by (intro run) (simp_all add: ingest_run_def with_job_def Let_def)
    next
      case None
      show ?thesis
      proof (cases "get_by j_id (ie_job_id env) (ingestion_jobs d) = None")
        case True
        then show ?thesis using assms(2) [OF doc None True] assms(3) doc None
          by (intro run) (simp_all add: ingest_run_def with_job_def Let_def)
      next
        case False
        then show ?thesis using assms(3) doc None by (auto simp: ingest_run_def with_job_def Let_def)
      qed
    qed
  qed
qed

end

subsection \<open>A run and the other rows\<close>

definition alone :: "('q, 'w, 's) ingest_env \<Rightarrow> ('q, 'w, 's) ingest_env" where
  "alone env = env\<lparr>ie_others := \<lambda>n d. d\<rparr>"

lemma alone_simps [simp]:
  "ie_others (alone env) n d = d" "ie_qdrant (alone env) = ie_qdrant env" "ie_chunk_id (alone env) = ie_chunk_id env"
  "ie_job_id (alone env) = ie_job_id env" "ie_now (alone env) = ie_now env"
  by (simp_all add: alone_def)

lemma saved_simps [simp]:
  "wk_doc (saved w) = wk_doc w" "wk_job (saved w) = wk_job w" "wk_doc_saved (saved w) = wk_doc w"
  "wk_job_saved (saved w) = wk_job w" "wk_new_chunks (saved w) = []" "wk_new_errors (saved w) = []"
  "wk_broken (saved w) = wk_broken w" "wk_vectors (saved w) = wk_vectors w"
  by (simp_all add: saved_def)

lemma flush_db_Inr:
  assumes "flush_db w d = Inr d'"
  obtains d1 d2 d3 where "flush_doc (wk_doc_saved w) (wk_doc w) d = Inr d1"
    "flush_job (wk_job_saved w) (wk_job w) d1 = Inr d2" "insert_chunks (wk_new_chunks w) d2 = Inr d3"
    "insert_errors (wk_new_errors w) d3 = Inr d'"
  using assms by (auto simp: flush_db_def res_bind_Inr)

lemma write_doc_simps [simp]: "d_id (write_doc old new r) = d_id r" "d_workspace_id (write_doc old new r) = d_workspace_id r"
  by (simp_all add: write_doc_def)

lemma write_job_simps [simp]: "j_id (write_job old new r) = j_id r" "j_document_id (write_job old new r) = j_document_id r"
  by (simp_all add: write_job_def)

lemma flush_doc_Inr:
  "flush_doc old new d = Inr d' \<Longrightarrow> (new = old \<and> d' = d) \<or> (new \<noteq> old \<and> get_by d_id (d_id new) (documents d) \<noteq> None \<and>
     d' = d\<lparr>documents := set_rows (\<lambda>r. d_id r = d_id new) (write_doc old new) (documents d)\<rparr>)"
  by (auto simp: flush_doc_def split: if_splits)

lemma flush_job_Inr:
  "flush_job old new d = Inr d' \<Longrightarrow> (new = old \<and> d' = d) \<or> (new \<noteq> old \<and> get_by j_id (j_id new) (ingestion_jobs d) \<noteq> None \<and>
     d' = d\<lparr>ingestion_jobs := set_rows (\<lambda>r. j_id r = j_id new) (write_job old new) (ingestion_jobs d)\<rparr>)"
  by (auto simp: flush_job_def split: if_splits)

lemma insert_Inr:
  "insert_chunks cs d = Inr d' \<Longrightarrow> d' = d\<lparr>document_chunks := document_chunks d @ cs\<rparr> \<and>
     (\<forall>c \<in> set cs. c_document_id c \<in> d_id ` set (documents d) \<and>
        (case c_section_ref c of None \<Rightarrow> True | Some r \<Rightarrow> length r \<le> 255))"
  "insert_errors es x = Inr x' \<Longrightarrow> x' = x\<lparr>ingestion_errors := ingestion_errors x @ es\<rparr> \<and>
     (\<forall>e \<in> set es. e_document_id e \<in> d_id ` set (documents x))"
proof -
  show "insert_chunks cs d = Inr d' \<Longrightarrow> d' = d\<lparr>document_chunks := document_chunks d @ cs\<rparr> \<and>
     (\<forall>c \<in> set cs. c_document_id c \<in> d_id ` set (documents d) \<and>
        (case c_section_ref c of None \<Rightarrow> True | Some r \<Rightarrow> length r \<le> 255))"
    unfolding insert_chunks_def get_by_mem [symmetric]
    by (auto split: if_splits option.split)
  show "insert_errors es x = Inr x' \<Longrightarrow> x' = x\<lparr>ingestion_errors := ingestion_errors x @ es\<rparr> \<and>
     (\<forall>e \<in> set es. e_document_id e \<in> d_id ` set (documents x))"
    unfolding insert_errors_def get_by_mem [symmetric] by (auto split: if_splits)
qed

text \<open>Chunks, jobs and errors refer to documents that exist.\<close>

definition ingest_fk :: "db \<Rightarrow> bool" where
  "ingest_fk d \<longleftrightarrow>
     c_document_id ` set (document_chunks d) \<subseteq> d_id ` set (documents d) \<and>
     j_document_id ` set (ingestion_jobs d) \<subseteq> d_id ` set (documents d) \<and>
     e_document_id ` set (ingestion_errors d) \<subseteq> d_id ` set (documents d)"

lemma flush_fk: "ingest_fk d \<Longrightarrow> flush_db w d = Inr d' \<Longrightarrow> ingest_fk d'"
proof -
  assume fk: "ingest_fk d" and run: "flush_db w d = Inr d'"
  obtain d1 d2 d3 where fl: "flush_doc (wk_doc_saved w) (wk_doc w) d = Inr d1"
    "flush_job (wk_job_saved w) (wk_job w) d1 = Inr d2" "insert_chunks (wk_new_chunks w) d2 = Inr d3"
    "insert_errors (wk_new_errors w) d3 = Inr d'"
    using run by (rule flush_db_Inr)
  have "ingest_fk d1"
    using flush_doc_Inr [OF fl(1)] fk by (elim disjE) (simp_all add: ingest_fk_def set_rows_image)
  then have "ingest_fk d2"
    using flush_job_Inr [OF fl(2)] by (elim disjE) (simp_all add: ingest_fk_def set_rows_image)
  then have "ingest_fk d3" using insert_Inr(1) [OF fl(3)] by (auto simp: ingest_fk_def)
  then show "ingest_fk d'" using insert_Inr(2) [OF fl(4)] by (auto simp: ingest_fk_def)
qed

lemma fk_worker:
  fixes env :: "('q, 'w, 's) ingest_env"
  assumes "\<And>n d. ingest_fk d \<Longrightarrow> ingest_fk (ie_others env n d)"
  shows "worker_full (\<lambda>(d, w). ingest_fk d) env"
proof unfold_locales
  fix d d' and w :: "('q, 'w, 's) worker" assume "case (d, w) of (d, w) \<Rightarrow> ingest_fk d" "flush_db w d = Inr d'"
  then show "case (d', saved w) of (d, w) \<Rightarrow> ingest_fk d" using flush_fk by simp
next
  fix d chunks and w :: "('q, 'w, 's) worker" assume "case (d, w) of (d, w) \<Rightarrow> ingest_fk d"
  then show "case (d\<lparr>document_chunks := filter (\<lambda>c. c_document_id c \<noteq> d_id (wk_doc w)) (document_chunks d)\<rparr>,
      w\<lparr>wk_new_chunks := chunk_rows (ie_chunk_id env) (wk_doc w) chunks\<rparr>) of (d, w) \<Rightarrow> ingest_fk d"
    by (auto simp: ingest_fk_def)
qed (use assms in simp_all)

text \<open>
  C22: No dangling rows, however the ingestion of a document interleaves with other transactions:
  if those keep every chunk, job and error attached to an existing document, so does the worker,
  whatever fails; in particular, a document deleted in the middle of its ingestion leaves no chunk,
  job or error row behind.
\<close>

theorem ingest_keeps_references:
  assumes "\<And>n d. ingest_fk d \<Longrightarrow> ingest_fk (ie_others env n d)"
    and "ingest_fk d" and "ingest_run env doc_id sv d = (r, sv', d')"
  shows "ingest_fk d' \<and>
    (get_by d_id doc_id (documents d') = None \<longrightarrow>
       filter (\<lambda>c. c_document_id c = doc_id) (document_chunks d') = [] \<and>
       filter (\<lambda>j. j_document_id j = doc_id) (ingestion_jobs d') = [] \<and>
       filter (\<lambda>e. e_document_id e = doc_id) (ingestion_errors d') = [])"
proof -
  have start: "ingest_fk (d\<lparr>ingestion_jobs := ingestion_jobs d @ [new_job jid doc now]\<rparr>)"
    if "get_by d_id doc_id (documents d) = Some doc" for doc jid now
    using assms(2) get_by_Some [OF that] by (auto simp: ingest_fk_def new_job_def)
  have "ingest_fk d'"
    using worker_full.run_keeps [OF fk_worker [OF assms(1)], of doc_id d sv r sv' d'] assms(2,3) start by auto
  then show ?thesis
    unfolding ingest_fk_def by (auto simp: filter_empty_conv get_by_None image_subset_iff) (metis imageE)+
qed

text \<open>The database without one document and its rows; and what a worker of that document keeps.\<close>

definition other_rows :: "uuid \<Rightarrow> db \<Rightarrow> db" where
  "other_rows doc_id d =
     d\<lparr>documents := filter (\<lambda>x. d_id x \<noteq> doc_id) (documents d),
       document_chunks := filter (\<lambda>c. c_document_id c \<noteq> doc_id) (document_chunks d),
       ingestion_jobs := filter (\<lambda>j. j_document_id j \<noteq> doc_id) (ingestion_jobs d),
       ingestion_errors := filter (\<lambda>e. e_document_id e \<noteq> doc_id) (ingestion_errors d)\<rparr>"

definition works_on :: "uuid \<Rightarrow> uuid \<Rightarrow> db \<Rightarrow> db \<times> ('q, 'w, 's) worker \<Rightarrow> bool" where
  "works_on doc_id jid V dw \<longleftrightarrow> (case dw of (d, w) \<Rightarrow>
     other_rows doc_id d = V \<and> d_id (wk_doc w) = doc_id \<and> d_id (wk_doc_saved w) = doc_id \<and>
     j_id (wk_job w) = jid \<and> j_id (wk_job_saved w) = jid \<and>
     (\<forall>j \<in> set (ingestion_jobs d). j_id j = jid \<longrightarrow> j_document_id j = doc_id) \<and>
     (\<forall>c \<in> set (wk_new_chunks w). c_document_id c = doc_id) \<and>
     (\<forall>e \<in> set (wk_new_errors w). e_document_id e = doc_id))"

lemma other_rows_set:
  "other_rows doc_id (d\<lparr>documents := set_rows (\<lambda>r. d_id r = doc_id) (write_doc old new) (documents d)\<rparr>) = other_rows doc_id d"
  "(\<And>j. j \<in> set (ingestion_jobs d2) \<Longrightarrow> j_id j = jid \<Longrightarrow> j_document_id j = doc_id) \<Longrightarrow>
   other_rows doc_id (d2\<lparr>ingestion_jobs := set_rows (\<lambda>r. j_id r = jid) (write_job jold jnew) (ingestion_jobs d2)\<rparr>)
     = other_rows doc_id d2"
  "(\<And>c. c \<in> set cs \<Longrightarrow> c_document_id c = doc_id) \<Longrightarrow>
   other_rows doc_id (d3\<lparr>document_chunks := document_chunks d3 @ cs\<rparr>) = other_rows doc_id d3"
  "(\<And>e. e \<in> set es \<Longrightarrow> e_document_id e = doc_id) \<Longrightarrow>
   other_rows doc_id (d4\<lparr>ingestion_errors := ingestion_errors d4 @ es\<rparr>) = other_rows doc_id d4"
proof -
  show "other_rows doc_id (d\<lparr>documents := set_rows (\<lambda>r. d_id r = doc_id) (write_doc old new) (documents d)\<rparr>) = other_rows doc_id d"
    by (simp add: other_rows_def set_rows_filter_other)
  have "filter (\<lambda>j. j_document_id j \<noteq> doc_id) (set_rows (\<lambda>r. j_id r = jid) (write_job jold jnew) js)
      = filter (\<lambda>j. j_document_id j \<noteq> doc_id) js"
    if "\<And>j. j \<in> set js \<Longrightarrow> j_id j = jid \<Longrightarrow> j_document_id j = doc_id" for js
    using that by (induction js) auto
  then show "(\<And>j. j \<in> set (ingestion_jobs d2) \<Longrightarrow> j_id j = jid \<Longrightarrow> j_document_id j = doc_id) \<Longrightarrow>
   other_rows doc_id (d2\<lparr>ingestion_jobs := set_rows (\<lambda>r. j_id r = jid) (write_job jold jnew) (ingestion_jobs d2)\<rparr>)
     = other_rows doc_id d2"
    by (simp add: other_rows_def)
  show "(\<And>c. c \<in> set cs \<Longrightarrow> c_document_id c = doc_id) \<Longrightarrow>
   other_rows doc_id (d3\<lparr>document_chunks := document_chunks d3 @ cs\<rparr>) = other_rows doc_id d3"
    by (simp add: other_rows_def filter_empty_conv)
  show "(\<And>e. e \<in> set es \<Longrightarrow> e_document_id e = doc_id) \<Longrightarrow>
   other_rows doc_id (d4\<lparr>ingestion_errors := ingestion_errors d4 @ es\<rparr>) = other_rows doc_id d4"
    by (simp add: other_rows_def filter_empty_conv)
qed

lemma flush_job_row:
  assumes "flush_job old new d = Inr d'" and "j \<in> set (ingestion_jobs d')"
  shows "\<exists>y \<in> set (ingestion_jobs d). j_id y = j_id j \<and> j_document_id y = j_document_id j"
  using flush_job_Inr [OF assms(1)] assms(2) by (auto dest!: set_rows_mem split: if_splits) metis+

lemma flush_works_on:
  assumes "works_on doc_id jid V (d, w)" and "flush_db w d = Inr d'"
  shows "works_on doc_id jid V (d', saved w)"
proof -
  obtain d1 d2 d3 where fl: "flush_doc (wk_doc_saved w) (wk_doc w) d = Inr d1"
    "flush_job (wk_job_saved w) (wk_job w) d1 = Inr d2" "insert_chunks (wk_new_chunks w) d2 = Inr d3"
    "insert_errors (wk_new_errors w) d3 = Inr d'"
    using assms(2) by (rule flush_db_Inr)
  have V: "other_rows doc_id d = V" and ids: "d_id (wk_doc w) = doc_id" "j_id (wk_job w) = jid"
    and js: "\<And>j. j \<in> set (ingestion_jobs d) \<Longrightarrow> j_id j = jid \<Longrightarrow> j_document_id j = doc_id"
    and new: "\<And>c. c \<in> set (wk_new_chunks w) \<Longrightarrow> c_document_id c = doc_id"
      "\<And>e. e \<in> set (wk_new_errors w) \<Longrightarrow> e_document_id e = doc_id"
    using assms(1) by (simp_all add: works_on_def)
  have d1: "other_rows doc_id d1 = V" "ingestion_jobs d1 = ingestion_jobs d"
    using flush_doc_Inr [OF fl(1)] V other_rows_set(1) [of doc_id _ _ d] by (elim disjE; simp add: ids)+
  have js1: "\<And>j. j \<in> set (ingestion_jobs d1) \<Longrightarrow> j_id j = jid \<Longrightarrow> j_document_id j = doc_id"
    using js by (simp add: d1)
  have d2: "other_rows doc_id d2 = V"
    using flush_job_Inr [OF fl(2)] d1(1) other_rows_set(2) [OF js1] by (elim disjE) (simp_all add: ids)
  have js2: "j_document_id j = doc_id" if j: "j \<in> set (ingestion_jobs d2)" "j_id j = jid" for j
  proof -
    obtain y where "y \<in> set (ingestion_jobs d1)" "j_id y = j_id j" "j_document_id y = j_document_id j"
      using flush_job_row [OF fl(2) j(1)] by blast
    then show ?thesis using js1 j(2) by metis
  qed
  have d3: "other_rows doc_id d3 = V" "ingestion_jobs d3 = ingestion_jobs d2"
    using insert_Inr(1) [OF fl(3)] d2 other_rows_set(3) [OF new(1)] by simp_all
  have "other_rows doc_id d' = V" "ingestion_jobs d' = ingestion_jobs d3"
    using insert_Inr(2) [OF fl(4)] d3 other_rows_set(4) [OF new(2)] by simp_all
  then show ?thesis using ids js2 d3(2) by (simp add: works_on_def)
qed

lemma chunk_rows_document: "c \<in> set (chunk_rows new_id doc chunks) \<Longrightarrow> c_document_id c = d_id doc"
  by (auto simp: chunk_rows_def)

interpretation isolated: worker_full "works_on doc_id jid V" "alone env" for doc_id jid V env
proof unfold_locales
  show "works_on doc_id jid V (d, w) \<Longrightarrow> flush_db w d = Inr d' \<Longrightarrow> works_on doc_id jid V (d', saved w)" for d w d'
    by (rule flush_works_on)
  show "works_on doc_id jid V (d, w) \<Longrightarrow>
    works_on doc_id jid V (d\<lparr>document_chunks := filter (\<lambda>c. c_document_id c \<noteq> d_id (wk_doc w)) (document_chunks d)\<rparr>,
       w\<lparr>wk_new_chunks := chunk_rows (ie_chunk_id (alone env)) (wk_doc w) chunks\<rparr>)" for d w chunks
    by (auto simp: works_on_def other_rows_def dest: chunk_rows_document)
qed (auto simp: works_on_def touched_def job_touched_def)

text \<open>
  C23: An ingestion touches its own document only: whatever the services answer and wherever it
  fails, every other document with its chunks, jobs and errors, and every other table, is as before.
\<close>

theorem ingest_isolated:
  fixes env :: "('q, 'w, 's) ingest_env"
  assumes "distinct (map j_id (ingestion_jobs d))"
    and "ingest_run (alone env) doc_id sv d = (r, sv', d')"
  shows "other_rows doc_id d' = other_rows doc_id d"
proof -
  let ?jid = "case latest_job doc_id d of None \<Rightarrow> ie_job_id env | Some j \<Rightarrow> j_id j"
  have own: "works_on doc_id (j_id job) (other_rows doc_id d) (d, load_worker sv doc job)"
    if doc: "get_by d_id doc_id (documents d) = Some doc" and job: "latest_job doc_id d = Some job" for doc job
  proof -
    have "job \<in> set (sort_key (\<lambda>j. - j_created_at j) (filter (\<lambda>j. j_document_id j = doc_id) (ingestion_jobs d)))"
      using job by (cases "sort_key (\<lambda>j. - j_created_at j) (filter (\<lambda>j. j_document_id j = doc_id) (ingestion_jobs d))")
        (simp_all add: latest_job_def)
    then have "job \<in> set (ingestion_jobs d)" "j_document_id job = doc_id" by simp_all
    then have "j \<in> set (ingestion_jobs d) \<Longrightarrow> j_id j = j_id job \<Longrightarrow> j_document_id j = doc_id" for j
      using assms(1) by (metis distinct_map inj_onD)
    then show ?thesis using get_by_Some [OF doc] by (simp add: works_on_def load_worker_def)
  qed
  have fresh: "works_on doc_id jid (other_rows doc_id d) (d, load_worker sv doc (new_job jid doc now)) \<and>
      works_on doc_id jid (other_rows doc_id d) (d\<lparr>ingestion_jobs := ingestion_jobs d @ [new_job jid doc now]\<rparr>,
        load_worker sv doc (new_job jid doc now))"
    if "get_by d_id doc_id (documents d) = Some doc" "get_by j_id jid (ingestion_jobs d) = None" for doc jid now
    using get_by_Some [OF that(1)] that(2)
    by (auto simp: works_on_def load_worker_def new_job_def other_rows_def get_by_None)
  have "(sv' = sv \<and> d' = d) \<or> ((\<exists>w :: ('q, 'w, 's) worker. works_on doc_id ?jid (other_rows doc_id d) (d', w)) \<and>
      (\<exists>d2 (w :: ('q, 'w, 's) worker). sv' = services.truncate w \<and> works_on doc_id ?jid (other_rows doc_id d) (d2, w)))"
    by (rule isolated.run_keeps [OF _ _ assms(2)]) (use own fresh in simp_all)
  then show ?thesis by (auto simp: works_on_def)
qed

subsection \<open>Witnesses\<close>

text \<open>A document whose stored bytes Docling converts to \<open>text\<close>, and an environment to ingest it in.\<close>

definition demo_doc :: document where
  "demo_doc = \<lparr>d_id = 1, d_workspace_id = 2, d_name = ''a'', d_filename = ''a.pdf'', d_file_type = ''pdf'', d_mime_type = None,
     d_size_bytes = 1, d_source_type = ''manual_upload'', d_connector_id = None, d_external_document_id = None,
     d_storage_path = Some ''p'', d_tags = [''t''], d_metadata = [], d_ingestion_status = ''queued'', d_current_step = None,
     d_chunk_count = None, d_embedding_status = ''pending'', d_content_hash = None, d_uploaded_by_id = None,
     d_uploaded_by = [], d_created_at = 0, d_updated_at = 0\<rparr>"

definition demo_ingest_db :: db where
  "demo_ingest_db = empty_db\<lparr>documents := [demo_doc]\<rparr>"

definition demo_ingest_env :: "string \<Rightarrow> (string \<Rightarrow> point list, nat, exn + bytes) ingest_env" where
  "demo_ingest_env text =
     \<lparr>ie_cfg = default_settings,
      ie_provider = demo_provider\<lparr>pv_embed := (\<lambda>m xs n.
        (Inr \<lparr>er_vectors = map (\<lambda>_. [1]) xs, er_prompt_tokens = 1, er_total_tokens = 1\<rparr>, n))\<rparr>,
      ie_json_loads = (\<lambda>_. Inl (PyError ''ValueError'' [])), ie_rep = (\<lambda>_. []),
      ie_float = (\<lambda>_. Inl (PyError ''ValueError'' [])), ie_decode = (\<lambda>_. []),
      ie_docling = Some (\<lambda>_. Inr (text, 1)), ie_tokenizer = None, ie_sha256 = (\<lambda>_. []),
      ie_qdrant = mem_qdrant, ie_graph_up = (\<lambda>_. True),
      ie_storage = \<lparr>sa_save_bytes = (\<lambda>p d s. (Inr p, s)), sa_get_bytes = (\<lambda>p s. s),
        sa_save_part = (\<lambda>p n d s. (Inr (), s)), sa_complete_multipart = (\<lambda>p q n s. (Inr p, s)), sa_size = (\<lambda>p s. Inr 0)\<rparr>,
      ie_chunk_id = of_nat, ie_job_id = 7, ie_now = 5, ie_others = (\<lambda>n d. d)\<rparr>"

definition demo_ingest_services :: "exn + bytes \<Rightarrow> (string \<Rightarrow> point list, nat, exn + bytes) services" where
  "demo_ingest_services data =
     \<lparr>wk_gateway = demo_gateway, wk_vectors = \<lparr>vs_ensured = [], vs_server = (\<lambda>_. [])\<rparr>,
      wk_graph = empty_graph, wk_storage = data\<rparr>"

theorem ingest_keeps_references_witness:
  "ingest_fk (snd (snd (ingest_run (demo_ingest_env ''text'') 1 (demo_ingest_services (Inr [2])) demo_ingest_db)))"
proof -
  obtain r sv' d' where run: "ingest_run (demo_ingest_env ''text'') 1 (demo_ingest_services (Inr [2])) demo_ingest_db = (r, sv', d')"
    by (metis surj_pair)
  have "ingest_fk d'"
    using ingest_keeps_references [OF _ _ run]
    by (simp add: demo_ingest_env_def demo_ingest_db_def empty_db_def ingest_fk_def)
  then show ?thesis by (simp add: run)
qed

theorem ingest_isolated_witness:
  "other_rows 1 (snd (snd (ingest_run (alone (demo_ingest_env ''text'')) 1 (demo_ingest_services (Inr [2])) demo_ingest_db)))
     = other_rows 1 demo_ingest_db"
proof -
  obtain r sv' d' where run: "ingest_run (alone (demo_ingest_env ''text'')) 1 (demo_ingest_services (Inr [2])) demo_ingest_db = (r, sv', d')"
    by (metis surj_pair)
  have "other_rows 1 d' = other_rows 1 demo_ingest_db"
    by (rule ingest_isolated [OF _ run]) (simp add: demo_ingest_db_def empty_db_def)
  then show ?thesis by (simp add: run)
qed

end
