(* ===== verification/Documents.thy ===== *)
theory Documents
  imports Ingestion Deps "HOL-Library.Char_ord" "HOL-Library.List_Lexorder" "HOL-Library.Product_Lexorder"
begin

text \<open>
  Documents as a user or an API key sees them (\<^verbatim>\<open>app/services/document_service.py\<close>,
  \<^verbatim>\<open>app/api/documents.py\<close>, \<^verbatim>\<open>app/api/ingest.py\<close>): upload in one piece or in parts, text and
  record ingestion, listing, tags, deletion and reprocessing. A request has its database session and,
  beside it, the object store and the broker's queue, which no rollback undoes.
\<close>

subsection \<open>File types and tags\<close>

definition allowed_types :: "string list" where
  "allowed_types = [''pdf'', ''docx'', ''txt'', ''csv'', ''xlsx'', ''pptx'', ''png'', ''jpg'']"

definition signature_of :: "string \<Rightarrow> bytes option" where
  "signature_of ext =
     (if ext = ''pdf'' then Some [37, 80, 68, 70] else if ext = ''png'' then Some [137, 80, 78, 71]
      else if ext = ''jpg'' then Some [255, 216, 255]
      else if ext \<in> {''docx'', ''xlsx'', ''pptx''} then Some [80, 75] else None)"

definition detect_file_type :: "string \<Rightarrow> bytes option \<Rightarrow> exn + string" where
  "detect_file_type filename data =
     (let ext = (if CHR ''.'' \<in> set filename then py_lower (rsplit_last CHR ''.'' filename) else [])
      in if ext \<notin> set allowed_types
         then Inl (raise_app InvalidFileTypeError (''Unsupported file type: .'' @ (if ext = [] then ''?'' else ext)))
         else case (data, signature_of ext) of
                (Some d, Some sig) \<Rightarrow>
                  (if take (length sig) (take 8 d) \<noteq> sig
                   then Inl (raise_app InvalidFileTypeError ''File content does not match its extension'') else Inr ext)
              | _ \<Rightarrow> Inr ext)"

definition max_doc_tags :: nat where "max_doc_tags = 20"

text \<open>\<open>[t.strip().lower() for t in (tags or []) if t.strip()][:20]\<close>\<close>

definition clean_tags :: "string list \<Rightarrow> string list" where
  "clean_tags tags = take max_doc_tags (map (\<lambda>t. py_lower (py_strip t)) (filter (\<lambda>t. py_strip t \<noteq> []) tags))"

text \<open>\<open>content.encode("utf-8")\<close> of a Latin-1 text.\<close>

fun utf8 :: "string \<Rightarrow> bytes" where
  "utf8 [] = []"
| "utf8 (c # cs) =
     (let n = (of_char c :: nat) in (if n < 128 then [n] else [192 + n div 64, 128 + n mod 64]) @ utf8 cs)"

subsection \<open>State and environment of a request\<close>

record 's outside =
  ou_storage :: 's
  ou_queue :: "uuid list"

type_synonym ('s, 'a) dtx = "(db \<times> 's outside, exn, 'a) tx"

record 's doc_env =
  de_cfg :: settings
  de_storage :: "'s storage_adapter"
  de_broker_up :: bool
  de_doc_id :: uuid
  de_job_id :: uuid
  de_now :: timestamp
  de_rep :: "pyval \<Rightarrow> string"

text \<open>A database operation in such a session, and a call of the object store.\<close>

definition on_db :: "'a db_tx \<Rightarrow> ('s, 'a) dtx" where
  "on_db m = (\<lambda>s. case m \<lparr>committed = fst (committed s), working = fst (working s)\<rparr> of
     (r, t) \<Rightarrow> (r, \<lparr>committed = (committed t, snd (working s)), working = (working t, snd (working s))\<rparr>))"

definition on_storage :: "('s \<Rightarrow> (exn + 'a) \<times> 's) \<Rightarrow> ('s, 'a) dtx" where
  "on_storage f = (\<lambda>s. case working s of (d, ou) \<Rightarrow>
     (case f (ou_storage ou) of (r, st) \<Rightarrow> (r, s\<lparr>working := (d, ou\<lparr>ou_storage := st\<rparr>)\<rparr>)))"

definition storage_read :: "('s \<Rightarrow> exn + 'a) \<Rightarrow> ('s, 'a) dtx" where
  "storage_read f = tx_query (\<lambda>(d, ou). f (ou_storage ou))"

text \<open>A request from its open session: what it left outside the database stays, however it ends.\<close>

definition run_outside :: "('s, 'a) dtx \<Rightarrow> db session \<Rightarrow> 's outside \<Rightarrow> (exn + 'a) \<times> 's outside \<times> db" where
  "run_outside m s ou =
     (case m \<lparr>committed = (committed s, ou), working = (working s, ou)\<rparr> of
        (Inl e, t) \<Rightarrow> (Inl e, snd (working t), fst (committed t))
      | (Inr x, t) \<Rightarrow> (Inr x, snd (working t), fst (working t)))"

subsection \<open>Rows\<close>

text \<open>The insert of a document checks the widths of its columns and its foreign keys.\<close>

definition fits :: "nat \<Rightarrow> string option \<Rightarrow> bool" where
  "fits n s \<longleftrightarrow> (case s of None \<Rightarrow> True | Some x \<Rightarrow> length x \<le> n)"

definition add_document :: "document \<Rightarrow> db \<Rightarrow> exn + db" where
  "add_document r d =
     (if \<not> (length (d_name r) \<le> 512 \<and> length (d_filename r) \<le> 512 \<and> length (d_file_type r) \<le> 10 \<and>
            fits 255 (d_mime_type r) \<and> length (d_source_type r) \<le> 20 \<and> fits 512 (d_external_document_id r) \<and>
            fits 1024 (d_storage_path r) \<and> length (d_uploaded_by r) \<le> 255)
      then Inl (PyError ''DBAPIError'' ''value too long'')
      else if get_by d_id (d_id r) (documents d) \<noteq> None \<or> get_by w_id (d_workspace_id r) (workspaces d) = None \<or>
              (case d_connector_id r of None \<Rightarrow> False | Some c \<Rightarrow> get_by cn_id c (connectors d) = None) \<or>
              (case d_uploaded_by_id r of None \<Rightarrow> False | Some u \<Rightarrow> get_by u_id u (users d) = None)
      then Inl (integrity_error ''documents'')
      else Inr (d\<lparr>documents := documents d @ [r]\<rparr>))"

definition add_job :: "ingestion_job \<Rightarrow> db \<Rightarrow> exn + db" where
  "add_job r d =
     (if get_by j_id (j_id r) (ingestion_jobs d) \<noteq> None \<or> get_by d_id (j_document_id r) (documents d) = None \<or>
         get_by w_id (j_workspace_id r) (workspaces d) = None
      then Inl (integrity_error ''ingestion_jobs'')
      else Inr (d\<lparr>ingestion_jobs := ingestion_jobs d @ [r]\<rparr>))"

text \<open>\<open>DELETE FROM documents\<close> and what its foreign keys cascade to.\<close>

definition drop_document :: "uuid \<Rightarrow> db \<Rightarrow> db" where
  "drop_document doc_id d =
     d\<lparr>documents := filter (\<lambda>r. d_id r \<noteq> doc_id) (documents d),
       document_chunks := filter (\<lambda>c. c_document_id c \<noteq> doc_id) (document_chunks d),
       ingestion_jobs := filter (\<lambda>j. j_document_id j \<noteq> doc_id) (ingestion_jobs d),
       ingestion_errors := filter (\<lambda>e. e_document_id e \<noteq> doc_id) (ingestion_errors d)\<rparr>"

definition update_document :: "uuid \<Rightarrow> (document \<Rightarrow> document) \<Rightarrow> db \<Rightarrow> db" where
  "update_document doc_id f d = d\<lparr>documents := set_rows (\<lambda>r. d_id r = doc_id) f (documents d)\<rparr>"

subsection \<open>The service\<close>

text \<open>\<open>_enqueue\<close>: a message for the worker, lost when the broker is down.\<close>

definition enqueue :: "'s doc_env \<Rightarrow> uuid \<Rightarrow> ('s, unit) dtx" where
  "enqueue env doc_id =
     tx_modify (\<lambda>(d, ou). (d, if de_broker_up env then ou\<lparr>ou_queue := ou_queue ou @ [doc_id]\<rparr> else ou))"

text \<open>The columns a caller gives; the others take their defaults.\<close>

record doc_fields =
  df_name :: string
  df_filename :: string
  df_file_type :: string
  df_source_type :: string
  df_size_bytes :: int
  df_storage_path :: "string option"
  df_mime_type :: "string option"
  df_tags :: "string list"
  df_uploaded_by :: string
  df_uploaded_by_id :: "uuid option"
  df_connector_id :: "uuid option"
  df_external_id :: "string option"

definition new_document :: "uuid \<Rightarrow> timestamp \<Rightarrow> uuid \<Rightarrow> doc_fields \<Rightarrow> document" where
  "new_document doc_id now workspace_id f =
     \<lparr>d_id = doc_id, d_workspace_id = workspace_id, d_name = df_name f, d_filename = df_filename f,
      d_file_type = df_file_type f, d_mime_type = df_mime_type f, d_size_bytes = df_size_bytes f,
      d_source_type = df_source_type f, d_connector_id = df_connector_id f,
      d_external_document_id = df_external_id f, d_storage_path = df_storage_path f,
      d_tags = clean_tags (df_tags f), d_metadata = [], d_ingestion_status = status_value Queued,
      d_current_step = None, d_chunk_count = None, d_embedding_status = emb_value EmbPending,
      d_content_hash = None, d_uploaded_by_id = df_uploaded_by_id f, d_uploaded_by = df_uploaded_by f,
      d_created_at = now, d_updated_at = now\<rparr>"

definition create_queued_document ::
    "'s doc_env \<Rightarrow> uuid \<Rightarrow> doc_fields \<Rightarrow> ('s, document \<times> ingestion_job) dtx" where
  "create_queued_document env workspace_id f =
     (let doc = new_document (de_doc_id env) (de_now env) workspace_id f;
          job = new_job (de_job_id env) doc (de_now env)
      in tx_seq (on_db (tx_update (add_document doc)))
        (tx_seq (on_db (tx_update (add_job job)))
        (tx_seq (on_db tx_commit)
        (tx_seq (enqueue env (d_id doc)) (tx_return (doc, job))))))"

definition ingest_text ::
    "'s doc_env \<Rightarrow> uuid \<Rightarrow> string \<Rightarrow> string \<Rightarrow> string list \<Rightarrow> string \<Rightarrow> ('s, document \<times> ingestion_job) dtx" where
  "ingest_text env workspace_id content title tags uploaded_by =
     (let filename = title @ ''.txt'';
          path = build_path (str_uuid workspace_id) (str_uuid (de_doc_id env)) filename
      in tx_bind (on_storage (sa_save_bytes (de_storage env) path (utf8 content))) (\<lambda>_.
         create_queued_document env workspace_id
           \<lparr>df_name = title, df_filename = filename, df_file_type = ''txt'', df_source_type = source_value ApiPush,
            df_size_bytes = int (length (utf8 content)), df_storage_path = Some path, df_mime_type = None,
            df_tags = tags, df_uploaded_by = uploaded_by, df_uploaded_by_id = None, df_connector_id = None,
            df_external_id = None\<rparr>))"

subsection \<open>Listing\<close>

text \<open>PostgreSQL's \<open>LIKE\<close>: \<open>%\<close> any text, \<open>_\<close> any character, a backslash takes the next one as it is.\<close>

fun like :: "string \<Rightarrow> string \<Rightarrow> bool" where
  "like [] s = (s = [])"
| "like (p # ps) s =
     (if p = CHR ''%'' then like ps s \<or> (case s of [] \<Rightarrow> False | _ # cs \<Rightarrow> like (p # ps) cs)
      else if p = CHR 0x5C
      then (case (ps, s) of (q # qs, c # cs) \<Rightarrow> q = c \<and> like qs cs | _ \<Rightarrow> False)
      else (case s of [] \<Rightarrow> False | c # cs \<Rightarrow> (p = CHR ''_'' \<or> p = c) \<and> like ps cs))"

definition ilike :: "string \<Rightarrow> string \<Rightarrow> bool" where
  "ilike pattern s = like (py_lower pattern) (py_lower s)"

record list_query =
  lq_page :: int
  lq_limit :: int
  lq_search :: "string option"
  lq_status :: "string option"
  lq_source_type :: "string option"
  lq_file_type :: "string option"
  lq_tag :: "string option"
  lq_sort :: string
  lq_order :: string

text \<open>\<open>if x: stmt = stmt.where(...)\<close>\<close>

definition given :: "string option \<Rightarrow> (string \<Rightarrow> bool) \<Rightarrow> bool" where
  "given x P \<longleftrightarrow> (case x of None \<Rightarrow> True | Some v \<Rightarrow> v = [] \<or> P v)"

definition selects :: "uuid \<Rightarrow> list_query \<Rightarrow> document \<Rightarrow> bool" where
  "selects workspace_id q r \<longleftrightarrow> d_workspace_id r = workspace_id \<and>
     given (lq_search q) (\<lambda>s. ilike (''%'' @ s @ ''%'') (d_name r)) \<and>
     given (lq_status q) (\<lambda>s. d_ingestion_status r = s) \<and>
     given (lq_source_type q) (\<lambda>s. d_source_type r = s) \<and>
     given (lq_file_type q) (\<lambda>s. d_file_type r = s) \<and>
     given (lq_tag q) (\<lambda>t. t \<in> set (d_tags r))"

text \<open>
  \<open>ORDER BY\<close>: rows that compare equal keep the order of the table, which SQL leaves open. Nulls are
  last when ascending and first when descending. \<open>coll\<close> is the sort key of the database's collation.
\<close>

definition order_by :: "('r \<Rightarrow> 'k::linorder) \<Rightarrow> bool \<Rightarrow> 'r list \<Rightarrow> 'r list" where
  "order_by key asc rows = (if asc then sort_key key rows else rev (sort_key key (rev rows)))"

definition null_last :: "int option \<Rightarrow> bool \<times> int" where
  "null_last x = (case x of None \<Rightarrow> (True, 0) | Some n \<Rightarrow> (False, n))"

definition sorted_documents :: "(string \<Rightarrow> string) \<Rightarrow> list_query \<Rightarrow> document list \<Rightarrow> document list" where
  "sorted_documents coll q rows =
     (let asc = (lq_order q = ''asc'')
      in if lq_sort q = ''name'' then order_by (\<lambda>r. coll (d_name r)) asc rows
         else if lq_sort q = ''chunk_count''
         then order_by (\<lambda>r. null_last (d_chunk_count r)) asc rows
         else order_by d_created_at asc rows)"

definition list_documents ::
    "(string \<Rightarrow> string) \<Rightarrow> uuid \<Rightarrow> list_query \<Rightarrow> (document list \<times> nat) db_tx" where
  "list_documents coll workspace_id q =
     (let limit = max 1 (min (lq_limit q) 200);
          skip = (lq_page q - 1) * limit
      in tx_query (\<lambda>d.
           let rows = filter (selects workspace_id q) (documents d)
           in if skip < 0 then Inl (PyError ''DBAPIError'' ''OFFSET must not be negative'')
              else Inr (take (nat limit) (drop (nat skip) (sorted_documents coll q rows)), length rows)))"

subsection \<open>Changes\<close>

definition get_owned :: "uuid \<Rightarrow> uuid \<Rightarrow> document db_tx" where
  "get_owned workspace_id doc_id =
     tx_query (\<lambda>d. case get_by d_id doc_id (documents d) of
       None \<Rightarrow> Inl (raise_app NotFoundError ''Document not found'')
     | Some r \<Rightarrow> (if d_workspace_id r \<noteq> workspace_id then Inl (raise_app NotFoundError ''Document not found'') else Inr r))"

definition update_tags :: "uuid \<Rightarrow> uuid \<Rightarrow> string list \<Rightarrow> document db_tx" where
  "update_tags workspace_id doc_id tags =
     tx_bind (get_owned workspace_id doc_id) (\<lambda>doc.
     tx_seq (tx_modify (update_document doc_id (\<lambda>r. r\<lparr>d_tags := clean_tags tags\<rparr>)))
     (tx_seq tx_commit (tx_return (doc\<lparr>d_tags := clean_tags tags\<rparr>))))"

definition delete_document :: "uuid \<Rightarrow> uuid \<Rightarrow> unit db_tx" where
  "delete_document workspace_id doc_id =
     tx_bind (get_owned workspace_id doc_id) (\<lambda>_.
     tx_seq (tx_modify (drop_document doc_id)) tx_commit)"

definition reprocess :: "'s doc_env \<Rightarrow> uuid \<Rightarrow> uuid \<Rightarrow> ('s, document \<times> ingestion_job) dtx" where
  "reprocess env workspace_id doc_id =
     tx_bind (on_db (get_owned workspace_id doc_id)) (\<lambda>doc.
     let doc' = doc\<lparr>d_ingestion_status := status_value Queued\<rparr>;
         job = new_job (de_job_id env) doc (de_now env)
     in tx_seq (on_db (tx_modify (update_document doc_id (\<lambda>r. r\<lparr>d_ingestion_status := status_value Queued\<rparr>))))
       (tx_seq (on_db (tx_update (add_job job)))
       (tx_seq (on_db tx_commit)
       (tx_seq (enqueue env doc_id) (tx_return (doc', job))))))"

definition get_job :: "uuid \<Rightarrow> uuid \<Rightarrow> ingestion_job db_tx" where
  "get_job workspace_id job_id =
     tx_query (\<lambda>d. case get_by j_id job_id (ingestion_jobs d) of
       None \<Rightarrow> Inl (raise_app NotFoundError ''Unknown job'')
     | Some j \<Rightarrow> (if j_workspace_id j \<noteq> workspace_id then Inl (raise_app NotFoundError ''Unknown job'') else Inr j))"

subsection \<open>Routes\<close>

text \<open>\<open>KeelDocumentOut.from_orm_doc\<close>: the enum fields must hold one of their values.\<close>

record document_out =
  do_id :: uuid
  do_name :: string
  do_file_type :: string
  do_source_type :: string
  do_tags :: "string list"
  do_uploaded_by :: string
  do_uploaded_at :: timestamp
  do_ingestion_status :: string
  do_chunk_count :: "int option"
  do_embedding_status :: string

definition source_values :: "string list" where
  "source_values = map source_value [ManualUpload, GoogleDrive, OneDrive, ApiPush]"

definition status_values :: "string list" where
  "status_values = map status_value [Queued, Processing, Parsing, Tagging, Chunking, Embedding, EntityExtraction,
     GraphMapping, Finalizing, Completed, Failed, Duplicate]"

definition emb_values :: "string list" where
  "emb_values = map emb_value [EmbPending, EmbInProgress, EmbCompleted, EmbFailed]"

definition pydantic_error :: exn where "pydantic_error = PyError ''ValidationError'' []"

definition document_view :: "document \<Rightarrow> exn + document_out" where
  "document_view r =
     (if d_file_type r \<in> set allowed_types \<and> d_source_type r \<in> set source_values \<and>
         d_ingestion_status r \<in> set status_values \<and> d_embedding_status r \<in> set emb_values
      then Inr \<lparr>do_id = d_id r, do_name = d_name r, do_file_type = d_file_type r, do_source_type = d_source_type r,
        do_tags = d_tags r, do_uploaded_by = d_uploaded_by r, do_uploaded_at = d_created_at r,
        do_ingestion_status = d_ingestion_status r, do_chunk_count = d_chunk_count r,
        do_embedding_status = d_embedding_status r\<rparr>
      else Inl pydantic_error)"

definition list_documents_route ::
    "(string \<Rightarrow> string) \<Rightarrow> timestamp \<Rightarrow> list_query \<Rightarrow> principal \<Rightarrow> (document_out list \<times> nat \<times> int \<times> int) db_tx" where
  "list_documents_route coll now q p =
     (if \<not> (1 \<le> lq_page q \<and> 1 \<le> lq_limit q \<and> lq_limit q \<le> 200) then tx_raise (ValidationError [Some ''range''])
      else tx_bind (list_documents coll (p_workspace_id p) q) (\<lambda>(rows, total).
           tx_seq (log_api_call now p ''/api/documents'')
           (tx_bind (tx_lift (res_map document_view rows)) (\<lambda>items.
            tx_return (items, total, lq_page q, lq_limit q)))))"

definition update_tags_route ::
    "settings \<Rightarrow> crypto \<Rightarrow> timestamp \<Rightarrow> string option \<Rightarrow> uuid \<Rightarrow> string list \<Rightarrow> document_out db_tx" where
  "update_tags_route cfg cy now creds doc_id tags =
     tx_bind (get_current_user cfg cy now creds) (\<lambda>p.
     tx_bind (update_tags (p_workspace_id p) doc_id tags) (\<lambda>doc. tx_lift (document_view doc)))"

definition delete_document_route ::
    "settings \<Rightarrow> crypto \<Rightarrow> timestamp \<Rightarrow> string option \<Rightarrow> uuid \<Rightarrow> unit db_tx" where
  "delete_document_route cfg cy now creds doc_id =
     tx_bind (get_current_user cfg cy now creds) (\<lambda>p. delete_document (p_workspace_id p) doc_id)"

definition reprocess_route ::
    "'s doc_env \<Rightarrow> crypto \<Rightarrow> string option \<Rightarrow> uuid \<Rightarrow> ('s, uuid \<times> uuid \<times> string) dtx" where
  "reprocess_route env cy creds doc_id =
     tx_bind (on_db (get_current_user (de_cfg env) cy (de_now env) creds)) (\<lambda>p.
     tx_bind (reprocess env (p_workspace_id p) doc_id) (\<lambda>(doc, job).
     tx_return (d_id doc, j_id job, d_ingestion_status doc)))"

subsection \<open>Ingestion routes\<close>

definition uploader_name :: "principal \<Rightarrow> string db_tx" where
  "uploader_name p =
     (case p_user_id p of
        None \<Rightarrow> tx_return ''API''
      | Some uid \<Rightarrow> tx_read (\<lambda>d. case get_by u_id uid (users d) of None \<Rightarrow> ''user'' | Some u \<Rightarrow> u_full_name u))"

definition principal_source :: "principal \<Rightarrow> string" where
  "principal_source p =
     (case p_api_key_id p of None \<Rightarrow> source_value ManualUpload | Some _ \<Rightarrow> source_value ApiPush)"

text \<open>The form of an upload; a part number or a number of parts that is 0 counts as not given.\<close>

record upload_form =
  uf_data :: bytes
  uf_filename :: "string option"
  uf_content_type :: "string option"
  uf_file_name :: "string option"
  uf_tags :: "string option"
  uf_upload_id :: "string option"
  uf_part_number :: "int option"
  uf_total_parts :: "int option"

definition nonempty :: "string option \<Rightarrow> string option" where
  "nonempty s = (case s of None \<Rightarrow> None | Some x \<Rightarrow> (if x = [] then None else Some x))"

definition nonzero :: "int option \<Rightarrow> int option" where
  "nonzero n = (case n of None \<Rightarrow> None | Some x \<Rightarrow> (if x = 0 then None else Some x))"

definition upload_name :: "upload_form \<Rightarrow> string" where
  "upload_name f =
     (case nonempty (uf_file_name f) of
        Some x \<Rightarrow> x
      | None \<Rightarrow> (case nonempty (uf_filename f) of Some x \<Rightarrow> x | None \<Rightarrow> ''upload''))"

text \<open>Store the upload, in one piece or as the last part; its type and its size.\<close>

definition store_upload :: "'s doc_env \<Rightarrow> string \<Rightarrow> string \<Rightarrow> upload_form \<Rightarrow> ('s, string \<times> int) dtx" where
  "store_upload env name path f =
     (case (nonempty (uf_upload_id f), nonzero (uf_total_parts f)) of
        (Some upload_id, Some total_parts) \<Rightarrow>
          tx_seq (on_storage (sa_save_part (de_storage env) upload_id
             (case nonzero (uf_part_number f) of Some n \<Rightarrow> n | None \<Rightarrow> total_parts) (uf_data f)))
          (tx_seq (on_storage (sa_complete_multipart (de_storage env) upload_id path total_parts))
          (tx_bind (storage_read (sa_size (de_storage env) path)) (\<lambda>sz.
          (tx_bind (tx_lift (detect_file_type name None)) (\<lambda>ft. tx_return (ft, sz))))))
      | _ \<Rightarrow>
          tx_bind (tx_lift (detect_file_type name (Some (uf_data f)))) (\<lambda>ft.
          tx_seq (on_storage (sa_save_bytes (de_storage env) path (uf_data f)))
          (tx_return (ft, int (length (uf_data f))))))"

definition upload_tags :: "upload_form \<Rightarrow> string list" where
  "upload_tags f = (case nonempty (uf_tags f) of None \<Rightarrow> [] | Some t \<Rightarrow> map py_strip (py_split '','' t))"

definition ingest_file_route ::
    "'s doc_env \<Rightarrow> upload_form \<Rightarrow> principal \<Rightarrow> ('s, uuid \<times> uuid \<times> string) dtx" where
  "ingest_file_route env f p =
     tx_bind (tx_lift (ensure_write_scope p)) (\<lambda>_.
     let name = upload_name f;
         path = build_path (str_uuid (p_workspace_id p)) (str_uuid (de_doc_id env)) name
     in tx_bind (store_upload env name path f) (\<lambda>(ft, size_bytes).
        if size_bytes > max_upload_bytes (de_cfg env)
        then tx_raise (raise_code BadRequestError ''File exceeds the 500 MB limit'' ''FILE_TOO_LARGE'')
        else tx_bind (on_db (uploader_name p)) (\<lambda>uploader.
             tx_bind (create_queued_document env (p_workspace_id p)
               \<lparr>df_name = name, df_filename = name, df_file_type = ft, df_source_type = principal_source p,
                df_size_bytes = size_bytes, df_storage_path = Some path, df_mime_type = uf_content_type f,
                df_tags = upload_tags f, df_uploaded_by = uploader, df_uploaded_by_id = p_user_id p,
                df_connector_id = None, df_external_id = None\<rparr>) (\<lambda>(doc, job).
             tx_seq (on_db (log_api_call (de_now env) p ''/api/ingest/file''))
             (tx_return (d_id doc, j_id job, d_ingestion_status doc))))))"

definition ingest_file_part_route ::
    "'s doc_env \<Rightarrow> string \<Rightarrow> int \<Rightarrow> bytes \<Rightarrow> principal \<Rightarrow> ('s, int) dtx" where
  "ingest_file_part_route env upload_id part_number data p =
     tx_bind (tx_lift (ensure_write_scope p)) (\<lambda>_.
     tx_seq (on_storage (sa_save_part (de_storage env) upload_id part_number data)) (tx_return part_number))"

text \<open>A text, and the text a record is rendered to.\<close>

definition ingest_text_with ::
    "'s doc_env \<Rightarrow> string \<Rightarrow> string \<Rightarrow> string list \<Rightarrow> string \<Rightarrow> principal \<Rightarrow> ('s, uuid \<times> uuid \<times> string) dtx" where
  "ingest_text_with env content title tags endpoint p =
     tx_bind (tx_lift (ensure_write_scope p)) (\<lambda>_.
     tx_bind (on_db (uploader_name p)) (\<lambda>uploader.
     tx_bind (ingest_text env (p_workspace_id p) content title tags uploader) (\<lambda>(doc, job).
     tx_seq (on_db (log_api_call (de_now env) p endpoint))
     (tx_return (d_id doc, j_id job, d_ingestion_status doc)))))"

definition ingest_text_route ::
    "'s doc_env \<Rightarrow> string \<Rightarrow> string \<Rightarrow> string list \<Rightarrow> principal \<Rightarrow> ('s, uuid \<times> uuid \<times> string) dtx" where
  "ingest_text_route env content title tags p =
     (if \<not> (str_len_ok 1 5000000 content \<and> str_len_ok 1 255 title) then tx_raise (ValidationError [Some ''string length''])
      else ingest_text_with env content title tags ''/api/ingest/text'' p)"

definition record_content :: "(pyval \<Rightarrow> string) \<Rightarrow> string \<Rightarrow> string \<Rightarrow> (string \<times> pyval) list \<Rightarrow> string" where
  "record_content rep record_type record_id flds =
     record_type @ '' '' @ record_id @ [nl] @ py_join [nl] (map (\<lambda>(k, v). k @ '': '' @ py_str rep v) flds)"

definition ingest_record_route ::
    "'s doc_env \<Rightarrow> string \<Rightarrow> string \<Rightarrow> (string \<times> pyval) list \<Rightarrow> string list \<Rightarrow> principal \<Rightarrow>
     ('s, uuid \<times> uuid \<times> string) dtx" where
  "ingest_record_route env record_type record_id flds tags p =
     (if record_type = [] \<or> record_id = [] then tx_raise (ValidationError [Some ''string length''])
      else ingest_text_with env (record_content (de_rep env) record_type record_id flds)
             (record_type @ '':'' @ record_id) tags ''/api/ingest/record'' p)"

record ingest_status =
  is_job_id :: uuid
  is_document_id :: uuid
  is_status :: string
  is_current_step :: string
  is_steps_completed :: nat
  is_steps_total :: nat
  is_error :: "string option"
  is_completed_at :: "timestamp option"

definition ingest_status_route :: "uuid \<Rightarrow> principal \<Rightarrow> ingest_status db_tx" where
  "ingest_status_route job_id p =
     tx_bind (get_job (p_workspace_id p) job_id) (\<lambda>j.
     if j_status j \<notin> set status_values then tx_raise pydantic_error
     else tx_return \<lparr>is_job_id = j_id j, is_document_id = j_document_id j, is_status = j_status j,
       is_current_step = j_current_step j, is_steps_completed = j_steps_completed j,
       is_steps_total = j_steps_total j, is_error = j_error j, is_completed_at = j_completed_at j\<rparr>)"

text \<open>A request of a dual-auth route whose handler also works outside the database.\<close>

definition serve_outside ::
    "'z redis_env \<Rightarrow> settings \<Rightarrow> crypto \<Rightarrow> timestamp \<Rightarrow> string option \<Rightarrow> (principal \<Rightarrow> ('s, 'a) dtx) \<Rightarrow>
     'z redis \<Rightarrow> 's outside \<Rightarrow> db \<Rightarrow> ((exn + 'a) \<times> 's outside \<times> db) \<times> 'z redis" where
  "serve_outside renv cfg cy now creds handler redis ou d =
     (case get_principal renv cfg cy now creds redis (open_session d) of
        ((Inl e, s), redis') \<Rightarrow> ((Inl e, ou, committed s), redis')
      | ((Inr p, s), redis') \<Rightarrow> (run_outside (handler p) s ou, redis'))"

end
