(* ===== verification/Chat.thy ===== *)
theory Chat
  imports Retrieval Documents
begin

text \<open>
  Chat (\<^verbatim>\<open>app/services/chat_service.py\<close>, \<^verbatim>\<open>app/api/chat.py\<close>, \<^verbatim>\<open>app/api/conversations.py\<close>): the
  history of a conversation, the prompt, the streamed and the plain answer, and their persistence. The
  service opens sessions of its own, so an answer works on the committed database.
\<close>

text \<open>
  \<open>ch_plan\<close> is the order in which the database meets the messages a query selects: \<open>ORDER BY created_at\<close>
  says nothing about rows of equal time. \<open>ch_settings_up\<close>, \<open>ch_history_up\<close> and \<open>ch_store_up\<close> say
  whether the session of that step reaches the database. \<open>ch_now\<close> is the time of the transaction,
  \<open>ch_clock\<close> the application's.
\<close>

record ('w, 'q) chat_env =
  ch_cfg :: settings
  ch_provider :: "'w provider"
  ch_qdrant :: "'q qdrant"
  ch_tokenizer :: tokenizer
  ch_rep :: "pyval \<Rightarrow> string"
  ch_graph_up :: bool
  ch_settings_up :: bool
  ch_history_up :: bool
  ch_store_up :: bool
  ch_plan :: "chat_message list \<Rightarrow> chat_message list"
  ch_conv_id :: uuid
  ch_user_id :: uuid
  ch_question_id :: uuid
  ch_answer_id :: uuid
  ch_now :: timestamp
  ch_clock :: timestamp

definition system_prompt :: string where
  "system_prompt =
     ''You are Keel, an enterprise context retrieval assistant. Answer the user's '' @
     ''question using ONLY the provided context from their workspace documents. Cite '' @
     ''sources naturally. If the context does not contain the answer, say so plainly. '' @
     ''Do not invent facts.''"

text \<open>\<open>EvidenceChunk(...)\<close> checks the source type and that the section is a string or missing.\<close>

definition evidence_of :: "retrieved_chunk \<Rightarrow> exn + evidence_chunk" where
  "evidence_of c =
     (case (rc_source_type c \<in> set source_values, rc_section_ref c) of
        (True, PNone) \<Rightarrow> Inr \<lparr>ev_chunk_id = rc_chunk_id c, ev_document_id = rc_document_id c,
          ev_document_name = rc_document_name c, ev_source_type = rc_source_type c, ev_section_ref = None,
          ev_excerpt = take 200 (rc_chunk_text c), ev_similarity_score = round_to 4 (rc_score c)\<rparr>
      | (True, PStr sec) \<Rightarrow> Inr \<lparr>ev_chunk_id = rc_chunk_id c, ev_document_id = rc_document_id c,
          ev_document_name = rc_document_name c, ev_source_type = rc_source_type c, ev_section_ref = Some sec,
          ev_excerpt = take 200 (rc_chunk_text c), ev_similarity_score = round_to 4 (rc_score c)\<rparr>
      | _ \<Rightarrow> Inl pydantic_error)"

definition evidence_list :: "retrieved_chunk list \<Rightarrow> exn + evidence_chunk list" where
  "evidence_list chunks = res_map evidence_of chunks"

definition history_turns :: int where "history_turns = 10"

definition prompt_messages :: "string \<Rightarrow> string \<Rightarrow> message list \<Rightarrow> message list" where
  "prompt_messages context query history =
     (''system'', system_prompt) # history @
     [(''user'',
       if context \<noteq> []
       then ''Context:'' @ [CHR 0x0A] @ context @ [CHR 0x0A, CHR 0x0A] @ ''Question: '' @ query
       else ''Question: '' @ query @ [CHR 0x0A, CHR 0x0A] @ ''(No relevant context found.)'')]"

subsection \<open>Reads\<close>

text \<open>The newest messages of a conversation, the newest first.\<close>

definition newest :: "(chat_message list \<Rightarrow> chat_message list) \<Rightarrow> int \<Rightarrow> uuid \<Rightarrow> db \<Rightarrow> chat_message list" where
  "newest plan limit cid d =
     take (nat (max 1 limit))
       (sort_key (\<lambda>m. - cm_created_at m) (plan (filter (\<lambda>m. cm_conversation_id m = cid) (chat_messages d))))"

definition load_history :: "('w, 'q) chat_env \<Rightarrow> uuid option \<Rightarrow> uuid \<Rightarrow> db \<Rightarrow> message list" where
  "load_history env conversation_id ws d =
     (case conversation_id of
        None \<Rightarrow> []
      | Some cid \<Rightarrow>
          if \<not> ch_history_up env then []
          else case get_by cv_id cid (conversations d) of
                 None \<Rightarrow> []
               | Some conv \<Rightarrow>
                   if cv_workspace_id conv \<noteq> ws then []
                   else map (\<lambda>m. (cm_role m, cm_content m)) (rev (newest (ch_plan env) history_turns cid d)))"

definition ws_settings :: "('w, 'q) chat_env \<Rightarrow> uuid \<Rightarrow> db \<Rightarrow> string option \<times> int option \<times> rat option" where
  "ws_settings env ws d =
     (if \<not> ch_settings_up env then (None, None, None)
      else case get_by w_id ws (workspaces d) of
             None \<Rightarrow> (None, None, None)
           | Some w \<Rightarrow> (Some (w_chat_model w), Some (w_chat_top_k w), Some (w_min_similarity w)))"

record conversation_out =
  co_id :: uuid
  co_title :: string
  co_updated_at :: timestamp

definition list_conversations :: "uuid \<Rightarrow> uuid \<Rightarrow> int \<Rightarrow> conversation_out list db_tx" where
  "list_conversations ws user limit =
     tx_read (\<lambda>d. map (\<lambda>c. \<lparr>co_id = cv_id c, co_title = cv_title c, co_updated_at = cv_updated_at c\<rparr>)
       (take (nat limit) (order_by cv_updated_at False
          (filter (\<lambda>c. cv_workspace_id c = ws \<and> cv_user_id c = user) (conversations d)))))"

record message_out =
  mo_id :: uuid
  mo_conversation_id :: uuid
  mo_role :: string
  mo_content :: string
  mo_confidence :: "rat option"
  mo_evidence :: "evidence_chunk list"
  mo_created_at :: timestamp

text \<open>\<open>ChatMessageOut\<close>; the stored evidence is read back through \<open>EvidenceChunk\<close>.\<close>

definition message_view :: "chat_message \<Rightarrow> exn + message_out" where
  "message_view m =
     (if cm_role m \<notin> {''user'', ''assistant''} \<or> (\<exists>e \<in> set (cm_evidence m). ev_source_type e \<notin> set source_values)
      then Inl pydantic_error
      else Inr \<lparr>mo_id = cm_id m, mo_conversation_id = cm_conversation_id m, mo_role = cm_role m,
        mo_content = cm_content m, mo_confidence = cm_confidence m, mo_evidence = cm_evidence m,
        mo_created_at = cm_created_at m\<rparr>)"

definition get_messages ::
    "(chat_message list \<Rightarrow> chat_message list) \<Rightarrow> uuid \<Rightarrow> uuid \<Rightarrow> int \<Rightarrow> message_out list db_tx" where
  "get_messages plan ws cid limit =
     tx_query (\<lambda>d. case get_by cv_id cid (conversations d) of
         None \<Rightarrow> Inl (raise_app NotFoundError ''Conversation not found'')
       | Some conv \<Rightarrow>
           if cv_workspace_id conv \<noteq> ws then Inl (raise_app NotFoundError ''Conversation not found'')
           else res_map message_view (rev (newest plan limit cid d)))"

subsection \<open>Persistence\<close>

definition add_conversation :: "conversation \<Rightarrow> db \<Rightarrow> exn + db" where
  "add_conversation r d =
     (if length (cv_title r) > 255 then Inl (PyError ''DBAPIError'' ''value too long'')
      else if get_by cv_id (cv_id r) (conversations d) \<noteq> None \<or> get_by w_id (cv_workspace_id r) (workspaces d) = None \<or>
              get_by u_id (cv_user_id r) (users d) = None
      then Inl (integrity_error ''conversations'')
      else Inr (d\<lparr>conversations := conversations d @ [r]\<rparr>))"

definition add_message :: "chat_message \<Rightarrow> db \<Rightarrow> exn + db" where
  "add_message r d =
     (if get_by cm_id (cm_id r) (chat_messages d) \<noteq> None \<or>
         get_by cv_id (cm_conversation_id r) (conversations d) = None \<or>
         get_by w_id (cm_workspace_id r) (workspaces d) = None
      then Inl (integrity_error ''chat_messages'')
      else Inr (d\<lparr>chat_messages := chat_messages d @ [r]\<rparr>))"

text \<open>\<open>[uuid.UUID(c) for c in chunk_ids if _is_uuid(c)] or None\<close>\<close>

definition is_uuid :: "string \<Rightarrow> bool" where
  "is_uuid v \<longleftrightarrow> parse_uuid v \<noteq> None"

definition chunk_uuids :: "string list \<Rightarrow> uuid list option" where
  "chunk_uuids ids =
     (let us = map (\<lambda>c. the (parse_uuid c)) (filter is_uuid ids) in if us = [] then None else Some us)"

definition question_row :: "('w, 'q) chat_env \<Rightarrow> uuid \<Rightarrow> uuid \<Rightarrow> string \<Rightarrow> chat_message" where
  "question_row env ws cid query =
     \<lparr>cm_id = ch_question_id env, cm_conversation_id = cid, cm_workspace_id = ws, cm_role = ''user'',
      cm_content = query, cm_confidence = None, cm_retrieved_chunk_ids = None, cm_evidence = [],
      cm_created_at = ch_now env\<rparr>"

definition answer_row ::
    "('w, 'q) chat_env \<Rightarrow> uuid \<Rightarrow> uuid \<Rightarrow> string \<Rightarrow> rat \<Rightarrow> evidence_chunk list \<Rightarrow> string list \<Rightarrow> chat_message" where
  "answer_row env ws cid answer confidence ev chunk_ids =
     \<lparr>cm_id = ch_answer_id env, cm_conversation_id = cid, cm_workspace_id = ws, cm_role = ''assistant'',
      cm_content = answer, cm_confidence = Some confidence, cm_retrieved_chunk_ids = chunk_uuids chunk_ids,
      cm_evidence = ev, cm_created_at = ch_now env\<rparr>"

definition new_conversation :: "('w, 'q) chat_env \<Rightarrow> uuid \<Rightarrow> uuid option \<Rightarrow> uuid option \<Rightarrow> string \<Rightarrow> conversation" where
  "new_conversation env ws user conversation_id query =
     \<lparr>cv_id = (case conversation_id of None \<Rightarrow> ch_conv_id env | Some c \<Rightarrow> c), cv_workspace_id = ws,
      cv_user_id = (case user of None \<Rightarrow> ch_user_id env | Some u \<Rightarrow> u),
      cv_title = (if take 48 query = [] then ''New conversation'' else take 48 query),
      cv_updated_at = ch_now env\<rparr>"

definition touch_conversation :: "timestamp \<Rightarrow> uuid \<Rightarrow> string \<Rightarrow> db \<Rightarrow> db" where
  "touch_conversation clock cid query d =
     d\<lparr>conversations := set_rows (\<lambda>c. cv_id c = cid)
         (\<lambda>c. c\<lparr>cv_title := (if cv_title c = [] then take 48 query else cv_title c), cv_updated_at := clock\<rparr>)
         (conversations d)\<rparr>"

definition found_conversation :: "uuid option \<Rightarrow> db \<Rightarrow> conversation option" where
  "found_conversation conversation_id d =
     (case conversation_id of None \<Rightarrow> None | Some c \<Rightarrow> get_by cv_id c (conversations d))"

definition find_or_create ::
    "('w, 'q) chat_env \<Rightarrow> uuid \<Rightarrow> uuid option \<Rightarrow> uuid option \<Rightarrow> string \<Rightarrow> conversation db_tx" where
  "find_or_create env ws user conversation_id query =
     tx_bind (tx_read (found_conversation conversation_id)) (\<lambda>found.
     case found of
       Some conv \<Rightarrow> tx_return conv
     | None \<Rightarrow> (let conv = new_conversation env ws user conversation_id query
               in tx_seq (tx_update (add_conversation conv)) (tx_return conv)))"

definition persist ::
    "('w, 'q) chat_env \<Rightarrow> uuid \<Rightarrow> uuid option \<Rightarrow> uuid option \<Rightarrow> string \<Rightarrow> string \<Rightarrow> rat \<Rightarrow> evidence_chunk list \<Rightarrow>
     string list \<Rightarrow> uuid db_tx" where
  "persist env ws user conversation_id query answer confidence ev chunk_ids =
     (if \<not> ch_store_up env then tx_raise (PyError ''OperationalError'' [])
      else tx_bind (find_or_create env ws user conversation_id query) (\<lambda>conv.
           tx_seq (tx_modify (touch_conversation (ch_clock env) (cv_id conv) query))
           (tx_seq (tx_update (add_message (question_row env ws (cv_id conv) query)))
           (tx_seq (tx_update (add_message (answer_row env ws (cv_id conv) answer confidence ev chunk_ids)))
           (tx_seq tx_commit (tx_return (cv_id conv)))))))"

text \<open>A session of the service's own: what it has not committed is gone when it closes.\<close>

definition own_session :: "'a db_tx \<Rightarrow> db \<Rightarrow> (exn + 'a) \<times> db" where
  "own_session m d = (case m (open_session d) of (r, s) \<Rightarrow> (r, committed s))"

subsection \<open>Answers\<close>

text \<open>What both kinds of answer do before they call the model.\<close>

record prepared =
  pr_messages :: "message list"
  pr_evidence :: "evidence_chunk list"
  pr_confidence :: rat
  pr_chunk_ids :: "string list"
  pr_chat_model :: "string option"

definition prepare_answer ::
    "('w, 'q) chat_env \<Rightarrow> 'q vstore \<Rightarrow> graph \<Rightarrow> uuid \<Rightarrow> string \<Rightarrow> uuid option \<Rightarrow> db \<Rightarrow> 'w gateway \<Rightarrow>
     (exn + prepared) \<times> 'w gateway" where
  "prepare_answer env vs g ws query conversation_id d gw =
     (case ws_settings env ws d of (model, top_k, min_sim) \<Rightarrow>
      (let history = load_history env conversation_id ws d
       in case retrieve (ch_cfg env) (ch_provider env) (ch_qdrant env) (ch_rep env) (ch_graph_up env) ws query
               top_k min_sim None True vs g gw of
            (Inl e, gw') \<Rightarrow> (Inl e, gw')
          | (Inr chunks, gw') \<Rightarrow>
              (case assemble_context (ch_cfg env) (ch_tokenizer env) (ch_rep env) chunks None of (context, used, _, _) \<Rightarrow>
                 (map_sum id (\<lambda>ev. \<lparr>pr_messages = prompt_messages context query history, pr_evidence = ev,
                    pr_confidence = confidence_score used, pr_chunk_ids = map rc_chunk_id used, pr_chat_model = model\<rparr>)
                    (evidence_list used), gw'))))"

datatype frame = Token string | Done rat "evidence_chunk list" string | StreamError string

definition failed_frame :: frame where
  "failed_frame = StreamError ''Failed to generate an answer.''"

text \<open>The frames of the stream, the gateway and the database it leaves.\<close>

definition stream_answer ::
    "('w, 'q) chat_env \<Rightarrow> 'q vstore \<Rightarrow> graph \<Rightarrow> uuid \<Rightarrow> uuid \<Rightarrow> string \<Rightarrow> uuid option \<Rightarrow> 'w gateway \<Rightarrow> db \<Rightarrow>
     frame list \<times> 'w gateway \<times> db" where
  "stream_answer env vs g ws user query conversation_id gw d =
     (case prepare_answer env vs g ws query conversation_id d gw of
        (Inl e, gw1) \<Rightarrow> ([failed_frame], gw1, d)
      | (Inr pr, gw1) \<Rightarrow>
          (case stream_llm (ch_cfg env) (ch_provider env) (pr_messages pr) (cp_temperature default_params) ws ''chat''
                  (pr_chat_model pr) None gw1 of
             ((answer_parts, Some _), gw2) \<Rightarrow> (map Token answer_parts @ [failed_frame], gw2, d)
           | ((answer_parts, None), gw2) \<Rightarrow>
               (case own_session (persist env ws (Some user) conversation_id query (concat answer_parts)
                       (pr_confidence pr) (pr_evidence pr) (pr_chunk_ids pr)) d of
                  (Inl e, d') \<Rightarrow> (map Token answer_parts @ [failed_frame], gw2, d')
                | (Inr cid, d') \<Rightarrow>
                    (map Token answer_parts @ [Done (pr_confidence pr) (pr_evidence pr) (str_uuid cid)], gw2, d'))))"

record chat_response =
  ca_answer :: string
  ca_confidence :: rat
  ca_evidence :: "evidence_chunk list"
  ca_conversation_id :: string

definition answer_once ::
    "('w, 'q) chat_env \<Rightarrow> 'q vstore \<Rightarrow> graph \<Rightarrow> uuid \<Rightarrow> string \<Rightarrow> uuid option \<Rightarrow> uuid option \<Rightarrow> 'w gateway \<Rightarrow> db \<Rightarrow>
     (exn + chat_response) \<times> 'w gateway \<times> db" where
  "answer_once env vs g ws query conversation_id user gw d =
     (case prepare_answer env vs g ws query conversation_id d gw of
        (Inl e, gw1) \<Rightarrow> (Inl e, gw1, d)
      | (Inr pr, gw1) \<Rightarrow>
          (case call_llm (ch_cfg env) (ch_provider env) (pr_messages pr) default_params ws ''chat'' (pr_chat_model pr)
                  None gw1 of
             (Inl e, gw2) \<Rightarrow> (Inl e, gw2, d)
           | (Inr result, gw2) \<Rightarrow>
               (case own_session (persist env ws user conversation_id query (lr_content result)
                       (pr_confidence pr) (pr_evidence pr) (pr_chunk_ids pr)) d of
                  (Inl e, d') \<Rightarrow> (Inl e, gw2, d')
                | (Inr cid, d') \<Rightarrow>
                    (Inr \<lparr>ca_answer = lr_content result, ca_confidence = pr_confidence pr,
                       ca_evidence = pr_evidence pr, ca_conversation_id = str_uuid cid\<rparr>, gw2, d'))))"

subsection \<open>Server-sent events\<close>

text \<open>\<open>json.dumps\<close> with its default separators and ASCII escapes; \<open>frepr\<close> is \<open>repr\<close> of a float.\<close>

definition json_escape :: "char \<Rightarrow> string" where
  "json_escape c =
     (let n = (of_char c :: nat)
      in if n = 34 \<or> n = 92 then [CHR 0x5C, c]
         else if n = 10 then [CHR 0x5C, CHR ''n'']
         else if n = 13 then [CHR 0x5C, CHR ''r'']
         else if n = 9 then [CHR 0x5C, CHR ''t'']
         else if n = 8 then [CHR 0x5C, CHR ''b'']
         else if n = 12 then [CHR 0x5C, CHR ''f'']
         else if 32 \<le> n \<and> n \<le> 126 then [c]
         else CHR 0x5C # ''u00'' @ [hex_char (n div 16), hex_char (n mod 16)])"

definition json_string :: "string \<Rightarrow> string" where
  "json_string s = [CHR 0x22] @ concat (map json_escape s) @ [CHR 0x22]"

fun json_dumps :: "(rat \<Rightarrow> string) \<Rightarrow> pyval \<Rightarrow> string"
  and json_values :: "(rat \<Rightarrow> string) \<Rightarrow> pyval list \<Rightarrow> string list"
  and json_items :: "(rat \<Rightarrow> string) \<Rightarrow> (string \<times> pyval) list \<Rightarrow> string list" where
  "json_dumps frepr PNone = ''null''"
| "json_dumps frepr (PBool b) = (if b then ''true'' else ''false'')"
| "json_dumps frepr (PInt i) = str_int i"
| "json_dumps frepr (PFloat x) = frepr x"
| "json_dumps frepr (PStr s) = json_string s"
| "json_dumps frepr (PList xs) = ''['' @ py_join '', '' (json_values frepr xs) @ '']''"
| "json_dumps frepr (PDict d) = ''{'' @ py_join '', '' (json_items frepr d) @ ''}''"
| "json_values frepr [] = []"
| "json_values frepr (x # xs) = json_dumps frepr x # json_values frepr xs"
| "json_items frepr [] = []"
| "json_items frepr ((k, v) # d) = (json_string k @ '': '' @ json_dumps frepr v) # json_items frepr d"

definition evidence_json :: "evidence_chunk \<Rightarrow> pyval" where
  "evidence_json e = PDict
     [(''chunk_id'', PStr (ev_chunk_id e)), (''document_id'', PStr (ev_document_id e)),
      (''document_name'', PStr (ev_document_name e)), (''source_type'', PStr (ev_source_type e)),
      (''section_ref'', (case ev_section_ref e of None \<Rightarrow> PNone | Some s \<Rightarrow> PStr s)),
      (''excerpt'', PStr (ev_excerpt e)), (''similarity_score'', PFloat (ev_similarity_score e))]"

fun frame_json :: "frame \<Rightarrow> pyval" where
  "frame_json (Token t) = PDict [(''type'', PStr ''token''), (''text'', PStr t)]"
| "frame_json (Done confidence ev cid) = PDict [(''type'', PStr ''done''), (''confidence'', PFloat confidence),
     (''evidence'', PList (map evidence_json ev)), (''conversation_id'', PStr cid)]"
| "frame_json (StreamError msg) = PDict [(''type'', PStr ''error''), (''message'', PStr msg)]"

definition event_stream :: "(rat \<Rightarrow> string) \<Rightarrow> frame list \<Rightarrow> string" where
  "event_stream frepr frames =
     concat (map (\<lambda>f. ''data: '' @ json_dumps frepr (frame_json f) @ [CHR 0x0A, CHR 0x0A]) frames)"

subsection \<open>Routes\<close>

record chat_query =
  cq_question :: string
  cq_conversation_id :: "uuid option"

definition chat_query_ok :: "chat_query \<Rightarrow> bool" where
  "chat_query_ok q \<longleftrightarrow> 1 \<le> length (cq_question q) \<and> length (cq_question q) \<le> 2000"

text \<open>
  \<open>/chat/query\<close>: the principal in the request's session, then the stream. \<open>require_user\<close> is called when
  the stream starts; the principals of \<open>get_current_user\<close> have a user.
\<close>

definition chat_query_route ::
    "('w, 'q) chat_env \<Rightarrow> crypto \<Rightarrow> (rat \<Rightarrow> string) \<Rightarrow> string option \<Rightarrow> chat_query \<Rightarrow> 'q vstore \<Rightarrow> graph \<Rightarrow>
     'w gateway \<Rightarrow> db \<Rightarrow> (exn + string) \<times> 'w gateway \<times> db" where
  "chat_query_route env cy frepr creds q vs g gw d =
     (case get_db (get_current_user (ch_cfg env) cy (ch_now env) creds) d of
        (Inl e, d') \<Rightarrow> (Inl e, gw, d')
      | (Inr p, d') \<Rightarrow>
          if \<not> chat_query_ok q then (Inl (ValidationError [Some ''question'']), gw, d')
          else case require_user p of
                 Inl e \<Rightarrow> (Inl e, gw, d')
               | Inr user \<Rightarrow>
                   (case stream_answer env vs g (p_workspace_id p) user (cq_question q) (cq_conversation_id q) gw d' of
                      (frames, gw', d'') \<Rightarrow> (Inr (event_stream frepr frames), gw', d'')))"

definition chat_rest ::
    "('w, 'q) chat_env \<Rightarrow> principal \<Rightarrow> chat_query \<Rightarrow> 'q vstore \<Rightarrow> graph \<Rightarrow> 'w gateway \<Rightarrow> db \<Rightarrow>
     (exn + chat_response) \<times> 'w gateway \<times> db" where
  "chat_rest env p q vs g gw d =
     (if \<not> chat_query_ok q then (Inl (ValidationError [Some ''question'']), gw, d)
      else case answer_once env vs g (p_workspace_id p) (cq_question q) (cq_conversation_id q) (p_user_id p) gw d of
             (Inl e, gw', d') \<Rightarrow> (Inl e, gw', d')
           | (Inr response, gw', d') \<Rightarrow>
               (case get_db (log_api_call (ch_now env) p ''/api/chat'') d' of
                  (Inl e, d'') \<Rightarrow> (Inl e, gw', d'')
                | (Inr _, d'') \<Rightarrow> (Inr response, gw', d'')))"

text \<open>\<open>paginated(items, total=len(items), page=1, page_size=50)\<close>\<close>

definition whole_page :: "'a list \<Rightarrow> 'a list \<times> nat \<times> int \<times> int" where
  "whole_page items = (items, length items, 1, 50)"

definition list_conversations_route ::
    "settings \<Rightarrow> crypto \<Rightarrow> timestamp \<Rightarrow> string option \<Rightarrow> (conversation_out list \<times> nat \<times> int \<times> int) db_tx" where
  "list_conversations_route cfg cy now creds =
     tx_bind (get_current_user cfg cy now creds) (\<lambda>p.
     tx_bind (tx_lift (require_user p)) (\<lambda>user.
     tx_bind (list_conversations (p_workspace_id p) user 50) (\<lambda>items. tx_return (whole_page items))))"

definition conversation_messages_route ::
    "(chat_message list \<Rightarrow> chat_message list) \<Rightarrow> settings \<Rightarrow> crypto \<Rightarrow> timestamp \<Rightarrow> string option \<Rightarrow> uuid \<Rightarrow>
     (message_out list \<times> nat \<times> int \<times> int) db_tx" where
  "conversation_messages_route plan cfg cy now creds cid =
     tx_bind (get_current_user cfg cy now creds) (\<lambda>p.
     tx_bind (get_messages plan (p_workspace_id p) cid 500) (\<lambda>items. tx_return (whole_page items)))"

subsection \<open>Lists of checked values\<close>

lemma res_map_Inr: "(\<And>x. x \<in> set xs \<Longrightarrow> f x = Inr (g x)) \<Longrightarrow> res_map f xs = Inr (map g xs)"
  by (induction xs) auto

lemma res_map_mem: "res_map f xs = Inr ys \<Longrightarrow> y \<in> set ys \<Longrightarrow> \<exists>x \<in> set xs. f x = Inr y"
proof (induction xs arbitrary: ys)
  case (Cons x xs)
  then obtain z zs where "f x = Inr z" "res_map f xs = Inr zs" "ys = z # zs" by (auto split: sum.splits simp: map_sum_def)
  then show ?case using Cons.IH [of zs] Cons.prems(2) by auto
qed simp

end
