(* ===== verification/Uploads.thy ===== *)
theory Uploads
  imports Documents
begin

text \<open>
  Where an upload ends up. The file name of an upload becomes the last part of its storage path as it
  is, so on the local file system a name with \<open>..\<close> leaves the directory of its workspace.
\<close>

lemma split_sep_acc_append:
  "split_sep_acc [c] acc (a @ c # b) = split_sep_acc [c] acc a @ split_sep_acc [c] [] b"
proof (induction a arbitrary: acc)
  case Nil
  then show ?case
    by (subst split_sep_acc.simps) (simp add: startswith_def split_sep_acc.simps [of "[c]" acc "[]"])
next
  case (Cons x a)
  show ?case
  proof (cases "x = c")
    case True
    then have "split_sep_acc [c] acc ((x # a) @ c # b) = rev acc # split_sep_acc [c] [] (a @ c # b)"
      "split_sep_acc [c] acc (x # a) = rev acc # split_sep_acc [c] [] a"
      by (subst split_sep_acc.simps, simp add: startswith_def)+
    then show ?thesis using Cons.IH by simp
  next
    case False
    then have "split_sep_acc [c] acc ((x # a) @ c # b) = split_sep_acc [c] (x # acc) (a @ c # b)"
      "split_sep_acc [c] acc (x # a) = split_sep_acc [c] (x # acc) a"
      by (subst split_sep_acc.simps, simp add: startswith_def)+
    then show ?thesis using Cons.IH by simp
  qed
qed

lemma py_split_append: "py_split [c] (a @ c # b) = py_split [c] a @ py_split [c] b"
  by (simp add: py_split_def split_sep_acc_append)

lemma walk_append: "walk acc (xs @ ys) = walk (rev (walk acc xs)) ys"
  by (induction acc xs rule: walk.induct) auto

lemma str_uuid_component:
  "CHR ''/'' \<notin> set (str_uuid u)" "str_uuid u \<noteq> []" "str_uuid u \<noteq> ''.''" "str_uuid u \<noteq> ''..''"
proof -
  have "CHR ''-'' \<in> set (str_uuid u)" by (simp add: str_uuid_def Let_def)
  then show "str_uuid u \<noteq> []" "str_uuid u \<noteq> ''.''" "str_uuid u \<noteq> ''..''" by auto
  show "CHR ''/'' \<notin> set (str_uuid u)" by (rule str_uuid_free) simp_all
qed

lemma split_component: "CHR ''/'' \<notin> set c \<Longrightarrow> py_split ''/'' c = [c]"
  by (simp add: py_split_none)

text \<open>The components of a storage path, and where it leads.\<close>

lemma resolve_build_path:
  "resolve base (build_path (str_uuid ws) (str_uuid doc) name) =
   walk (rev (walk [] (py_split ''/'' base) @ [''workspaces'', str_uuid ws, ''raw'', str_uuid doc])) (py_split ''/'' name)"
proof -
  have path: "base @ ''/'' @ build_path (str_uuid ws) (str_uuid doc) name =
      base @ CHR ''/'' # (''workspaces'' @ CHR ''/'' # (str_uuid ws @ CHR ''/'' # (''raw'' @ CHR ''/'' # (str_uuid doc @ CHR ''/'' # name))))"
    by (simp add: build_path_def)
  have "py_split ''/'' (base @ ''/'' @ build_path (str_uuid ws) (str_uuid doc) name) =
      py_split ''/'' base @ [''workspaces'', str_uuid ws, ''raw'', str_uuid doc] @ py_split ''/'' name"
    unfolding path py_split_append using str_uuid_component(1) by (simp add: split_component)
  moreover have "\<not> startswith (build_path (str_uuid ws) (str_uuid doc) name) ''/''"
    by (simp add: build_path_def startswith_def)
  ultimately show ?thesis
    by (simp add: resolve_def walk_append str_uuid_component)
qed

subsection \<open>An upload into another workspace\<close>

definition escape_name :: "uuid \<Rightarrow> uuid \<Rightarrow> string \<Rightarrow> string" where
  "escape_name ws doc filename = ''../../../'' @ str_uuid ws @ ''/raw/'' @ str_uuid doc @ ''/'' @ filename"

lemma resolve_escape:
  "resolve base (build_path (str_uuid ws) (str_uuid doc) (escape_name vw vd filename)) =
   resolve base (build_path (str_uuid vw) (str_uuid vd) filename)"
proof -
  have name: "escape_name vw vd filename = ''..'' @ CHR ''/'' # (''..'' @ CHR ''/'' # (''..'' @ CHR ''/'' #
      (str_uuid vw @ CHR ''/'' # (''raw'' @ CHR ''/'' # (str_uuid vd @ CHR ''/'' # filename)))))"
    by (simp add: escape_name_def)
  have "py_split ''/'' (escape_name vw vd filename) =
      [''..'', ''..'', ''..'', str_uuid vw, ''raw'', str_uuid vd] @ py_split ''/'' filename"
    unfolding name py_split_append using str_uuid_component(1) by (simp add: split_component)
  then show ?thesis unfolding resolve_build_path by (simp add: str_uuid_component)
qed

lemma tx_bind_Inr: "m s = (Inr x, s') \<Longrightarrow> tx_bind m f s = f x s'"
  by (simp add: tx_bind_def)

lemma outside_frame:
  "tx_frame (\<lambda>(d, ou). ou_storage ou) (on_db m)"
  "tx_frame (\<lambda>(d, ou). ou_storage ou) (enqueue env doc_id)"
  by (simp_all add: tx_frame_def on_db_def enqueue_def tx_modify_def case_prod_unfold)

lemma create_frame: "tx_frame (\<lambda>(d, ou). ou_storage ou) (create_queued_document env ws f)"
  unfolding create_queued_document_def Let_def by (intro inv_intros outside_frame)

lemma run_outside_frame:
  assumes "tx_frame (\<lambda>(d, ou). ou_storage ou) m" and "run_outside m s ou = (r, ou', d')"
  shows "ou_storage ou' = ou_storage ou"
proof -
  obtain r0 t where run: "m \<lparr>committed = (committed s, ou), working = (working s, ou)\<rparr> = (r0, t)" by fastforce
  then have "ou_storage (snd (working t)) = ou_storage ou"
    using assms(1) [unfolded tx_frame_def, rule_format, of "\<lparr>committed = (committed s, ou), working = (working s, ou)\<rparr>"]
    by (simp add: case_prod_unfold)
  then show ?thesis using assms(2) run by (cases r0) (auto simp: run_outside_def)
qed

text \<open>
  A user of one workspace can replace a file of another: an upload in one piece whose file name is
  \<open>../../../\<close>, the other workspace's id, \<open>/raw/\<close>, the document's id and its file name is written, on
  the local backend, over the file stored for that document, however the request ends.
\<close>

theorem upload_escapes_workspace:
  fixes env :: "fs doc_env"
  assumes "de_storage env = local_storage base" and "can_write p"
    and "upload_name f = escape_name vw vd filename" and "uf_upload_id f = None"
    and "detect_file_type (upload_name f) (Some (uf_data f)) = Inr ft"
    and "run_outside (ingest_file_route env f p) s ou = (r, ou', d')"
  shows "local_get_bytes base (build_path (str_uuid vw) (str_uuid vd) filename) (ou_storage ou') = Inr (uf_data f)"
proof -
  let ?path = "build_path (str_uuid (p_workspace_id p)) (str_uuid (de_doc_id env)) (upload_name f)"
  let ?rest = "if int (length (uf_data f)) > max_upload_bytes (de_cfg env)
        then tx_raise (raise_code BadRequestError ''File exceeds the 500 MB limit'' ''FILE_TOO_LARGE'')
        else tx_bind (on_db (uploader_name p)) (\<lambda>uploader.
             tx_bind (create_queued_document env (p_workspace_id p)
               \<lparr>df_name = upload_name f, df_filename = upload_name f, df_file_type = ft, df_source_type = principal_source p,
                df_size_bytes = int (length (uf_data f)), df_storage_path = Some ?path, df_mime_type = uf_content_type f,
                df_tags = upload_tags f, df_uploaded_by = uploader, df_uploaded_by_id = p_user_id p,
                df_connector_id = None, df_external_id = None\<rparr>) (\<lambda>(doc, job).
             tx_seq (on_db (log_api_call (de_now env) p ''/api/ingest/file''))
             (tx_return (d_id doc, j_id job, d_ingestion_status doc))))"
  let ?ou = "ou\<lparr>ou_storage := (ou_storage ou)(resolve base ?path \<mapsto> uf_data f)\<rparr>"
  have frame: "tx_frame (\<lambda>(d, ou). ou_storage ou) ?rest"
    by (intro inv_intros outside_frame create_frame)
  have stored: "store_upload env (upload_name f) ?path f \<lparr>committed = (committed s, ou), working = (working s, ou)\<rparr> =
      (Inr (ft, int (length (uf_data f))), \<lparr>committed = (committed s, ou), working = (working s, ?ou)\<rparr>)"
    using assms(1,4,5)
    by (simp add: store_upload_def nonempty_def tx_simps tx_bind_def on_storage_def local_storage_def local_save_bytes_def)
  have "ensure_write_scope p = Inr ()" using assms(2) by (simp add: ensure_write_scope_def)
  then have step: "ingest_file_route env f p \<lparr>committed = (committed s, ou), working = (working s, ou)\<rparr> =
      ?rest \<lparr>committed = (committed s, ou), working = (working s, ?ou)\<rparr>"
    by (simp add: ingest_file_route_def Let_def tx_bind_simps(3) tx_bind_Inr [where m = "store_upload env (upload_name f) ?path f", OF stored])
  have "ou_storage (snd (working (snd (?rest \<lparr>committed = (committed s, ou), working = (working s, ?ou)\<rparr>)))) = ou_storage ?ou"
    using frame [unfolded tx_frame_def, rule_format, of "\<lparr>committed = (committed s, ou), working = (working s, ?ou)\<rparr>"]
    by (simp add: case_prod_unfold)
  then have "ou_storage ou' = (ou_storage ou)(resolve base ?path \<mapsto> uf_data f)"
    using assms(6) step by (auto simp: run_outside_def case_prod_unfold split: prod.splits sum.splits)
  then show ?thesis
    using resolve_escape [of base "p_workspace_id p" "de_doc_id env" vw vd filename] assms(3)
    by (simp add: local_get_bytes_def)
qed

subsection \<open>Witnesses\<close>

definition demo_workspace :: "uuid \<Rightarrow> workspace" where
  "demo_workspace w = \<lparr>w_id = w, w_organization_id = 1, w_name = ''w'', w_embedding_model = ''m'', w_embedding_dims = 2,
     w_chat_model = ''c'', w_chat_top_k = 8, w_min_similarity = 1 / 2, w_auto_start_ingestion = True,
     w_rest_api_enabled = True, w_default_rate_limit_per_minute = 100\<rparr>"

definition demo_two_workspaces :: db where
  "demo_two_workspaces = empty_db\<lparr>workspaces := [demo_workspace 2, demo_workspace 3]\<rparr>"

definition demo_principal :: "uuid \<Rightarrow> principal" where
  "demo_principal w = \<lparr>p_workspace_id = w, p_user_id = None, p_role = PStr ''member'', p_api_key_id = None, p_scope = None\<rparr>"

definition demo_doc_env :: "uuid \<Rightarrow> fs doc_env" where
  "demo_doc_env i = \<lparr>de_cfg = default_settings, de_storage = local_storage ''/data'', de_broker_up = True, de_doc_id = i,
     de_job_id = i, de_now = 7, de_rep = (\<lambda>_. [])\<rparr>"

definition demo_form :: "string \<Rightarrow> upload_form" where
  "demo_form name = \<lparr>uf_data = [104, 105], uf_filename = Some name, uf_content_type = None, uf_file_name = None,
     uf_tags = None, uf_upload_id = None, uf_part_number = None, uf_total_parts = None\<rparr>"

definition no_outside :: "fs outside" where
  "no_outside = \<lparr>ou_storage = (\<lambda>_. None), ou_queue = []\<rparr>"

lemma upload_escapes_workspace_witness:
  "local_get_bytes ''/data'' (build_path (str_uuid 2) (str_uuid 8) ''a.txt'')
     (ou_storage (fst (snd (run_outside (ingest_file_route (demo_doc_env 9) (demo_form (escape_name 2 8 ''a.txt'')) (demo_principal 3))
        (open_session demo_two_workspaces) no_outside)))) = Inr [104, 105]"
proof -
  let ?f = "demo_form (escape_name 2 8 ''a.txt'')"
  have name: "upload_name ?f = escape_name 2 8 ''a.txt''" by (simp add: upload_name_def demo_form_def nonempty_def escape_name_def)
  have ft: "detect_file_type (upload_name ?f) (Some (uf_data ?f)) = Inr ''txt''" by code_simp
  obtain r ou' d' where run: "run_outside (ingest_file_route (demo_doc_env 9) ?f (demo_principal 3))
      (open_session demo_two_workspaces) no_outside = (r, ou', d')"
    by (rule prod_cases3)
  have "local_get_bytes ''/data'' (build_path (str_uuid 2) (str_uuid 8) ''a.txt'') (ou_storage ou') = Inr (uf_data ?f)"
    by (rule upload_escapes_workspace [OF _ _ name _ ft run])
      (simp_all add: demo_doc_env_def can_write_def demo_principal_def demo_form_def)
  then show ?thesis unfolding run by (simp add: demo_form_def)
qed

end
