(* ===== verification/Chat_Laws.thy ===== *)
theory Chat_Laws
  imports Chat Uploads "HOL-Library.Multiset"
begin

text \<open>
  What a chat promises: a stream ends once, a turn is stored as a whole and read back, the evidence is
  the workspace's own, the frames of the event stream stay apart; and what goes wrong with foreign
  conversations, API keys and rows of equal time.
\<close>

subsection \<open>A stored turn\<close>

definition turn :: "('w, 'q) chat_env \<Rightarrow> uuid \<Rightarrow> uuid \<Rightarrow> string \<Rightarrow> string \<Rightarrow> rat \<Rightarrow> evidence_chunk list \<Rightarrow> string list \<Rightarrow> chat_message list" where
  "turn env ws c query answer conf ev ids = [question_row env ws c query, answer_row env ws c answer conf ev ids]"

lemma persist_Inl: "own_session (persist env ws user cid query answer conf ev ids) d = (Inl e, d') \<Longrightarrow> d' = d"
  by (auto simp: own_session_def persist_def find_or_create_def tx_simps Let_def split: if_splits sum.splits option.splits)

lemma touch_simps [simp]:
  "chat_messages (touch_conversation clock c query d) = chat_messages d"
  "workspaces (touch_conversation clock c query d) = workspaces d"
  "users (touch_conversation clock c query d) = users d"
  by (simp_all add: touch_conversation_def)

lemma add_message_Inr: "add_message r d = Inr d' \<Longrightarrow> d' = d\<lparr>chat_messages := chat_messages d @ [r]\<rparr> \<and> get_by cm_id (cm_id r) (chat_messages d) = None"
  by (auto simp: add_message_def split: if_splits)

lemma add_conversation_Inr: "add_conversation r d = Inr d' \<Longrightarrow> d' = d\<lparr>conversations := conversations d @ [r]\<rparr> \<and>
    get_by cv_id (cv_id r) (conversations d) = None \<and> get_by u_id (cv_user_id r) (users d) \<noteq> None"
  by (auto simp: add_conversation_def split: if_splits)

text \<open>The conversations a turn leaves: its own is there, touched, and was there or is new.\<close>

definition turn_conversation ::
    "('w, 'q) chat_env \<Rightarrow> uuid \<Rightarrow> uuid option \<Rightarrow> uuid option \<Rightarrow> string \<Rightarrow> uuid \<Rightarrow> db \<Rightarrow> conversation list \<Rightarrow> bool" where
  "turn_conversation env ws user cid query c d new \<longleftrightarrow>
     new = [] \<and> cid = Some c \<and> get_by cv_id c (conversations d) \<noteq> None \<or>
     new = [new_conversation env ws user cid query] \<and> c = cv_id (new_conversation env ws user cid query) \<and>
       get_by cv_id c (conversations d) = None \<and>
       get_by u_id (case user of None \<Rightarrow> ch_user_id env | Some u \<Rightarrow> u) (users d) \<noteq> None"

lemma find_or_create_Inr:
  assumes "find_or_create env ws user cid query (open_session d) = (Inr conv, s)"
  shows "\<exists>new. turn_conversation env ws user cid query (cv_id conv) d new \<and>
    s = \<lparr>committed = d, working = d\<lparr>conversations := conversations d @ new\<rparr>\<rparr>"
proof (cases "found_conversation cid d")
  case None
  let ?new = "new_conversation env ws user cid query"
  have "conv = ?new \<and> add_conversation ?new d = Inr (working s) \<and> committed s = d"
    using assms None by (auto simp: find_or_create_def tx_simps Let_def split: sum.splits)
  with None show ?thesis using add_conversation_Inr [of ?new d "working s"]
    by (intro exI [of _ "[?new]"]) (auto simp: turn_conversation_def new_conversation_def found_conversation_def split: option.splits)
next
  case (Some cv)
  then have "cv = conv \<and> s = open_session d" using assms by (auto simp: find_or_create_def tx_simps)
  with Some show ?thesis
    by (intro exI [of _ "[]"]) (auto simp: turn_conversation_def open_session_def found_conversation_def split: option.splits dest: get_by_Some)
qed

lemma persist_Inr:
  assumes "own_session (persist env ws user cid query answer conf ev ids) d = (Inr c, d')"
  shows "\<exists>new. turn_conversation env ws user cid query c d new \<and>
    d' = (touch_conversation (ch_clock env) c query (d\<lparr>conversations := conversations d @ new\<rparr>))
      \<lparr>chat_messages := chat_messages d @ turn env ws c query answer conf ev ids\<rparr>"
proof -
  obtain conv s where conv: "find_or_create env ws user cid query (open_session d) = (Inr conv, s)"
    and rest: "tx_seq (tx_modify (touch_conversation (ch_clock env) (cv_id conv) query))
        (tx_seq (tx_update (add_message (question_row env ws (cv_id conv) query)))
        (tx_seq (tx_update (add_message (answer_row env ws (cv_id conv) answer conf ev ids)))
        (tx_seq tx_commit (tx_return (cv_id conv))))) s = (Inr c, \<lparr>committed = d', working = d'\<rparr>)"
    using assms by (auto simp: own_session_def persist_def tx_bind_def tx_seq_def tx_commit_def tx_return_def tx_raise_def
        split: if_splits sum.splits prod.splits)
  obtain new where new: "turn_conversation env ws user cid query (cv_id conv) d new"
    and s: "s = \<lparr>committed = d, working = d\<lparr>conversations := conversations d @ new\<rparr>\<rparr>"
    using find_or_create_Inr [OF conv] by blast
  have "c = cv_id conv \<and> d' = (touch_conversation (ch_clock env) c query (d\<lparr>conversations := conversations d @ new\<rparr>))
      \<lparr>chat_messages := chat_messages d @ turn env ws c query answer conf ev ids\<rparr>"
    using rest unfolding s by (auto simp: tx_simps turn_def touch_conversation_def dest!: add_message_Inr split: sum.splits)
  with new show ?thesis by blast
qed

subsection \<open>How a stream ends\<close>

lemma stream_cases:
  assumes "stream_answer env vs g ws user query cid gw d = (frames, gw', d')"
  obtains (failed) tokens where "frames = map Token tokens @ [failed_frame]" "d' = d"
  | (answered) tokens pr gw1 c where "prepare_answer env vs g ws query cid d gw = (Inr pr, gw1)"
      "own_session (persist env ws (Some user) cid query (concat tokens) (pr_confidence pr) (pr_evidence pr) (pr_chunk_ids pr)) d = (Inr c, d')"
      "frames = map Token tokens @ [Done (pr_confidence pr) (pr_evidence pr) (str_uuid c)]"
proof -
  obtain r gw1 where prep: "prepare_answer env vs g ws query cid d gw = (r, gw1)" by fastforce
  show thesis
  proof (cases r)
    case (Inl e)
    then show thesis using assms prep failed [of "[]"] by (simp add: stream_answer_def)
  next
    case (Inr pr)
    obtain tokens failure gw2 where str: "stream_llm (ch_cfg env) (ch_provider env) (pr_messages pr)
        (cp_temperature default_params) ws ''chat'' (pr_chat_model pr) None gw1 = ((tokens, failure), gw2)"
      by (metis surj_pair)
    obtain q d1 where own: "own_session (persist env ws (Some user) cid query (concat tokens) (pr_confidence pr)
        (pr_evidence pr) (pr_chunk_ids pr)) d = (q, d1)" by fastforce
    note run = assms [unfolded stream_answer_def prep Inr prod.case sum.case str]
    show thesis
    proof (cases failure)
      case (Some e)
      then show thesis using run failed [of tokens] by simp
    next
      case None
      then show thesis
        using run own persist_Inl [of env ws "Some user" cid query] failed [of tokens] answered [of pr gw1 tokens] prep Inr
        by (cases q) auto
    qed
  qed
qed

text \<open>
  C31: A stream ends exactly once and tells the truth: it is tokens followed by one last frame; if that is
  the error, the database is as before; if it is \<open>done\<close>, the question and the answer, which is the
  tokens joined, were both added to the conversation the frame names, with the confidence and the
  evidence it shows, and nothing else was added.
\<close>

theorem stream_ends_once:
  assumes "stream_answer env vs g ws user query cid gw d = (frames, gw', d')"
  shows "\<exists>tokens. (frames = map Token tokens @ [failed_frame] \<and> d' = d) \<or>
    (\<exists>conf ev c ids. frames = map Token tokens @ [Done conf ev (str_uuid c)] \<and>
       (cid \<noteq> None \<longrightarrow> cid = Some c) \<and>
       chat_messages d' = chat_messages d @ turn env ws c query (concat tokens) conf ev ids \<and>
       get_by cv_id c (conversations d') \<noteq> None \<and> length (conversations d') \<le> length (conversations d) + 1)"
  using assms
proof (cases rule: stream_cases)
  case (failed tokens)
  then show ?thesis by blast
next
  case (answered tokens pr gw1 c)
  obtain new where new: "turn_conversation env ws (Some user) cid query c d new"
    and d': "d' = (touch_conversation (ch_clock env) c query (d\<lparr>conversations := conversations d @ new\<rparr>))
      \<lparr>chat_messages := chat_messages d @ turn env ws c query (concat tokens) (pr_confidence pr) (pr_evidence pr) (pr_chunk_ids pr)\<rparr>"
    using persist_Inr [OF answered(2)] by blast
  have "get_by cv_id c (conversations d') \<noteq> None" "length (conversations d') \<le> length (conversations d) + 1"
    "cid \<noteq> None \<longrightarrow> cid = Some c"
    using new by (auto simp: d' turn_conversation_def touch_conversation_def get_by_set_rows get_by_append new_conversation_def split: option.splits)
  then show ?thesis using answered(3) d' by (intro exI [of _ tokens] disjI2 exI conjI) auto
qed

subsection \<open>Reading a turn back\<close>

lemma filter_sorted_split:
  "sorted (map key xs) \<Longrightarrow> xs = filter (\<lambda>x. key x \<le> t) xs @ filter (\<lambda>x. \<not> key x \<le> t) xs" for key :: "'a \<Rightarrow> 'k::linorder"
proof (induction xs)
  case (Cons x xs)
  show ?case
  proof (cases "key x \<le> t")
    case False
    then have gt: "\<forall>y \<in> set (x # xs). \<not> key y \<le> t" using Cons.prems by auto
    then have "filter (\<lambda>x. key x \<le> t) (x # xs) = []" "filter (\<lambda>x. \<not> key x \<le> t) (x # xs) = x # xs"
      unfolding filter_empty_conv filter_id_conv by blast+
    then show ?thesis by simp
  qed (use Cons in simp)
qed simp

text \<open>A query for the newest rows, when some rows are newer than all the others, meets these first.\<close>

lemma newest_first:
  fixes key :: "'r \<Rightarrow> int"
  assumes "\<And>rows. mset (plan rows) = mset rows" and "\<forall>x \<in> set old. \<forall>y \<in> set new. key x < key y"
    and "\<forall>y \<in> set new. \<forall>z \<in> set new. key y = key z" and "new \<noteq> []"
  shows "\<exists>hd tl. sort_key (\<lambda>r. - key r) (plan (old @ new)) = hd @ tl \<and> mset hd = mset new \<and> mset tl = mset old"
proof -
  let ?s = "sort_key (\<lambda>r. - key r) (plan (old @ new))"
  obtain y where y: "y \<in> set new" using assms(4) by (cases new) auto
  let ?P = "\<lambda>r. - key r \<le> - key y"
  have m: "mset ?s = mset (old @ new)" by (simp add: assms(1))
  have n: "\<And>r. r \<in> set new \<Longrightarrow> key r = key y" using assms(3) y by blast
  have o': "\<And>r. r \<in> set old \<Longrightarrow> key r < key y" using assms(2) y by blast
  have new: "filter ?P new = new" "filter (\<lambda>r. \<not> ?P r) new = []"
    by (simp_all add: filter_id_conv filter_empty_conv n)
  have old: "filter ?P old = []" "filter (\<lambda>r. \<not> ?P r) old = old"
    by (simp_all add: filter_id_conv filter_empty_conv o' not_le)
  have "mset (filter Q ?s) = mset (filter Q (old @ new))" for Q by (simp only: mset_filter m)
  then have "mset (filter ?P ?s) = mset new" "mset (filter (\<lambda>r. \<not> ?P r) ?s) = mset old"
    by (simp_all only: filter_append new old append_Nil append_Nil2)
  moreover have "?s = filter ?P ?s @ filter (\<lambda>r. \<not> ?P r) ?s" by (rule filter_sorted_split) simp
  ultimately show ?thesis by blast
qed

lemma evidence_ofD:
  "evidence_of c = Inr e \<Longrightarrow> ev_source_type e \<in> set source_values \<and> ev_chunk_id e = rc_chunk_id c \<and>
     ev_document_id e = rc_document_id c \<and> ev_excerpt e = take 200 (rc_chunk_text c) \<and>
     ev_similarity_score e = round_to 4 (rc_score c)"
  by (auto simp: evidence_of_def split: bool.splits pyval.splits)

lemma prepare_Inr:
  assumes "prepare_answer env vs g ws query cid d gw = (Inr pr, gw')"
  obtains model top_k min_sim chunks ctx used n t where
    "ws_settings env ws d = (model, top_k, min_sim)"
    "fst (retrieve (ch_cfg env) (ch_provider env) (ch_qdrant env) (ch_rep env) (ch_graph_up env) ws query
       top_k min_sim None True vs g gw) = Inr chunks"
    "assemble_context (ch_cfg env) (ch_tokenizer env) (ch_rep env) chunks None = (ctx, used, n, t)"
    "evidence_list used = Inr (pr_evidence pr)"
    "pr_messages pr = prompt_messages ctx query (load_history env cid ws d)"
proof -
  obtain model top_k min_sim where ws: "ws_settings env ws d = (model, top_k, min_sim)" by (metis surj_pair)
  obtain r gw1 where ret: "retrieve (ch_cfg env) (ch_provider env) (ch_qdrant env) (ch_rep env) (ch_graph_up env) ws query
       top_k min_sim None True vs g gw = (r, gw1)" by fastforce
  then obtain chunks where r: "r = Inr chunks"
    using assms by (cases r) (simp_all add: prepare_answer_def ws Let_def)
  obtain ctx used n t where asm: "assemble_context (ch_cfg env) (ch_tokenizer env) (ch_rep env) chunks None = (ctx, used, n, t)"
    by (metis surj_pair)
  note run = assms [unfolded prepare_answer_def ws Let_def prod.case ret r sum.case asm]
  show thesis
    by (rule that [OF ws _ asm]) (use run ret r in \<open>auto simp: map_sum_def split: sum.splits\<close>)
qed

lemma evidence_sources:
  "prepare_answer env vs g ws query cid d gw = (Inr pr, gw') \<Longrightarrow> e \<in> set (pr_evidence pr) \<Longrightarrow> ev_source_type e \<in> set source_values"
  by (erule prepare_Inr) (auto simp: evidence_list_def dest!: res_map_mem evidence_ofD)

definition in_conversation :: "uuid \<Rightarrow> db \<Rightarrow> chat_message list" where
  "in_conversation c d = filter (\<lambda>m. cm_conversation_id m = c) (chat_messages d)"

text \<open>The answer a stream shows.\<close>

fun frame_text :: "frame \<Rightarrow> string" where
  "frame_text (Token t) = t"
| "frame_text (Done _ _ _) = []"
| "frame_text (StreamError _) = []"

definition shown_text :: "frame list \<Rightarrow> string" where
  "shown_text frames = concat (map frame_text frames)"

lemma stream_done:
  assumes "stream_answer env vs g ws user query cid gw d = (frames, gw', d')" and "Done conf ev (str_uuid c) \<in> set frames"
  obtains new ids where "turn_conversation env ws (Some user) cid query c d new"
    "d' = (touch_conversation (ch_clock env) c query (d\<lparr>conversations := conversations d @ new\<rparr>))
      \<lparr>chat_messages := chat_messages d @ turn env ws c query (shown_text frames) conf ev ids\<rparr>"
    "\<forall>e \<in> set ev. ev_source_type e \<in> set source_values"
  using assms(1)
proof (cases rule: stream_cases)
  case (failed tokens)
  then show thesis using assms(2) by (auto simp: failed_frame_def)
next
  case (answered tokens pr gw1 c')
  then have eq: "conf = pr_confidence pr" "ev = pr_evidence pr" "c' = c" using assms(2) by auto
  have shown: "shown_text frames = concat tokens" by (simp add: answered(3) shown_text_def comp_def)
  show thesis
    using persist_Inr [OF answered(2)] evidence_sources [OF answered(1)] that unfolding eq shown by blast
qed

lemma touch_owner:
  "map_option cv_workspace_id (get_by cv_id k (conversations (touch_conversation clock c query d))) =
   map_option cv_workspace_id (get_by cv_id k (conversations d))"
  by (simp add: touch_conversation_def get_by_set_rows option.map_comp comp_def if_distrib cong: if_cong)

lemma turn_owner:
  assumes "turn_conversation env ws user cid query c d new"
  shows "\<exists>conv. get_by cv_id c (conversations (touch_conversation clock c query (d\<lparr>conversations := conversations d @ new\<rparr>))) = Some conv \<and>
    cv_workspace_id conv = (case get_by cv_id c (conversations d) of None \<Rightarrow> ws | Some old \<Rightarrow> cv_workspace_id old)"
proof -
  have "map_option cv_workspace_id (get_by cv_id c (conversations d @ new)) =
      Some (case get_by cv_id c (conversations d) of None \<Rightarrow> ws | Some old \<Rightarrow> cv_workspace_id old)"
    using assms by (auto simp: turn_conversation_def get_by_append new_conversation_def split: option.splits)
  then have "map_option cv_workspace_id (get_by cv_id c (conversations (touch_conversation clock c query (d\<lparr>conversations := conversations d @ new\<rparr>)))) =
      Some (case get_by cv_id c (conversations d) of None \<Rightarrow> ws | Some old \<Rightarrow> cv_workspace_id old)"
    by (simp add: touch_owner)
  then show ?thesis by (simp only: map_option_eq_Some)
qed

lemma turn_in_conversation:
  "chat_messages d' = chat_messages d @ turn env ws c query answer conf ev ids \<Longrightarrow>
   in_conversation c d' = in_conversation c d @ turn env ws c query answer conf ev ids"
  by (simp add: in_conversation_def turn_def question_row_def answer_row_def)

definition question_out :: "('w, 'q) chat_env \<Rightarrow> uuid \<Rightarrow> string \<Rightarrow> message_out" where
  "question_out env c query =
     \<lparr>mo_id = ch_question_id env, mo_conversation_id = c, mo_role = ''user'', mo_content = query, mo_confidence = None,
      mo_evidence = [], mo_created_at = ch_now env\<rparr>"

definition answer_out :: "('w, 'q) chat_env \<Rightarrow> uuid \<Rightarrow> string \<Rightarrow> rat \<Rightarrow> evidence_chunk list \<Rightarrow> message_out" where
  "answer_out env c answer conf ev =
     \<lparr>mo_id = ch_answer_id env, mo_conversation_id = c, mo_role = ''assistant'', mo_content = answer,
      mo_confidence = Some conf, mo_evidence = ev, mo_created_at = ch_now env\<rparr>"

lemma turn_views:
  assumes "\<forall>e \<in> set ev. ev_source_type e \<in> set source_values"
  shows "map message_view (turn env ws c query answer conf ev ids) = [Inr (question_out env c query), Inr (answer_out env c answer conf ev)]"
  using assms by (simp add: turn_def message_view_def question_row_def answer_row_def question_out_def answer_out_def)

lemma message_view_id: "message_view m = Inr v \<Longrightarrow> mo_id v = cm_id m"
  by (auto simp: message_view_def split: if_splits)

lemma turn_times: "m \<in> set (turn env ws c query answer conf ev ids) \<Longrightarrow> cm_created_at m = ch_now env"
  by (auto simp: turn_def question_row_def answer_row_def)

text \<open>The newest rows of a conversation whose last turn is the newest.\<close>

lemma newest_turn:
  assumes "\<And>rows. mset (plan rows) = mset rows" and "\<forall>m \<in> set (in_conversation c d). cm_created_at m < ch_now env"
    and "in_conversation c d' = in_conversation c d @ turn env ws c query answer conf ev ids" and "2 \<le> limit"
  shows "\<exists>hd tl. newest plan limit c d' = hd @ take (nat limit - 2) tl \<and>
    mset hd = mset (turn env ws c query answer conf ev ids) \<and> mset tl = mset (in_conversation c d)"
proof -
  have "\<exists>hd tl. sort_key (\<lambda>m. - cm_created_at m) (plan (in_conversation c d @ turn env ws c query answer conf ev ids)) = hd @ tl \<and>
      mset hd = mset (turn env ws c query answer conf ev ids) \<and> mset tl = mset (in_conversation c d)"
    by (rule newest_first [OF assms(1)]) (use assms(2) turn_times in \<open>auto simp: turn_def question_row_def answer_row_def\<close>)
  then obtain hd tl where sorted: "sort_key (\<lambda>m. - cm_created_at m) (plan (in_conversation c d @ turn env ws c query answer conf ev ids)) = hd @ tl"
    and m: "mset hd = mset (turn env ws c query answer conf ev ids)" "mset tl = mset (in_conversation c d)" by blast
  have "length hd = 2" using mset_eq_length [OF m(1)] by (simp add: turn_def)
  moreover have "nat (max 1 limit) = nat limit" using assms(4) by simp
  ultimately have "newest plan limit c d' = hd @ take (nat limit - 2) tl"
    using sorted assms(4) by (simp add: newest_def in_conversation_def [symmetric] assms(3))
  with m show ?thesis by blast
qed

text \<open>
  C32: A turn is read back: after a stream that ended with \<open>done\<close>, the messages of the conversation are
  all the earlier ones, and last the question and the answer with the text, the confidence and the
  evidence that the stream showed, provided the turn is the newest and there are at most 500 in all. Of the
  two last ones the order is the database's: they have the same time.
\<close>

theorem turn_read_back:
  assumes "\<And>rows. mset (plan rows) = mset rows"
    and "stream_answer env vs g ws user query cid gw d = (frames, gw', d')" and "Done conf ev (str_uuid c) \<in> set frames"
    and "\<And>conv. get_by cv_id c (conversations d) = Some conv \<Longrightarrow> cv_workspace_id conv = ws"
    and "\<And>m. m \<in> set (in_conversation c d) \<Longrightarrow> cm_created_at m < ch_now env \<and> (\<exists>v. message_view m = Inr v)"
    and "length (in_conversation c d) \<le> 498"
  shows "\<exists>earlier last2. fst (get_messages plan ws c 500 (open_session d')) = Inr (earlier @ last2) \<and>
    mset (map mo_id earlier) = mset (map cm_id (in_conversation c d)) \<and>
    mset last2 = {#question_out env c query, answer_out env c (shown_text frames) conf ev#}"
proof -
  obtain new ids where conv: "turn_conversation env ws (Some user) cid query c d new"
    and d': "d' = (touch_conversation (ch_clock env) c query (d\<lparr>conversations := conversations d @ new\<rparr>))
      \<lparr>chat_messages := chat_messages d @ turn env ws c query (shown_text frames) conf ev ids\<rparr>"
    and ev: "\<forall>e \<in> set ev. ev_source_type e \<in> set source_values"
    by (rule stream_done [OF assms(2,3)])
  let ?turn = "turn env ws c query (shown_text frames) conf ev ids"
  have "(case get_by cv_id c (conversations d) of None \<Rightarrow> ws | Some old \<Rightarrow> cv_workspace_id old) = ws"
    using assms(4) by (cases "get_by cv_id c (conversations d)") auto
  then have own: "\<exists>conv. get_by cv_id c (conversations d') = Some conv \<and> cv_workspace_id conv = ws"
    using turn_owner [OF conv, of "ch_clock env"] by (simp add: d')
  have "in_conversation c d' = in_conversation c d @ ?turn" by (rule turn_in_conversation) (simp add: d')
  moreover have "\<forall>m \<in> set (in_conversation c d). cm_created_at m < ch_now env" using assms(5) by blast
  ultimately obtain hd tl where rows: "newest plan 500 c d' = hd @ take 498 tl" and m: "mset hd = mset ?turn" "mset tl = mset (in_conversation c d)"
    using newest_turn [OF assms(1), of c d env d' ws query "shown_text frames" conf ev ids 500] by auto
  define view where "view m = (case message_view m of Inr v \<Rightarrow> v | Inl e \<Rightarrow> undefined)" for m
  have all: "take 498 tl = tl" using mset_eq_length [OF m(2)] assms(6) by simp
  have views: "message_view m = Inr (view m)" if "m \<in> set (hd @ tl)" for m
  proof -
    have "\<exists>v. message_view m = Inr v"
      using that assms(5) turn_views [OF ev, of env ws c query "shown_text frames" conf ids] mset_eq_setD [OF m(1)] mset_eq_setD [OF m(2)]
      by (auto simp: turn_def)
    then show ?thesis by (auto simp: view_def)
  qed
  have "res_map message_view (rev (hd @ tl)) = Inr (map view (rev (hd @ tl)))"
    by (rule res_map_Inr) (use views in auto)
  then have "fst (get_messages plan ws c 500 (open_session d')) = Inr (map view (rev tl) @ map view (rev hd))"
    using own by (auto simp: get_messages_def tx_query_def rows all)
  moreover have "mset (map view (rev hd)) = {#question_out env c query, answer_out env c (shown_text frames) conf ev#}"
    using turn_views [OF ev, of env ws c query "shown_text frames" conf ids] m(1)
    by (simp add: turn_def view_def)
  moreover have "mset (map mo_id (map view (rev tl))) = mset (map cm_id (in_conversation c d))"
  proof -
    have "map mo_id (map view (rev tl)) = map cm_id (rev tl)"
      using views message_view_id by auto
    then have "mset (map mo_id (map view (rev tl))) = image_mset cm_id (mset tl)" by (simp only: mset_map mset_rev)
    then show ?thesis by (simp only: m(2) mset_map)
  qed
  ultimately show ?thesis by blast
qed

subsection \<open>Rows of equal time\<close>

lemma newest_stable:
  assumes "\<forall>m \<in> set (in_conversation c d). cm_created_at m < ch_now env"
    and "in_conversation c d' = in_conversation c d @ turn env ws c query answer conf ev ids" and "2 \<le> limit"
  shows "\<exists>tl. newest (\<lambda>rows. rows) limit c d' = turn env ws c query answer conf ev ids @ tl"
proof -
  let ?t = "turn env ws c query answer conf ev ids"
  let ?s = "sort_key (\<lambda>m. - cm_created_at m) (in_conversation c d @ ?t)"
  have "\<exists>hd tl. ?s = hd @ tl \<and> mset hd = mset ?t \<and> mset tl = mset (in_conversation c d)"
    by (rule newest_first [where plan = "\<lambda>rows. rows"])
      (use assms(1) turn_times in \<open>simp_all add: turn_def question_row_def answer_row_def\<close>)
  then obtain hd tl where hd: "?s = hd @ tl" "mset hd = mset ?t" "mset tl = mset (in_conversation c d)" by blast
  have "filter (\<lambda>m. - cm_created_at m = - ch_now env) ?s = filter (\<lambda>m. - cm_created_at m = - ch_now env) (in_conversation c d @ ?t)"
    by (rule sort_key_stable)
  moreover have "filter (\<lambda>m. - cm_created_at m = - ch_now env) (in_conversation c d @ ?t) = ?t"
    using assms(1) by (auto simp: turn_def question_row_def answer_row_def filter_empty_conv)
  moreover have "filter (\<lambda>m. - cm_created_at m = - ch_now env) (hd @ tl) = hd"
  proof -
    have "\<forall>m \<in> set hd. cm_created_at m = ch_now env" using mset_eq_setD [OF hd(2)] turn_times by blast
    moreover have "\<forall>m \<in> set tl. cm_created_at m \<noteq> ch_now env" using mset_eq_setD [OF hd(3)] assms(1) by fastforce
    ultimately show ?thesis by (simp add: filter_id_conv filter_empty_conv)
  qed
  ultimately have "hd = ?t" by (simp only: hd(1))
  moreover obtain k where k: "nat (max 1 limit) = Suc (Suc k)"
    using assms(3) that [of "nat limit - 2"] by simp
  ultimately show ?thesis
    using hd(1) by (simp add: newest_def in_conversation_def [symmetric] assms(2) turn_def k)
qed

text \<open>
  The prompt can hold a conversation backwards: both rows of a turn get the time of their
  transaction, so \<open>ORDER BY created_at\<close> leaves their order open. With a database that returns rows of
  equal time in the order in which they were inserted, the next prompt in the conversation ends its history
  with the answer before its question.
\<close>

theorem history_swaps_turn:
  assumes "stream_answer env vs g ws user query cid gw d = (frames, gw', d')" and "Done conf ev (str_uuid c) \<in> set frames"
    and "\<And>conv. get_by cv_id c (conversations d) = Some conv \<Longrightarrow> cv_workspace_id conv = ws"
    and "\<And>m. m \<in> set (in_conversation c d) \<Longrightarrow> cm_created_at m < ch_now env"
    and "ch_history_up env'" and "ch_plan env' = (\<lambda>rows. rows)"
  shows "\<exists>earlier. load_history env' (Some c) ws d' = earlier @ [(''assistant'', shown_text frames), (''user'', query)]"
proof -
  obtain new ids where conv: "turn_conversation env ws (Some user) cid query c d new"
    and d': "d' = (touch_conversation (ch_clock env) c query (d\<lparr>conversations := conversations d @ new\<rparr>))
      \<lparr>chat_messages := chat_messages d @ turn env ws c query (shown_text frames) conf ev ids\<rparr>"
    by (rule stream_done [OF assms(1,2)])
  have "in_conversation c d' = in_conversation c d @ turn env ws c query (shown_text frames) conf ev ids"
    by (rule turn_in_conversation) (simp add: d')
  then obtain tl where "newest (\<lambda>rows. rows) 10 c d' = turn env ws c query (shown_text frames) conf ev ids @ tl"
    using newest_stable [of c d env d'] assms(4) by fastforce
  moreover have "(case get_by cv_id c (conversations d) of None \<Rightarrow> ws | Some old \<Rightarrow> cv_workspace_id old) = ws"
    using assms(3) by (cases "get_by cv_id c (conversations d)") auto
  ultimately show ?thesis
    using turn_owner [OF conv, of "ch_clock env"] assms(5,6)
    by (auto simp: d' load_history_def history_turns_def turn_def question_row_def answer_row_def)
qed

subsection \<open>Conversations of others\<close>

lemma load_history_own:
  "get_by cv_id c (conversations d) = Some conv \<Longrightarrow> cv_workspace_id conv = ws \<Longrightarrow> ch_history_up env \<Longrightarrow>
   load_history env (Some c) ws d = map (\<lambda>m. (cm_role m, cm_content m)) (rev (newest (ch_plan env) 10 c d))"
  by (simp add: load_history_def history_turns_def)

text \<open>
  A chat writes into any conversation it is told the id of: \<open>_persist\<close> does not look at the
  workspace, so a stream of workspace \<open>ws\<close> that ends with \<open>done\<close> in a conversation of another workspace
  puts its question and its answer into the history that this other workspace's next prompt there sends
  to the model.
\<close>

theorem foreign_conversation_written:
  assumes "stream_answer env vs g ws user query (Some c) gw d = (frames, gw', d')" and "Done conf ev s \<in> set frames"
    and "get_by cv_id c (conversations d) = Some conv" and "cv_workspace_id conv = victim"
    and "\<And>m. m \<in> set (in_conversation c d) \<Longrightarrow> cm_created_at m < ch_now env"
    and "ch_history_up env'" and "\<And>rows. mset (ch_plan env' rows) = mset rows"
  shows "{(''user'', query), (''assistant'', shown_text frames)} \<subseteq> set (load_history env' (Some c) victim d')"
proof -
  have "s = str_uuid c" 
    using assms(1)
  proof (cases rule: stream_cases)
    case (answered tokens pr gw1 c')
    then show ?thesis using assms(2) persist_Inr [OF answered(2)] by (auto simp: turn_conversation_def new_conversation_def)
  qed (use assms(2) in \<open>auto simp: failed_frame_def\<close>)
  then obtain new ids where conv: "turn_conversation env ws (Some user) (Some c) query c d new"
    and d': "d' = (touch_conversation (ch_clock env) c query (d\<lparr>conversations := conversations d @ new\<rparr>))
      \<lparr>chat_messages := chat_messages d @ turn env ws c query (shown_text frames) conf ev ids\<rparr>"
    using stream_done [OF assms(1)] assms(2) by metis
  have rows': "in_conversation c d' = in_conversation c d @ turn env ws c query (shown_text frames) conf ev ids"
    by (rule turn_in_conversation) (simp add: d')
  obtain hd tl where rows: "newest (ch_plan env') 10 c d' = hd @ tl" and m: "mset hd = mset (turn env ws c query (shown_text frames) conf ev ids)"
    using newest_turn [OF assms(7) _ rows', of 10] assms(5) by auto
  obtain conv' where conv': "get_by cv_id c (conversations d') = Some conv'" "cv_workspace_id conv' = victim"
    using turn_owner [OF conv, of "ch_clock env"] assms(3,4) by (auto simp: d')
  have "set (turn env ws c query (shown_text frames) conf ev ids) \<subseteq> set (newest (ch_plan env') 10 c d')"
    using mset_eq_setD [OF m] by (simp add: rows)
  then have "(\<lambda>m. (cm_role m, cm_content m)) ` set (turn env ws c query (shown_text frames) conf ev ids)
      \<subseteq> set (load_history env' (Some c) victim d')"
    unfolding load_history_own [OF conv' assms(6)] by auto
  then show ?thesis by (simp add: turn_def question_row_def answer_row_def)
qed

text \<open>
  A chat through an API key cannot begin a conversation: without a user the service makes one up, and
  the new conversation's foreign key on users fails; so the request fails and stores nothing, although
  the model was called and its use recorded.
\<close>

theorem api_key_chat_fails:
  assumes "p_user_id p = None" and "found_conversation (cq_conversation_id q) d = None"
    and "get_by u_id (ch_user_id env) (users d) = None" and "chat_rest env p q vs g gw d = (r, gw', d')"
  shows "(\<exists>e. r = Inl e) \<and> d' = d \<and>
    (\<forall>pr gw1 result. chat_query_ok q \<and> ch_store_up env \<and>
       prepare_answer env vs g (p_workspace_id p) (cq_question q) (cq_conversation_id q) d gw = (Inr pr, gw1) \<and>
       call_llm (ch_cfg env) (ch_provider env) (pr_messages pr) default_params (p_workspace_id p) ''chat''
         (pr_chat_model pr) None gw1 = (Inr result, gw') \<longrightarrow> r = Inl (integrity_error ''conversations''))"
proof -
  have fails: "own_session (persist env ws None (cq_conversation_id q) query answer conf ev ids) d =
      (Inl (if ch_store_up env then integrity_error ''conversations'' else PyError ''OperationalError'' []), d)"
    for ws query answer conf ev ids
    using assms(2,3) by (simp add: own_session_def persist_def find_or_create_def tx_simps add_conversation_def
        new_conversation_def Let_def)
  show ?thesis
    using assms(4) unfolding chat_rest_def answer_once_def assms(1) fails
    by (auto split: if_splits sum.splits prod.splits)
qed

subsection \<open>Evidence\<close>

text \<open>An evidence that quotes a stored point of the workspace, at or above the threshold.\<close>

definition own_evidence :: "(pyval \<Rightarrow> string) \<Rightarrow> point list \<Rightarrow> uuid \<Rightarrow> rat \<Rightarrow> evidence_chunk \<Rightarrow> bool" where
  "own_evidence rep ps ws thr e \<longleftrightarrow>
     (\<exists>h. own_hit ps ws thr h \<and> ev_chunk_id e = h_chunk_id h \<and> ev_similarity_score e = round_to 4 (h_score h) \<and>
        ev_document_id e = rc_document_id (chunk_from_hit rep h) \<and>
        ev_excerpt e = take 200 (rc_chunk_text (chunk_from_hit rep h)))"

lemma used_chunks: "assemble_context cfg enc rep chunks limit = (ctx, used, n, t) \<Longrightarrow> set used \<subseteq> set chunks"
proof -
  assume asm: "assemble_context cfg enc rep chunks limit = (ctx, used, n, t)"
  obtain parts where "assemble_loop enc rep (int_or limit (context_max_tokens cfg)) chunks ([], [], 0, False) = (parts, used, n, t)"
    using asm by (auto simp: assemble_context_def split: prod.splits)
  from assemble_loop_props [OF this] have "subseq used chunks" by simp
  then show ?thesis by (induction rule: list_emb.induct) auto
qed

lemma evidence_own:
  assumes "query_law (ch_qdrant env) pts" and "prepare_answer env vs g ws query cid d gw = (Inr pr, gw')"
    and "snd (snd (ws_settings env ws d)) = min_sim" and "e \<in> set (pr_evidence pr)"
  shows "own_evidence (ch_rep env) (pts (vs_server vs) (collection_name ws)) ws
    (case min_sim of None \<Rightarrow> chat_min_similarity (ch_cfg env) | Some m \<Rightarrow> m) e"
  using assms(2)
proof (rule prepare_Inr)
  fix model top_k min_sim' chunks ctx used n t
  assume ws: "ws_settings env ws d = (model, top_k, min_sim')"
    and ret: "fst (retrieve (ch_cfg env) (ch_provider env) (ch_qdrant env) (ch_rep env) (ch_graph_up env) ws query
      top_k min_sim' None True vs g gw) = Inr chunks"
    and asm: "assemble_context (ch_cfg env) (ch_tokenizer env) (ch_rep env) chunks None = (ctx, used, n, t)"
    and ev: "evidence_list used = Inr (pr_evidence pr)"
  let ?thr = "case min_sim of None \<Rightarrow> chat_min_similarity (ch_cfg env) | Some m \<Rightarrow> m"
  have same: "min_sim' = min_sim" using ws assms(3) by simp
  obtain c where c: "c \<in> set chunks" "evidence_of c = Inr e"
    using res_map_mem [OF ev [unfolded evidence_list_def] assms(4)] used_chunks [OF asm] by blast
  obtain v vectors hits where hits: "vs_search (ch_qdrant env) ws v (int_or top_k (chat_top_k (ch_cfg env))) (Some ?thr) None None vs = Inr hits"
    and chunks: "chunks = sort_desc rc_score (map (chunk_from_hit (ch_rep env))
      (hits @ extra_hits (ch_qdrant env) (ch_graph_up env) ws query v ?thr vs g True hits))"
    by (rule retrieve_cases [OF ret [unfolded same]])
  obtain h where "c = chunk_from_hit (ch_rep env) h" "own_hit (pts (vs_server vs) (collection_name ws)) ws ?thr h"
    using c(1) vs_search_own(1) [OF assms(1) hits] extra_hits_own(1) [OF assms(1)] unfolding chunks by auto
  then show ?thesis using evidence_ofD [OF c(2)] by (auto simp: own_evidence_def)
qed

text \<open>
  C33: What an answer shows as evidence is the workspace's own: if the vector database obeys its
  filters, every piece of evidence, streamed or not, quotes a stored point of the workspace's
  collection whose payload names the workspace, at or above the workspace's own threshold.
\<close>

theorem evidence_is_own:
  assumes "query_law (ch_qdrant env) pts"
    and "Done conf ev s \<in> set (fst (stream_answer env vs g ws user query cid gw d)) \<or>
      (\<exists>r. fst (answer_once env vs g ws query cid user' gw d) = Inr r \<and> ca_evidence r = ev)"
    and "e \<in> set ev"
  shows "own_evidence (ch_rep env) (pts (vs_server vs) (collection_name ws)) ws
    (case snd (snd (ws_settings env ws d)) of None \<Rightarrow> chat_min_similarity (ch_cfg env) | Some m \<Rightarrow> m) e"
proof -
  have "\<exists>pr gw1. prepare_answer env vs g ws query cid d gw = (Inr pr, gw1) \<and> ev = pr_evidence pr"
    using assms(2)
  proof
    assume "Done conf ev s \<in> set (fst (stream_answer env vs g ws user query cid gw d))"
    moreover obtain frames gw' d' where run: "stream_answer env vs g ws user query cid gw d = (frames, gw', d')" by (metis surj_pair)
    ultimately have "Done conf ev s \<in> set frames" by simp
    with run show ?thesis by (cases rule: stream_cases) (auto simp: failed_frame_def)
  next
    assume "\<exists>r. fst (answer_once env vs g ws query cid user' gw d) = Inr r \<and> ca_evidence r = ev"
    then show ?thesis by (auto simp: answer_once_def split: sum.splits prod.splits)
  qed
  then show ?thesis using evidence_own [OF assms(1)] assms(3) by blast
qed

subsection \<open>Witnesses\<close>

definition demo_chat_provider :: "nat provider" where
  "demo_chat_provider = demo_provider\<lparr>pv_stream := (\<lambda>m msgs t n.
     (([\<lparr>se_text = Some ''Hi'', se_usage = None\<rparr>, \<lparr>se_text = Some ''!'', se_usage = None\<rparr>], None), n + 1))\<rparr>"

definition demo_chat_env :: "(nat, string \<Rightarrow> point list) chat_env" where
  "demo_chat_env = \<lparr>ch_cfg = default_settings, ch_provider = demo_chat_provider, ch_qdrant = mem_qdrant,
     ch_tokenizer = None, ch_rep = no_rep, ch_graph_up = False, ch_settings_up = True, ch_history_up = True,
     ch_store_up = True, ch_plan = (\<lambda>rows. rows), ch_conv_id = 11, ch_user_id = 12, ch_question_id = 13,
     ch_answer_id = 14, ch_now = 100, ch_clock = 101\<rparr>"

definition demo_chat_db :: db where
  "demo_chat_db = empty_db\<lparr>workspaces := [demo_workspace 2, demo_workspace 3], users := [demo_user 9],
     conversations := [\<lparr>cv_id = 5, cv_workspace_id = 2, cv_user_id = 9, cv_title = ''t'', cv_updated_at = 0\<rparr>]\<rparr>"

definition demo_stream :: "uuid \<Rightarrow> frame list \<times> nat gateway \<times> db" where
  "demo_stream ws = stream_answer demo_chat_env (demo_vstore ws) empty_graph ws 9 ''q'' (Some 5)
     (demo_gateway\<lparr>gw_world := 1\<rparr>) demo_chat_db"

definition demo_evidence :: evidence_chunk where
  "demo_evidence = \<lparr>ev_chunk_id = ''c1'', ev_document_id = [], ev_document_name = ''a'', ev_source_type = ''manual_upload'',
     ev_section_ref = None, ev_excerpt = ''text'', ev_similarity_score = 1\<rparr>"

lemma demo_stream_frames:
  "fst (demo_stream 2) = [Token ''Hi'', Token ''!'', Done 1 [demo_evidence] (str_uuid 5)]"
  "fst (demo_stream 3) = [Token ''Hi'', Token ''!'', Done 1 [demo_evidence] (str_uuid 5)]"
  by code_simp+

lemma demo_chat_facts [simp]:
  "in_conversation c demo_chat_db = []" "chat_messages demo_chat_db = []"
  "get_by cv_id 5 (conversations demo_chat_db) = Some \<lparr>cv_id = 5, cv_workspace_id = 2, cv_user_id = 9, cv_title = ''t'', cv_updated_at = 0\<rparr>"
  "ch_plan demo_chat_env = (\<lambda>rows. rows)" "ch_history_up demo_chat_env"
  by (simp_all add: in_conversation_def demo_chat_db_def empty_db_def demo_chat_env_def)

lemma demo_run:
  assumes "ws = 2 \<or> ws = 3"
  obtains frames gw' d' where "stream_answer demo_chat_env (demo_vstore ws) empty_graph ws 9 ''q'' (Some 5)
      (demo_gateway\<lparr>gw_world := 1\<rparr>) demo_chat_db = (frames, gw', d')"
    "demo_stream ws = (frames, gw', d')" "Done 1 [demo_evidence] (str_uuid 5) \<in> set frames" "shown_text frames = ''Hi!''"
proof -
  obtain frames gw' d' where run: "demo_stream ws = (frames, gw', d')" by (metis surj_pair)
  have "frames = [Token ''Hi'', Token ''!'', Done 1 [demo_evidence] (str_uuid 5)]"
    using demo_stream_frames assms run by auto
  then show thesis using that [of frames gw' d'] run by (simp add: demo_stream_def shown_text_def)
qed

lemma stream_ends_once_witness:
  "\<exists>c ids. chat_messages (snd (snd (demo_stream 2))) = turn demo_chat_env 2 c ''q'' ''Hi!'' 1 [demo_evidence] ids"
proof -
  obtain frames gw' d' where run: "stream_answer demo_chat_env (demo_vstore 2) empty_graph 2 9 ''q'' (Some 5)
      (demo_gateway\<lparr>gw_world := 1\<rparr>) demo_chat_db = (frames, gw', d')" and demo: "demo_stream 2 = (frames, gw', d')"
    using demo_run [of 2] by blast
  have "frames = [Token ''Hi'', Token ''!'', Done 1 [demo_evidence] (str_uuid 5)]" using demo_stream_frames(1) demo by simp
  with stream_ends_once [OF run] demo show ?thesis
    by (auto simp: failed_frame_def append_eq_Cons_conv map_eq_Cons_conv Cons_eq_append_conv) blast
qed

lemma turn_read_back_witness:
  "\<exists>last2. fst (get_messages (\<lambda>rows. rows) 2 5 500 (open_session (snd (snd (demo_stream 2))))) = Inr last2 \<and>
     mset last2 = {#question_out demo_chat_env 5 ''q'', answer_out demo_chat_env 5 ''Hi!'' 1 [demo_evidence]#}"
proof (rule demo_run [of 2])
  fix frames gw' d'
  assume run: "stream_answer demo_chat_env (demo_vstore 2) empty_graph 2 9 ''q'' (Some 5)
      (demo_gateway\<lparr>gw_world := 1\<rparr>) demo_chat_db = (frames, gw', d')" and demo: "demo_stream 2 = (frames, gw', d')"
    and fin: "Done 1 [demo_evidence] (str_uuid 5) \<in> set frames" and shown: "shown_text frames = ''Hi!''"
  show ?thesis using turn_read_back [OF _ run fin, of "\<lambda>rows. rows"] by (auto simp: demo shown)
qed simp

lemma history_swaps_turn_witness:
  "load_history demo_chat_env (Some 5) 2 (snd (snd (demo_stream 2))) = [(''assistant'', ''Hi!''), (''user'', ''q'')]"
proof (rule demo_run [of 2])
  fix frames gw' d'
  assume run: "stream_answer demo_chat_env (demo_vstore 2) empty_graph 2 9 ''q'' (Some 5)
      (demo_gateway\<lparr>gw_world := 1\<rparr>) demo_chat_db = (frames, gw', d')" and demo: "demo_stream 2 = (frames, gw', d')"
    and fin: "Done 1 [demo_evidence] (str_uuid 5) \<in> set frames" and shown: "shown_text frames = ''Hi!''"
  obtain earlier where "load_history demo_chat_env (Some 5) 2 d' = earlier @ [(''assistant'', ''Hi!''), (''user'', ''q'')]"
    using history_swaps_turn [OF run fin, of demo_chat_env] by (auto simp: shown)
  moreover have "length (load_history demo_chat_env (Some 5) 2 (snd (snd (demo_stream 2)))) = 2" by code_simp
  ultimately show ?thesis by (simp add: demo)
qed simp

lemma foreign_conversation_written_witness:
  "(''user'', ''q'') \<in> set (load_history demo_chat_env (Some 5) 2 (snd (snd (demo_stream 3))))"
proof (rule demo_run [of 3])
  fix frames gw' d'
  assume run: "stream_answer demo_chat_env (demo_vstore 3) empty_graph 3 9 ''q'' (Some 5)
      (demo_gateway\<lparr>gw_world := 1\<rparr>) demo_chat_db = (frames, gw', d')" and demo: "demo_stream 3 = (frames, gw', d')"
    and fin: "Done 1 [demo_evidence] (str_uuid 5) \<in> set frames"
  show ?thesis using foreign_conversation_written [OF run fin, of _ 2 demo_chat_env] by (simp add: demo)
qed simp

definition demo_api_principal :: principal where
  "demo_api_principal = \<lparr>p_workspace_id = 2, p_user_id = None, p_role = PNone, p_api_key_id = Some 4, p_scope = Some ''read_only''\<rparr>"

lemma api_key_chat_fails_witness:
  "let (r, gw', d') = chat_rest demo_chat_env demo_api_principal \<lparr>cq_question = ''q'', cq_conversation_id = None\<rparr>
      (demo_vstore 2) empty_graph (demo_gateway\<lparr>gw_world := 1\<rparr>) demo_chat_db
   in (\<exists>e. r = Inl e) \<and> d' = demo_chat_db \<and> length (gw_usage gw') = 1"
proof -
  let ?run = "chat_rest demo_chat_env demo_api_principal \<lparr>cq_question = ''q'', cq_conversation_id = None\<rparr>
      (demo_vstore 2) empty_graph (demo_gateway\<lparr>gw_world := 1\<rparr>) demo_chat_db"
  obtain r gw' d' where run: "?run = (r, gw', d')" by (metis surj_pair)
  have "length (gw_usage (fst (snd ?run))) = 1" by code_simp
  moreover have "(\<exists>e. r = Inl e) \<and> d' = demo_chat_db"
    using api_key_chat_fails [OF _ _ _ run]
    by (simp add: demo_api_principal_def found_conversation_def demo_chat_env_def demo_chat_db_def demo_user_def new_user_def)
  ultimately show ?thesis unfolding run Let_def prod.case by (simp add: run)
qed

lemma evidence_is_own_witness:
  "own_evidence no_rep (mem_points (vs_server (demo_vstore 2)) (collection_name 2)) 2 (1 / 2) demo_evidence"
proof -
  have "ch_qdrant demo_chat_env = mem_qdrant" by (simp add: demo_chat_env_def)
  then have law: "query_law (ch_qdrant demo_chat_env) mem_points" using mem_query_law by simp
  have "Done 1 [demo_evidence] (str_uuid 5) \<in> set (fst (stream_answer demo_chat_env (demo_vstore 2) empty_graph 2 9 ''q'' (Some 5)
      (demo_gateway\<lparr>gw_world := 1\<rparr>) demo_chat_db))"
    using demo_stream_frames(1) by (simp add: demo_stream_def)
  from evidence_is_own [OF law disjI1 [OF this], of demo_evidence] show ?thesis
    by (simp add: demo_chat_env_def demo_chat_db_def ws_settings_def demo_workspace_def empty_db_def)
qed

end
