(* ===== verification/Ingest_Outcomes.thy ===== *)
theory Ingest_Outcomes
  imports Ingestion
begin

text \<open>
  How an ingestion ends: a run whose services answer completes the document, a section reference that
  does not fit its column leaves it stuck, and the Celery task (\<^verbatim>\<open>ingestion/tasks.py\<close>) with its
  retries. The runs here are alone with the database.
\<close>

subsection \<open>Operations that reach a state\<close>

text \<open>Total correctness of a session operation: from \<open>P\<close> it returns, in a state with \<open>Q\<close>.\<close>

definition tx_reaches :: "('d session \<Rightarrow> bool) \<Rightarrow> ('d, 'e, 'a) tx \<Rightarrow> ('a \<Rightarrow> 'd session \<Rightarrow> bool) \<Rightarrow> bool" where
  "tx_reaches P m Q \<longleftrightarrow> (\<forall>s. P s \<longrightarrow> (\<exists>x s'. m s = (Inr x, s') \<and> Q x s'))"

lemma reaches_bind: "tx_reaches P m Q \<Longrightarrow> (\<And>x. tx_reaches (Q x) (f x) R) \<Longrightarrow> tx_reaches P (tx_bind m f) R"
  unfolding tx_reaches_def by (metis tx_bind_cases [of m _ f] sum.distinct(1) old.prod.inject sum.inject(2))

lemma reaches_seq: "tx_reaches P m (\<lambda>_. Q) \<Longrightarrow> tx_reaches Q k R \<Longrightarrow> tx_reaches P (tx_seq m k) R"
  unfolding tx_seq_def by (rule reaches_bind)

lemma reaches_weaken: "tx_reaches P m Q \<Longrightarrow> (\<And>x s. Q x s \<Longrightarrow> R x s) \<Longrightarrow> tx_reaches P m R"
  unfolding tx_reaches_def by metis

lemma reaches_pre: "tx_reaches P m Q \<Longrightarrow> (\<And>s. P' s \<Longrightarrow> P s) \<Longrightarrow> tx_reaches P' m Q"
  unfolding tx_reaches_def by metis

lemma reaches_return: "(\<And>s. P s \<Longrightarrow> Q x s) \<Longrightarrow> tx_reaches P (tx_return x) Q"
  by (simp add: tx_reaches_def tx_return_def)

lemma reaches_fact: "(A \<Longrightarrow> tx_reaches P m Q) \<Longrightarrow> tx_reaches (\<lambda>s. A \<and> P s) m Q"
  by (simp add: tx_reaches_def)

lemma reaches_ex: "(\<And>x. tx_reaches (P x) m Q) \<Longrightarrow> tx_reaches (\<lambda>s. \<exists>x. P x s) m Q"
  unfolding tx_reaches_def by blast

subsection \<open>The worker on its document\<close>

text \<open>
  The worker holds \<open>doc\<close> and \<open>job\<close>, the database the rows it last saw, nothing is pending, and the
  chunk rows are \<open>cs\<close>.
\<close>

definition on_doc ::
    "'s \<Rightarrow> document \<Rightarrow> ingestion_job \<Rightarrow> document_chunk list \<Rightarrow> document \<Rightarrow> ingestion_job \<Rightarrow>
     (db \<times> ('q, 'w, 's) worker) session \<Rightarrow> bool" where
  "on_doc st doc0 job0 cs doc job s \<longleftrightarrow> (case working s of (d, w) \<Rightarrow>
     wk_storage w = st \<and> \<not> wk_broken w \<and> wk_new_chunks w = [] \<and> wk_new_errors w = [] \<and>
     wk_doc w = doc \<and> wk_job w = job \<and> wk_doc_saved w = doc0 \<and> wk_job_saved w = job0 \<and>
     get_by d_id (d_id doc) (documents d) = Some doc0 \<and> get_by j_id (j_id job) (ingestion_jobs d) = Some job0 \<and>
     document_chunks d = cs)"

text \<open>What was changed in memory is what a flush writes.\<close>

definition writable :: "document \<Rightarrow> document \<Rightarrow> bool" where
  "writable doc0 doc \<longleftrightarrow> write_doc doc0 doc doc0 = doc \<and> d_id doc0 = d_id doc"

definition job_writable :: "ingestion_job \<Rightarrow> ingestion_job \<Rightarrow> bool" where
  "job_writable job0 job \<longleftrightarrow> write_job job0 job job0 = job \<and> j_id job0 = j_id job"

lemma flush_on_doc:
  assumes "on_doc st doc0 job0 cs doc job s" and "writable doc0 doc" and "job_writable job0 job"
  shows "\<exists>d d' w. working s = (d, w) \<and> flush_db w d = Inr d' \<and>
    on_doc st doc job cs doc job (s\<lparr>working := (d', saved w)\<rparr>) \<and> document_chunks d' = document_chunks d"
proof -
  obtain d w where s: "working s = (d, w)" by fastforce
  let ?docs = "set_rows (\<lambda>r. d_id r = d_id doc) (write_doc doc0 doc) (documents d)"
  let ?jobs = "set_rows (\<lambda>r. j_id r = j_id job) (write_job job0 job) (ingestion_jobs d)"
  have w: "wk_storage w = st" "\<not> wk_broken w" "wk_new_chunks w = []" "wk_new_errors w = []" "wk_doc w = doc"
    "wk_job w = job" "wk_doc_saved w = doc0" "wk_job_saved w = job0"
    and rows: "get_by d_id (d_id doc) (documents d) = Some doc0" "get_by j_id (j_id job) (ingestion_jobs d) = Some job0"
    and cs: "document_chunks d = cs"
    using assms(1) by (simp_all add: on_doc_def s)
  define d1 where "d1 = (if doc = doc0 then d else d\<lparr>documents := ?docs\<rparr>)"
  define d2 where "d2 = (if job = job0 then d1 else d1\<lparr>ingestion_jobs := ?jobs\<rparr>)"
  have "get_by d_id (d_id doc) ?docs = Some doc"
    using get_by_set_rows [of d_id "write_doc doc0 doc" "d_id doc" "\<lambda>r. d_id r = d_id doc" "documents d"] rows(1)
      assms(2) get_by_Some [OF rows(1)] by (simp add: writable_def)
  then have d1: "get_by d_id (d_id doc) (documents d1) = Some doc" "ingestion_jobs d1 = ingestion_jobs d"
    "flush_doc doc0 doc d = Inr d1" "document_chunks d1 = document_chunks d"
    using rows(1) by (auto simp: d1_def flush_doc_def)
  have "get_by j_id (j_id job) ?jobs = Some job"
    using get_by_set_rows [of j_id "write_job job0 job" "j_id job" "\<lambda>r. j_id r = j_id job" "ingestion_jobs d"] rows(2)
      assms(3) get_by_Some [OF rows(2)] by (simp add: job_writable_def)
  then have d2: "get_by j_id (j_id job) (ingestion_jobs d2) = Some job" "documents d2 = documents d1"
    "flush_job job0 job d1 = Inr d2" "document_chunks d2 = document_chunks d"
    using rows(2) d1 by (auto simp: d2_def flush_job_def)
  have "flush_db w d = Inr d2"
    using d1 d2 by (simp add: flush_db_def w insert_chunks_def insert_errors_def)
  moreover have "on_doc st doc job cs doc job (s\<lparr>working := (d2, saved w)\<rparr>)"
    using d1 d2 cs w by (simp add: on_doc_def saved_def)
  ultimately show ?thesis using s d2(4) by blast
qed

definition at_doc ::
    "'s \<Rightarrow> document_chunk list \<Rightarrow> document \<Rightarrow> ingestion_job \<Rightarrow> (db \<times> ('q, 'w, 's) worker) session \<Rightarrow> bool" where
  "at_doc st cs doc job s \<longleftrightarrow> on_doc st doc job cs doc job s \<and> committed s = working s"

lemma reaches_flush:
  fixes st :: 's
  shows "writable doc0 doc \<Longrightarrow> job_writable job0 job \<Longrightarrow>
   tx_reaches (on_doc st doc0 job0 cs doc job) flush_session (\<lambda>_. on_doc st doc job cs doc job)"
  unfolding tx_reaches_def
proof (intro allI impI)
  fix s :: "(db \<times> ('q, 'w, 's) worker) session"
  assume w: "writable doc0 doc" "job_writable job0 job" and s: "on_doc st doc0 job0 cs doc job s"
  obtain d d' w where fl: "working s = (d, w)" "flush_db w d = Inr d'"
    "on_doc st doc job cs doc job (s\<lparr>working := (d', saved w)\<rparr>)"
    using flush_on_doc [OF s w] by blast
  have "\<not> wk_broken w" using s fl(1) by (simp add: on_doc_def)
  then have "flush_session s = (Inr (), s\<lparr>working := (d', saved w)\<rparr>)"
    using fl by (simp add: flush_session_def saved_def)
  then show "\<exists>x s'. flush_session s = (Inr x, s') \<and> on_doc st doc job cs doc job s'" using fl(3) by blast
qed

lemma reaches_commit:
  "writable doc0 doc \<Longrightarrow> job_writable job0 job \<Longrightarrow>
   tx_reaches (on_doc st doc0 job0 cs doc job) (commit_with (\<lambda>d. d)) (\<lambda>_. at_doc st cs doc job)"
  unfolding commit_with_def
  by (rule reaches_seq [OF reaches_flush], assumption, assumption)
    (simp add: tx_reaches_def tx_simps at_doc_def on_doc_def case_prod_unfold)

lemma reaches_doc: "tx_reaches (on_doc st doc0 job0 cs doc job) the_doc (\<lambda>r s. r = doc \<and> on_doc st doc0 job0 cs doc job s)"
  by (simp add: tx_reaches_def the_doc_def tx_read_def on_doc_def case_prod_unfold)

lemma reaches_set:
  "d_id (f doc) = d_id doc \<Longrightarrow>
     tx_reaches (on_doc st doc0 job0 cs doc job) (set_doc f) (\<lambda>_. on_doc st doc0 job0 cs (f doc) job)"
  "j_id (h job) = j_id job \<Longrightarrow>
     tx_reaches (on_doc st doc0 job0 cs doc job) (set_job h) (\<lambda>_. on_doc st doc0 job0 cs doc (h job))"
  "tx_reaches (on_doc st doc0 job0 cs doc job) (set_current c) (\<lambda>_. on_doc st doc0 job0 cs doc job)"
  by (simp_all add: tx_reaches_def set_doc_def set_job_def set_current_def tx_simps on_doc_def case_prod_unfold)

lemma reaches_service:
  "tx_reaches (on_doc st doc0 job0 cs doc job) (on_gateway c) (\<lambda>r s. (\<exists>g. r = fst (c g)) \<and> on_doc st doc0 job0 cs doc job s)"
  "tx_reaches (on_doc st doc0 job0 cs doc job) (on_vectors v) (\<lambda>r s. (\<exists>x. r = fst (v x)) \<and> on_doc st doc0 job0 cs doc job s)"
  "tx_reaches (on_doc st doc0 job0 cs doc job) (on_graph g) (\<lambda>_. on_doc st doc0 job0 cs doc job)"
  unfolding tx_reaches_def
  by (auto simp: on_gateway_def on_vectors_def on_graph_def tx_simps on_doc_def case_prod_unfold)

lemma reaches_lift: "r = Inr x \<Longrightarrow> tx_reaches P (tx_lift r) (\<lambda>y s. y = x \<and> P s)"
  by (simp add: tx_reaches_def tx_simps)

lemma at_on: "at_doc st cs doc job s \<Longrightarrow> on_doc st doc job cs doc job s"
  by (simp add: at_doc_def)

lemma reaches_status:
  "tx_reaches (on_doc st doc job cs doc job) (set_status (\<lambda>d. d) status name n)
     (\<lambda>_. at_doc st cs (doc\<lparr>d_ingestion_status := status_value status, d_current_step := Some name\<rparr>)
        (job\<lparr>j_status := status_value status, j_current_step := name, j_steps_completed := n\<rparr>))"
  unfolding set_status_def
  by (rule reaches_seq [OF reaches_set(1)], simp, rule reaches_seq [OF reaches_set(2)], simp, rule reaches_commit)
    (simp_all add: writable_def job_writable_def write_doc_def write_job_def changed_def)

subsection \<open>Stages of a run\<close>

text \<open>What identifies the document, and a stage: the worker holds it, with \<open>K\<close> of it and its job.\<close>

definition alike :: "document \<Rightarrow> document \<Rightarrow> bool" where
  "alike doc r \<longleftrightarrow> d_id r = d_id doc \<and> d_workspace_id r = d_workspace_id doc \<and> d_source_type r = d_source_type doc \<and>
     d_storage_path r = d_storage_path doc \<and> d_file_type r = d_file_type doc"

definition stage ::
    "'s \<Rightarrow> document_chunk list \<Rightarrow> document \<Rightarrow> uuid \<Rightarrow> (document \<Rightarrow> ingestion_job \<Rightarrow> bool) \<Rightarrow>
     (db \<times> ('q, 'w, 's) worker) session \<Rightarrow> bool" where
  "stage st cs doc jid K s \<longleftrightarrow> (\<exists>r0 j0 r j. on_doc st r0 j0 cs r j s \<and> writable r0 r \<and> job_writable j0 j \<and>
     alike doc r \<and> j_id j = jid \<and> K r j)"

lemma writable_trans: "writable r0 r \<Longrightarrow> writable r q \<Longrightarrow> writable r0 q"
  by (cases r0; cases r; cases q) (auto simp: writable_def write_doc_def changed_def split: if_splits)

lemma job_writable_trans: "job_writable j0 j \<Longrightarrow> job_writable j q \<Longrightarrow> job_writable j0 q"
  by (cases j0; cases j; cases q) (auto simp: job_writable_def write_job_def changed_def split: if_splits)

lemma writable_refl [simp]: "writable r r" "job_writable j j"
  by (simp_all add: writable_def job_writable_def write_doc_def write_job_def changed_def)

lemma stageI:
  "(\<And>r0 j0 r j. writable r0 r \<Longrightarrow> job_writable j0 j \<Longrightarrow> alike doc r \<Longrightarrow> j_id j = jid \<Longrightarrow> K r j \<Longrightarrow>
      tx_reaches (on_doc st r0 j0 cs r j) m Q) \<Longrightarrow> tx_reaches (stage st cs doc jid K) m Q"
  unfolding tx_reaches_def stage_def by blast

lemma stage_mem:
  "on_doc st r0 j0 cs r j s \<Longrightarrow> writable r0 r \<Longrightarrow> job_writable j0 j \<Longrightarrow> alike doc r \<Longrightarrow> j_id j = jid \<Longrightarrow> K r j \<Longrightarrow>
   stage st cs doc jid K s"
  unfolding stage_def by blast

lemma stage_set:
  assumes "\<And>r. writable r (f r)" and "\<And>r. alike r (f r)" and "\<And>r j. K r j \<Longrightarrow> K' (f r) j"
  shows "tx_reaches (stage st cs doc jid K) (set_doc f) (\<lambda>_. stage st cs doc jid K')"
proof (rule stageI, rule reaches_weaken [OF reaches_set(1)])
  fix r0 j0 r j and x :: unit and s
  assume w: "writable r0 r" "job_writable j0 j" "alike doc r" "j_id j = jid" "K r j" "on_doc st r0 j0 cs (f r) j s"
  have "writable r0 (f r)" using writable_trans [OF w(1) assms(1)] .
  moreover have "alike doc (f r)" using w(3) assms(2) [of r] by (simp add: alike_def)
  ultimately show "stage st cs doc jid K' s" using w assms(3) [OF w(5)] unfolding stage_def by blast
qed (use assms(2) in \<open>simp add: alike_def\<close>)

lemma stage_set_job:
  assumes "\<And>j. job_writable j (h j)" and "\<And>r j. K r j \<Longrightarrow> K' r (h j)"
  shows "tx_reaches (stage st cs doc jid K) (set_job h) (\<lambda>_. stage st cs doc jid K')"
proof (rule stageI, rule reaches_weaken [OF reaches_set(2)])
  fix r0 j0 r j and x :: unit and s
  assume w: "writable r0 r" "job_writable j0 j" "alike doc r" "j_id j = jid" "K r j" "on_doc st r0 j0 cs r (h j) s"
  have "job_writable j0 (h j)" using job_writable_trans [OF w(2) assms(1)] .
  moreover have "j_id (h j) = jid" using assms(1) [of j] w(4) by (simp add: job_writable_def)
  ultimately show "stage st cs doc jid K' s" using w assms(2) [OF w(5)] unfolding stage_def by blast
qed (use assms(1) in \<open>simp add: job_writable_def\<close>)

definition reached ::
    "'s \<Rightarrow> document_chunk list \<Rightarrow> document \<Rightarrow> uuid \<Rightarrow> (document \<Rightarrow> ingestion_job \<Rightarrow> bool) \<Rightarrow>
     (db \<times> ('q, 'w, 's) worker) session \<Rightarrow> bool" where
  "reached st cs doc jid K s \<longleftrightarrow> (\<exists>r j. at_doc st cs r j s \<and> alike doc r \<and> j_id j = jid \<and> K r j)"

lemma reached_stage: "reached st cs doc jid K s \<Longrightarrow> stage st cs doc jid K s"
  unfolding reached_def by (elim exE conjE) (rule stage_mem [OF at_on], simp_all)

lemma stage_committed:
  "tx_reaches (stage st cs doc jid K) (commit_with (\<lambda>d. d)) (\<lambda>_. reached st cs doc jid K)"
  by (rule stageI, rule reaches_weaken [OF reaches_commit]) (auto simp: reached_def)

lemma stage_commit:
  "tx_reaches (stage st cs doc jid K) (commit_with (\<lambda>d. d)) (\<lambda>_. stage st cs doc jid K)"
  by (rule reaches_weaken [OF stage_committed reached_stage])

lemma stage_status:
  assumes "\<And>r j. K r j \<Longrightarrow> K' (r\<lparr>d_ingestion_status := status_value status, d_current_step := Some name\<rparr>)
     (j\<lparr>j_status := status_value status, j_current_step := name, j_steps_completed := n\<rparr>)"
  shows "tx_reaches (stage st cs doc jid K) (set_status (\<lambda>d. d) status name n) (\<lambda>_. stage st cs doc jid K')"
proof -
  have doc: "tx_reaches (stage st cs doc jid K) (set_doc (\<lambda>r. r\<lparr>d_ingestion_status := status_value status, d_current_step := Some name\<rparr>))
     (\<lambda>_. stage st cs doc jid (\<lambda>r j. \<exists>r0. r = r0\<lparr>d_ingestion_status := status_value status, d_current_step := Some name\<rparr> \<and> K r0 j))"
    by (rule stage_set) (auto simp: writable_def write_doc_def changed_def alike_def)
  show ?thesis
    unfolding set_status_def
    by (rule reaches_seq [OF doc], rule reaches_seq [OF stage_set_job stage_commit])
      (auto simp: job_writable_def write_job_def changed_def intro: assms)
qed

lemma stage_current: "tx_reaches (stage st cs doc jid K) (set_current c) (\<lambda>_. stage st cs doc jid K)"
  by (rule stageI, rule reaches_weaken [OF reaches_set(3)]) (rule stage_mem)

lemma stage_doc:
  "(\<And>r. alike doc r \<Longrightarrow> tx_reaches (stage st cs doc jid (\<lambda>q j. q = r \<and> K q j)) (f r) Q) \<Longrightarrow>
   tx_reaches (stage st cs doc jid K) (tx_bind the_doc f) Q"
proof (rule stageI, rule reaches_bind [OF reaches_doc])
  fix r0 j0 r j x
  assume f: "\<And>r. alike doc r \<Longrightarrow> tx_reaches (stage st cs doc jid (\<lambda>q j. q = r \<and> K q j)) (f r) Q"
    and w: "writable r0 r" "job_writable j0 j" "alike doc r" "j_id j = jid" "K r j"
  show "tx_reaches (\<lambda>s. x = r \<and> on_doc st r0 j0 cs r j s) (f x) Q"
  proof (rule reaches_fact)
    assume x: "x = r"
    have "stage st cs doc jid (\<lambda>q j. q = r \<and> K q j) s" if "on_doc st r0 j0 cs r j s" for s
      by (rule stage_mem [OF that w(1-4)]) (simp add: w(5))
    then show "tx_reaches (on_doc st r0 j0 cs r j) (f x) Q"
      unfolding x by (rule reaches_pre [OF f [OF w(3)]])
  qed
qed

lemma stage_service:
  "tx_reaches (stage st cs doc jid K) (on_gateway c) (\<lambda>r s. (\<exists>g. r = fst (c g)) \<and> stage st cs doc jid K s)"
  "tx_reaches (stage st cs doc jid K) (on_vectors v) (\<lambda>r s. (\<exists>x. r = fst (v x)) \<and> stage st cs doc jid K s)"
  "tx_reaches (stage st cs doc jid K) (on_graph g) (\<lambda>_. stage st cs doc jid K)"
  by (rule stageI, rule reaches_weaken [OF reaches_service(1)], erule conjE, erule conjI, erule stage_mem, assumption+)
    (rule stageI, rule reaches_weaken [OF reaches_service(2)], erule conjE, erule conjI, erule stage_mem, assumption+,
     rule stageI, rule reaches_weaken [OF reaches_service(3)], erule stage_mem, assumption+)

lemma stage_mono: "(\<And>r j. K r j \<Longrightarrow> K' r j) \<Longrightarrow> stage st cs doc jid K s \<Longrightarrow> stage st cs doc jid K' s"
  unfolding stage_def by blast

subsection \<open>The steps of a run whose services answer\<close>

lemma alone_fields [simp]:
  "ie_others (alone env) n = (\<lambda>d. d)" "ie_cfg (alone env) = ie_cfg env" "ie_provider (alone env) = ie_provider env"
  "ie_storage (alone env) = ie_storage env" "ie_decode (alone env) = ie_decode env"
  "ie_docling (alone env) = ie_docling env" "ie_tokenizer (alone env) = ie_tokenizer env"
  "ie_sha256 (alone env) = ie_sha256 env"
  by (simp_all add: alone_def)

text \<open>The bytes that are stored for a document, what they parse to, and its digest.\<close>

definition stored :: "('q, 'w, 's) ingest_env \<Rightarrow> 's \<Rightarrow> document \<Rightarrow> exn + bytes" where
  "stored env st doc =
     (case d_storage_path doc of None \<Rightarrow> Inr []
      | Some p \<Rightarrow> (if p = [] then Inr [] else sa_get_bytes (ie_storage env) p st))"

definition parsed_as :: "('q, 'w, 's) ingest_env \<Rightarrow> bytes \<Rightarrow> document \<Rightarrow> exn + parsed_document" where
  "parsed_as env data doc =
     (if data = [] then Inr default_parsed
      else parse_document (ie_decode env) (ie_docling env) data (d_file_type doc))"

definition digest :: "('q, 'w, 's) ingest_env \<Rightarrow> bytes \<Rightarrow> string option" where
  "digest env data = (if data \<noteq> [] then Some (concat (map hex_byte (ie_sha256 env data))) else None)"

lemma stage_forget: "stage st cs doc jid K s \<Longrightarrow> stage st cs doc jid (\<lambda>_ _. True) s"
  by (rule stage_mono) simp

lemma stage_result:
  "tx_reaches P m (\<lambda>r s. r = x \<and> stage st cs doc jid K s) \<Longrightarrow>
   tx_reaches P m (\<lambda>r s. r = x \<and> stage st cs doc jid (\<lambda>_ _. True) s)"
  by (erule reaches_weaken) (auto intro: stage_forget)

lemma stage_status_any:
  "tx_reaches (stage st cs doc jid (\<lambda>_ _. True)) (set_status (\<lambda>d. d) status name n)
     (\<lambda>_. stage st cs doc jid (\<lambda>_ _. True))"
  by (rule stage_status) simp

lemma stage_query:
  fixes st :: 's and q :: "db \<times> ('q, 'w, 's) worker \<Rightarrow> exn + 'a"
  shows "(\<And>d w. wk_storage w = st \<Longrightarrow> q (d, w) = Inr x) \<Longrightarrow>
   tx_reaches (stage st cs doc jid K) (tx_query q) (\<lambda>r s. r = x \<and> stage st cs doc jid K s)"
  unfolding tx_reaches_def
proof (intro allI impI)
  fix s :: "(db \<times> ('q, 'w, 's) worker) session"
  assume q: "\<And>d w. wk_storage w = st \<Longrightarrow> q (d, w) = Inr x" and s: "stage st cs doc jid K s"
  obtain d w where dw: "working s = (d, w)" by fastforce
  have "wk_storage w = st" using s by (auto simp: stage_def on_doc_def dw)
  then show "\<exists>y s'. tx_query q s = (Inr y, s') \<and> y = x \<and> stage st cs doc jid K s'"
    using q [of w d] s by (simp add: tx_query_def dw)
qed

lemma reaches_retrieve:
  assumes "stored env st doc = Inr data"
  shows "tx_reaches (stage st cs doc jid (\<lambda>_ _. True)) (step_retrieve (alone env))
    (\<lambda>r s. r = data \<and> stage st cs doc jid (\<lambda>_ _. True) s)"
  unfolding step_retrieve_def alone_fields
proof (rule reaches_seq [OF stage_status_any], rule stage_doc)
  fix r assume r: "alike doc r"
  have path: "d_storage_path r = d_storage_path doc" using r by (simp add: alike_def)
  let ?K = "\<lambda>q (j :: ingestion_job). q = r \<and> True"
  show "tx_reaches (stage st cs doc jid ?K)
      (case d_storage_path r of None \<Rightarrow> tx_return []
       | Some p \<Rightarrow> (if p = [] then tx_return []
                    else tx_query (\<lambda>(d, w). sa_get_bytes (ie_storage env) p (wk_storage w))))
      (\<lambda>r s. r = data \<and> stage st cs doc jid (\<lambda>_ _. True) s)"
  proof (cases "data = [] \<and> (d_storage_path r = None \<or> d_storage_path r = Some [])")
    case True
    then show ?thesis
      by (auto intro!: reaches_return elim: stage_forget)
  next
    case False
    then obtain p where p: "d_storage_path r = Some p" "p \<noteq> []" "sa_get_bytes (ie_storage env) p st = Inr data"
      using assms by (auto simp: stored_def path split: option.splits if_splits)
    have "tx_reaches (stage st cs doc jid ?K) (tx_query (\<lambda>(d, w). sa_get_bytes (ie_storage env) p (wk_storage w)))
       (\<lambda>r s. r = data \<and> stage st cs doc jid ?K s)"
      by (rule stage_query) (simp add: p)
    from stage_result [OF this] show ?thesis using p(1,2) by simp
  qed
qed

lemma reaches_parse:
  assumes "parsed_as env data doc = Inr parsed"
  shows "tx_reaches (stage st cs doc jid (\<lambda>_ _. True)) (step_parse (alone env) data)
    (\<lambda>r s. r = parsed \<and> stage st cs doc jid (\<lambda>_ _. True) s)"
  unfolding step_parse_def alone_fields
proof (rule reaches_seq [OF stage_current], rule reaches_seq [OF stage_status_any], rule stage_doc)
  fix r assume r: "alike doc r"
  let ?K = "\<lambda>q (j :: ingestion_job). q = r \<and> True"
  have type: "d_file_type r = d_file_type doc" using r by (simp add: alike_def)
  show "tx_reaches (stage st cs doc jid ?K)
     (if data \<noteq> [] then tx_lift (parse_document (ie_decode env) (ie_docling env) data (d_file_type r))
      else tx_return default_parsed) (\<lambda>r s. r = parsed \<and> stage st cs doc jid (\<lambda>_ _. True) s)"
  proof (cases "data = []")
    case True
    then show ?thesis using assms
      by (auto simp: parsed_as_def intro!: reaches_return elim: stage_forget)
  next
    case False
    then have "parse_document (ie_decode env) (ie_docling env) data (d_file_type r) = Inr parsed"
      using assms by (simp add: parsed_as_def type)
    from reaches_lift [OF this, of "stage st cs doc jid ?K"]
    show ?thesis using stage_result False by fastforce
  qed
qed

lemma stage_set_any:
  "(\<And>r. writable r (f r)) \<Longrightarrow> (\<And>r. alike r (f r)) \<Longrightarrow>
   tx_reaches (stage st cs doc jid K) (set_doc f) (\<lambda>_. stage st cs doc jid (\<lambda>_ _. True))"
  by (rule stage_set) simp_all

lemma reaches_tags:
  "tx_reaches (stage st cs doc jid (\<lambda>_ _. True)) (step_tags (alone env) parsed) (\<lambda>_. stage st cs doc jid (\<lambda>_ _. True))"
  unfolding step_tags_def alone_fields
proof (rule reaches_seq [OF stage_current], rule reaches_seq [OF stage_status_any], rule stage_doc)
  fix r assume "alike doc r"
  let ?K = "\<lambda>q (j :: ingestion_job). q = r \<and> True"
  have tags: "tx_reaches (stage st cs doc jid ?K)
      (tx_bind (on_gateway gw) (\<lambda>tags. tx_seq (set_doc (\<lambda>r. r\<lparr>d_tags := tags\<rparr>)) (commit_with (\<lambda>d. d))))
      (\<lambda>_. stage st cs doc jid (\<lambda>_ _. True))" for gw :: "'b gateway \<Rightarrow> string list \<times> 'b gateway"
    by (rule reaches_bind [OF stage_service(1)], rule reaches_fact, rule reaches_seq [OF stage_set_any stage_commit])
      (simp_all add: writable_def write_doc_def changed_def alike_def)
  show "tx_reaches (stage st cs doc jid ?K)
     (if d_tags r = []
      then tx_bind (on_gateway (generate_tags (ie_cfg env) (ie_provider env) (ie_json_loads (alone env)) (ie_rep (alone env))
                      (pd_text parsed) (d_workspace_id r))) (\<lambda>tags.
           tx_seq (set_doc (\<lambda>r. r\<lparr>d_tags := tags\<rparr>)) (commit_with (\<lambda>d. d)))
      else tx_return ()) (\<lambda>_. stage st cs doc jid (\<lambda>_ _. True))"
    using tags by (auto intro!: reaches_return elim: stage_forget)
qed

lemma reaches_chunk:
  assumes "chunk_parsed (ie_tokenizer env) parsed = Inr chunks"
  shows "tx_reaches (stage st cs doc jid (\<lambda>_ _. True)) (step_chunk (alone env) data parsed)
    (\<lambda>r s. r = chunks \<and> stage st cs doc jid (\<lambda>r _. d_content_hash r = digest env data) s)"
proof -
  have hash: "tx_reaches (stage st cs doc jid (\<lambda>_ _. True)) (set_doc (\<lambda>r. r\<lparr>d_content_hash := digest env data\<rparr>))
      (\<lambda>_. stage st cs doc jid (\<lambda>r _. d_content_hash r = digest env data))"
    by (rule stage_set) (simp_all add: writable_def write_doc_def changed_def alike_def)
  show ?thesis
    unfolding step_chunk_def alone_fields digest_def [symmetric]
    by (rule reaches_seq [OF stage_current], rule reaches_seq [OF stage_status_any],
        rule reaches_bind [OF reaches_lift [OF assms]], rule reaches_fact, rule reaches_seq [OF hash],
        rule reaches_return) simp
qed

text \<open>The exchange of the chunk rows.\<close>

definition new_rows :: "('q, 'w, 's) ingest_env \<Rightarrow> document \<Rightarrow> chunk_data list \<Rightarrow> document_chunk list" where
  "new_rows env doc chunks = chunk_rows (ie_chunk_id env) doc chunks"

lemma new_rows_alike: "alike doc r \<Longrightarrow> chunk_rows (ie_chunk_id env) r chunks = new_rows env doc chunks"
  by (simp add: chunk_rows_def alike_def new_rows_def)

definition short_refs :: "chunk_data list \<Rightarrow> bool" where
  "short_refs chunks \<longleftrightarrow> list_all (\<lambda>c. case ch_ref c of None \<Rightarrow> True | Some r \<Rightarrow> length r \<le> 255) chunks"

lemma insert_new_rows:
  assumes "short_refs chunks" and "get_by d_id (d_id doc) (documents d) \<noteq> None"
    and "\<And>n. get_by c_id (new_id n) (document_chunks d) = None"
  shows "insert_chunks (chunk_rows new_id doc chunks) d
    = Inr (d\<lparr>document_chunks := document_chunks d @ chunk_rows new_id doc chunks\<rparr>)"
proof -
  have "\<not> (\<exists>c \<in> set (chunk_rows new_id doc chunks). case c_section_ref c of None \<Rightarrow> False | Some r \<Rightarrow> 255 < length r)"
    using assms(1) by (auto simp: chunk_rows_def short_refs_def list_all_iff dest!: set_zip_rightD split: option.splits)
  moreover have "\<not> (\<exists>c \<in> set (chunk_rows new_id doc chunks). get_by d_id (c_document_id c) (documents d) = None \<or>
      get_by c_id (c_id c) (document_chunks d) \<noteq> None)"
    using assms(2,3) by (auto simp: chunk_rows_def)
  ultimately show ?thesis by (simp add: insert_chunks_def)
qed

lemma flush_with_chunks:
  assumes "flush_db (w\<lparr>wk_new_chunks := []\<rparr>) d = Inr d'" and "wk_new_errors w = []"
    and "insert_chunks (wk_new_chunks w) d' = Inr d''"
  shows "flush_db w d = Inr d''"
proof -
  obtain d1 where d1: "flush_doc (wk_doc_saved w) (wk_doc w) d = Inr d1"
    "flush_job (wk_job_saved w) (wk_job w) d1 = Inr d'"
    using assms(1,2) by (auto simp: flush_db_def res_bind_Inr insert_chunks_def insert_errors_def)
  then show ?thesis using assms(2,3) by (simp add: flush_db_def insert_errors_def)
qed

lemma reaches_exchange:
  fixes st :: 's and env :: "('q, 'w, 's) ingest_env"
  assumes "short_refs chunks" and "\<And>n. get_by c_id (ie_chunk_id env n) cs = None"
    and "alike doc r" and s: "on_doc st r j cs r j s" and "working s = (d, w)"
  defines "rows \<equiv> new_rows env doc chunks" and "r' \<equiv> r\<lparr>d_chunk_count := Some (int (length (new_rows env doc chunks)))\<rparr>"
  shows "\<exists>s'. commit_with (\<lambda>d. d) (s\<lparr>working :=
        (d\<lparr>document_chunks := filter (\<lambda>c. c_document_id c \<noteq> d_id r) cs\<rparr>, w\<lparr>wk_new_chunks := rows, wk_doc := r'\<rparr>)\<rparr>) = (Inr (), s') \<and>
      on_doc st r' j (filter (\<lambda>c. c_document_id c \<noteq> d_id doc) cs @ rows) r' j s'"
proof -
  let ?cs = "filter (\<lambda>c. c_document_id c \<noteq> d_id doc) cs"
  let ?d = "d\<lparr>document_chunks := ?cs\<rparr>" and ?w = "w\<lparr>wk_new_chunks := rows, wk_doc := r'\<rparr>"
  have id: "d_id r = d_id doc" using assms(3) by (simp add: alike_def)
  have w: "\<not> wk_broken w" "wk_new_chunks w = []" "wk_new_errors w = []" "wk_storage w = st" "wk_doc w = r" "wk_job w = j"
    "wk_doc_saved w = r" "wk_job_saved w = j" and d: "get_by d_id (d_id r) (documents d) = Some r"
    "get_by j_id (j_id j) (ingestion_jobs d) = Some j" "document_chunks d = cs"
    using s by (simp_all add: on_doc_def assms(5))
  have pending: "on_doc st r j ?cs r' j (s\<lparr>working := (?d, ?w\<lparr>wk_new_chunks := []\<rparr>)\<rparr>)"
    using w d by (simp add: on_doc_def r'_def)
  have "writable r r'" by (simp add: r'_def writable_def write_doc_def changed_def)
  from flush_on_doc [OF pending this writable_refl(2)] obtain d' where d': "flush_db (?w\<lparr>wk_new_chunks := []\<rparr>) ?d = Inr d'"
    "on_doc st r' j ?cs r' j (s\<lparr>working := (d', saved (?w\<lparr>wk_new_chunks := []\<rparr>))\<rparr>)"
    by auto
  have cs': "document_chunks d' = ?cs" "get_by d_id (d_id r) (documents d') = Some r'"
    using d'(2) by (simp_all add: on_doc_def r'_def)
  have "get_by c_id (ie_chunk_id env n) ?cs = None" for n
    using assms(2) [of n] by (simp add: get_by_None)
  then have "insert_chunks rows d' = Inr (d'\<lparr>document_chunks := ?cs @ rows\<rparr>)"
    using insert_new_rows [OF assms(1), of r d' "ie_chunk_id env"] cs'
    by (simp add: rows_def new_rows_alike [OF assms(3), symmetric])
  then have "flush_db ?w ?d = Inr (d'\<lparr>document_chunks := ?cs @ rows\<rparr>)"
    using flush_with_chunks [OF d'(1)] w by simp
  then show ?thesis
    using w d'(2) by (auto simp: commit_with_def tx_simps tx_bind_def flush_session_def id on_doc_def saved_def)
qed

lemma reaches_persist:
  fixes st :: 's and env :: "('q, 'w, 's) ingest_env"
  assumes "short_refs chunks" and "\<And>n. get_by c_id (ie_chunk_id env n) cs = None"
    and K: "\<And>r j. K r j \<Longrightarrow> K' (r\<lparr>d_chunk_count := Some (int (length chunks))\<rparr>) j"
  shows "tx_reaches (stage st cs doc jid K) (step_persist (alone env) chunks)
    (\<lambda>rows s. rows = new_rows env doc chunks \<and>
       stage st (filter (\<lambda>c. c_document_id c \<noteq> d_id doc) cs @ new_rows env doc chunks) doc jid K' s)"
  unfolding step_persist_def alone_fields
proof (rule reaches_seq [OF stage_current], rule stageI, rule reaches_seq [OF reaches_flush], assumption, assumption)
  fix r0 j0 r j assume w: "alike doc r" "j_id j = jid" "K r j"
  let ?n = "Some (int (length chunks))"
  have len: "length (new_rows env doc chunks) = length chunks" by (simp add: new_rows_def chunk_rows_def)
  note rows = new_rows_alike [OF w(1), of env chunks]
  have next_stage: "stage st cs' doc jid K' s" if "on_doc st (r\<lparr>d_chunk_count := ?n\<rparr>) j cs' (r\<lparr>d_chunk_count := ?n\<rparr>) j s"
    for s :: "(db \<times> ('q, 'w, 's) worker) session" and cs'
    by (rule stage_mem [where jid = jid, OF that]) (use w K in \<open>simp_all add: alike_def\<close>)
  show "tx_reaches (on_doc st r j cs r j)
     (tx_seq (tx_modify (\<lambda>(d, w :: ('q, 'w, 's) worker).
        (d\<lparr>document_chunks := filter (\<lambda>c. c_document_id c \<noteq> d_id (wk_doc w)) (document_chunks d)\<rparr>,
         w\<lparr>wk_new_chunks := chunk_rows (ie_chunk_id (alone env)) (wk_doc w) chunks\<rparr>)))
     (tx_bind (tx_read (\<lambda>(d, w). wk_new_chunks w)) (\<lambda>rows.
      tx_seq (set_doc (\<lambda>r. r\<lparr>d_chunk_count := Some (int (length rows))\<rparr>))
      (tx_seq (commit_with (\<lambda>d. d)) (tx_return rows)))))
     (\<lambda>rows s. rows = new_rows env doc chunks \<and>
       stage st (filter (\<lambda>c. c_document_id c \<noteq> d_id doc) cs @ new_rows env doc chunks) doc jid K' s)"
    unfolding tx_reaches_def
  proof (intro allI impI)
    fix s :: "(db \<times> ('q, 'w, 's) worker) session" assume s: "on_doc st r j cs r j s"
    obtain d w where dw: "working s = (d, w)" by fastforce
    have held: "wk_doc w = r" "document_chunks d = cs" using s by (simp_all add: on_doc_def dw)
    note ex = reaches_exchange [OF assms(1,2) \<open>alike doc r\<close> s dw, unfolded len]
    then show "\<exists>x s'. tx_seq (tx_modify (\<lambda>(d, w).
        (d\<lparr>document_chunks := filter (\<lambda>c. c_document_id c \<noteq> d_id (wk_doc w)) (document_chunks d)\<rparr>,
         w\<lparr>wk_new_chunks := chunk_rows (ie_chunk_id (alone env)) (wk_doc w) chunks\<rparr>)))
     (tx_bind (tx_read (\<lambda>(d, w). wk_new_chunks w)) (\<lambda>rows.
      tx_seq (set_doc (\<lambda>r. r\<lparr>d_chunk_count := Some (int (length rows))\<rparr>))
      (tx_seq (commit_with (\<lambda>d. d)) (tx_return rows)))) s = (Inr x, s') \<and>
      x = new_rows env doc chunks \<and>
       stage st (filter (\<lambda>c. c_document_id c \<noteq> d_id doc) cs @ new_rows env doc chunks) doc jid K' s'"
      using next_stage by (auto simp: tx_simps set_doc_def dw held rows len) (auto simp: tx_bind_def tx_simps)
  qed
qed

text \<open>The provider embeds and the vector store accepts whatever it is sent.\<close>

definition services_answer :: "('q, 'w, 's) ingest_env \<Rightarrow> bool" where
  "services_answer env \<longleftrightarrow>
     (\<forall>texts ws g. \<exists>vs. fst (embed (ie_cfg env) (ie_provider env) texts ws None g) = Inr vs) \<and>
     (\<forall>ws ps v. fst (vs_upsert (ie_cfg env) (ie_qdrant env) ws ps v) = Inr ())"

text \<open>What a completed document records of its content and its chunks.\<close>

definition recorded :: "string option \<Rightarrow> nat \<Rightarrow> document \<Rightarrow> bool" where
  "recorded hash n r \<longleftrightarrow> d_content_hash r = hash \<and> d_chunk_count r = Some (int n)"

lemma recorded_simps [simp]:
  "recorded h n (r\<lparr>d_ingestion_status := a\<rparr>) = recorded h n r"
  "recorded h n (r\<lparr>d_ingestion_status := a, d_current_step := b\<rparr>) = recorded h n r"
  "recorded h n (r\<lparr>d_embedding_status := e\<rparr>) = recorded h n r"
  "recorded h n (r\<lparr>d_metadata := m\<rparr>) = recorded h n r"
  by (simp_all add: recorded_def)

lemma writable_simps [simp]:
  "writable r (r\<lparr>d_embedding_status := e\<rparr>)" "alike r (r\<lparr>d_embedding_status := e\<rparr>)"
  "writable r (r\<lparr>d_metadata := m\<rparr>)" "alike r (r\<lparr>d_metadata := m\<rparr>)"
  "job_writable j (j\<lparr>j_completed_at := t\<rparr>)"
  by (simp_all add: writable_def write_doc_def changed_def alike_def job_writable_def write_job_def)

lemma reaches_embed:
  fixes st :: 's and env :: "('q, 'w, 's) ingest_env"
  assumes "services_answer env"
  shows "tx_reaches (stage st cs doc jid (\<lambda>r _. recorded h n r)) (step_embed (alone env) rows)
    (\<lambda>_. stage st cs doc jid (\<lambda>r _. recorded h n r \<and> d_embedding_status r = emb_value EmbCompleted))"
  unfolding step_embed_def alone_fields alone_simps
proof (rule reaches_seq [OF stage_current], rule reaches_seq [OF stage_status [where K' = "\<lambda>r _. recorded h n r"]],
    simp, rule reaches_seq [OF stage_set [where K' = "\<lambda>r _. recorded h n r"]], simp, simp, simp,
    rule reaches_seq [OF stage_commit], rule stage_doc)
  fix r assume "alike doc r"
  let ?K = "\<lambda>q (j :: ingestion_job). q = r \<and> recorded h n q"
    and ?R = "\<lambda>q (j :: ingestion_job). recorded h n q \<and> d_embedding_status q = emb_value EmbCompleted"
  let ?S = "stage st cs doc jid ?K :: (db \<times> ('q, 'w, 's) worker) session \<Rightarrow> bool"
  have forget: "stage st cs doc jid ?K s \<Longrightarrow> stage st cs doc jid (\<lambda>r _. recorded h n r) s"
    for s :: "(db \<times> ('q, 'w, 's) worker) session"
    by (erule stage_mono [rotated]) simp
  let ?put = "tx_bind (on_gateway (embed (ie_cfg env) (ie_provider env) (map c_chunk_text rows) (d_workspace_id r) None)) (\<lambda>x.
       tx_bind (tx_lift x) (\<lambda>vectors.
       tx_bind (on_vectors (vs_upsert (ie_cfg env) (ie_qdrant env) (d_workspace_id r)
         (map (\<lambda>(row, v). chunk_point r row v) (zip rows vectors)))) tx_lift))
     :: (db \<times> ('q, 'w, 's) worker) session \<Rightarrow> (exn + unit) \<times> (db \<times> ('q, 'w, 's) worker) session"
  have put: "tx_reaches ?S ?put (\<lambda>_. stage st cs doc jid (\<lambda>r _. recorded h n r))"
  proof (rule reaches_bind [OF stage_service(1)], rule reaches_fact)
    fix x assume "\<exists>g. x = fst (embed (ie_cfg env) (ie_provider env) (map c_chunk_text rows) (d_workspace_id r) None g)"
    then obtain vs where x: "x = Inr vs" using assms unfolding services_answer_def by metis
    show "tx_reaches ?S (tx_bind (tx_lift x) (\<lambda>vectors.
       tx_bind (on_vectors (vs_upsert (ie_cfg env) (ie_qdrant env) (d_workspace_id r)
         (map (\<lambda>(row, v). chunk_point r row v) (zip rows vectors)))) tx_lift))
       (\<lambda>_. stage st cs doc jid (\<lambda>r _. recorded h n r))"
    proof (rule reaches_bind [OF reaches_lift [OF x]], rule reaches_fact, rule reaches_bind [OF stage_service(2)],
        rule reaches_fact)
      fix vectors y assume "\<exists>v. y = fst (vs_upsert (ie_cfg env) (ie_qdrant env) (d_workspace_id r)
         (map (\<lambda>(row, v). chunk_point r row v) (zip rows vectors)) v)"
      then have "y = Inr ()" using assms unfolding services_answer_def by metis
      from reaches_lift [OF this]
      show "tx_reaches ?S (tx_lift y) (\<lambda>_. stage st cs doc jid (\<lambda>r _. recorded h n r))"
        by (rule reaches_weaken) (rule forget, simp)
    qed
  qed
  have sent: "tx_reaches ?S (if rows \<noteq> [] then ?put else tx_return ())
      (\<lambda>_. stage st cs doc jid (\<lambda>r _. recorded h n r))"
    using put by (auto intro!: reaches_return elim: forget)
  show "tx_reaches ?S
     (tx_seq (if rows \<noteq> [] then ?put else tx_return ())
       (tx_seq (set_doc (\<lambda>r. r\<lparr>d_embedding_status := emb_value EmbCompleted\<rparr>)) (commit_with (\<lambda>d. d))))
     (\<lambda>_. stage st cs doc jid ?R)"
    by (rule reaches_seq [OF sent], rule reaches_seq [OF stage_set stage_commit]) simp_all
qed

lemma reaches_graph:
  assumes "\<And>r j a b. K r j \<Longrightarrow> K (r\<lparr>d_ingestion_status := a, d_current_step := b\<rparr>)
      (j\<lparr>j_status := a, j_current_step := ''graph'', j_steps_completed := 14\<rparr>)"
  shows "tx_reaches (stage st cs doc jid K) (step_graph (alone env) parsed rows) (\<lambda>_. stage st cs doc jid K)"
  unfolding step_graph_def alone_fields
proof (rule reaches_seq [OF stage_current], rule reaches_seq [OF stage_status [where K' = K]], rule assms, assumption,
    rule stage_doc, rule reaches_bind [OF stage_service(1)], rule reaches_fact)
  fix r x
  show "tx_reaches (stage st cs doc jid (\<lambda>q j. q = r \<and> K q j))
     (case x of (entities, relations) \<Rightarrow>
      tx_seq (on_graph (upsert_graph (ie_graph_up (alone env)) (d_workspace_id r) (d_id r) entities relations
                (map_option c_id (first_row rows)) (Some (d_name r)) (Some (d_tags r)) (Some (d_source_type r))))
      (tx_return (length entities))) (\<lambda>_. stage st cs doc jid K)"
    by (cases x) (auto intro!: reaches_seq [OF stage_service(3)] reaches_return elim: stage_mono [rotated])
qed

text \<open>The run is over: the document and its job are marked completed.\<close>

definition finished :: "string option \<Rightarrow> nat \<Rightarrow> timestamp \<Rightarrow> document \<Rightarrow> ingestion_job \<Rightarrow> bool" where
  "finished hash n now r j \<longleftrightarrow> recorded hash n r \<and> d_embedding_status r = emb_value EmbCompleted \<and>
     d_ingestion_status r = status_value Completed \<and> d_current_step r = Some ''completed'' \<and>
     j_status j = status_value Completed \<and> j_steps_completed j = steps_total \<and> j_completed_at j = Some now"

lemma reaches_finalize:
  "tx_reaches (stage st cs doc jid (\<lambda>r _. recorded h n r \<and> d_embedding_status r = emb_value EmbCompleted))
     (step_finalize (alone env) parsed k) (\<lambda>_. reached st cs doc jid (finished h n (ie_now env)))"
  unfolding step_finalize_def alone_fields alone_simps
  by (rule reaches_seq [OF stage_current], rule reaches_seq [OF stage_set
        [where K' = "\<lambda>r _. recorded h n r \<and> d_embedding_status r = emb_value EmbCompleted"]], simp, simp, simp,
      rule reaches_seq [OF stage_status [where K' = "\<lambda>r _. recorded h n r \<and> d_embedding_status r = emb_value EmbCompleted"]],
      simp, rule reaches_seq [OF stage_status [where K' = "\<lambda>r j. recorded h n r \<and> d_embedding_status r = emb_value EmbCompleted \<and>
        d_ingestion_status r = status_value Completed \<and> d_current_step r = Some ''completed'' \<and>
        j_status j = status_value Completed \<and> j_steps_completed j = steps_total"]],
      simp, rule reaches_seq [OF stage_set_job stage_committed])
    (simp_all add: finished_def)

lemma reaches_completed:
  fixes st :: 's and env :: "('q, 'w, 's) ingest_env"
  assumes "services_answer env" and "stored env st doc = Inr data" and "parsed_as env data doc = Inr parsed"
    and "chunk_parsed (ie_tokenizer env) parsed = Inr chunks" and "short_refs chunks"
    and "\<And>n. get_by c_id (ie_chunk_id env n) cs = None"
  shows "tx_reaches (stage st cs doc jid (\<lambda>_ _. True)) (ingest_steps (alone env))
    (\<lambda>_. reached st (filter (\<lambda>c. c_document_id c \<noteq> d_id doc) cs @ new_rows env doc chunks) doc jid
       (finished (digest env data) (length chunks) (ie_now env)))"
  unfolding ingest_steps_def
  by (rule reaches_bind [OF reaches_retrieve [OF assms(2)]], rule reaches_fact, hypsubst,
      rule reaches_bind [OF reaches_parse [OF assms(3)]], rule reaches_fact, hypsubst,
      rule reaches_seq [OF reaches_tags],
      rule reaches_bind [OF reaches_chunk [OF assms(4)]], rule reaches_fact, hypsubst,
      rule reaches_bind [OF reaches_persist [OF assms(5,6), where K' = "\<lambda>r _. recorded (digest env data) (length chunks) r"]],
      simp add: recorded_def, rule reaches_fact, hypsubst,
      rule reaches_seq [OF reaches_embed [OF assms(1)]],
      rule reaches_bind [OF reaches_graph reaches_finalize]) simp

lemma run_steps_reaches: "tx_reaches P (ingest_steps env) Q \<Longrightarrow> tx_reaches P (run_steps env) (\<lambda>_ s. \<exists>x. Q x s)"
  unfolding tx_reaches_def run_steps_def by fastforce

text \<open>A session that starts on a document and its latest or new job.\<close>

lemma start_stage:
  fixes sv :: "('q, 'w, 's) services"
  assumes "get_by d_id doc_id (documents d) = Some doc" and "get_by j_id (j_id job) (ingestion_jobs d) = Some job"
  shows "stage (wk_storage sv) (document_chunks d) doc (j_id job) (\<lambda>_ _. True)
    (\<lparr>committed = c, working = (d, load_worker sv doc job)\<rparr> :: (db \<times> ('q, 'w, 's) worker) session)"
  by (rule stage_mem [of _ doc job _ doc job])
    (use assms get_by_Some [OF assms(1)] in \<open>simp_all add: on_doc_def load_worker_def alike_def\<close>)

lemma get_by_distinct: "distinct (map key xs) \<Longrightarrow> x \<in> set xs \<Longrightarrow> get_by key (key x) xs = Some x"
  by (induction xs) (auto simp: image_iff)

lemma latest_job_mem: "latest_job doc_id d = Some job \<Longrightarrow> job \<in> set (ingestion_jobs d) \<and> j_document_id job = doc_id"
proof -
  assume job: "latest_job doc_id d = Some job"
  have "job \<in> set (sort_key (\<lambda>j. - j_created_at j) (filter (\<lambda>j. j_document_id j = doc_id) (ingestion_jobs d)))"
    using job by (cases "sort_key (\<lambda>j. - j_created_at j) (filter (\<lambda>j. j_document_id j = doc_id) (ingestion_jobs d))")
      (simp_all add: latest_job_def)
  then show ?thesis by simp
qed

text \<open>The session a run starts in.\<close>

lemma with_job_start:
  assumes "get_by d_id doc_id (documents d) = Some doc" and "distinct (map j_id (ingestion_jobs d))"
    and "get_by j_id new_id (ingestion_jobs d) = None"
  obtains d1 job where "with_job new_id now body doc_id sv d =
      (case body \<lparr>committed = (d, load_worker sv doc job), working = (d1, load_worker sv doc job)\<rparr> of
         (r, s) \<Rightarrow> (r, services.truncate (snd (working s)), fst (committed s)))"
    and "get_by d_id doc_id (documents d1) = Some doc" and "get_by j_id (j_id job) (ingestion_jobs d1) = Some job"
    and "document_chunks d1 = document_chunks d" and "ingestion_errors d1 = ingestion_errors d"
    and "j_id job = (case latest_job doc_id d of None \<Rightarrow> new_id | Some j \<Rightarrow> j_id j)"
proof (cases "latest_job doc_id d")
  case None
  let ?job = "new_job new_id doc now"
  have "get_by j_id new_id (ingestion_jobs d @ [?job]) = Some ?job"
    using assms(3) by (simp add: get_by_append new_job_def)
  then show ?thesis
    using that [of ?job "d\<lparr>ingestion_jobs := ingestion_jobs d @ [?job]\<rparr>"] assms None
    by (simp add: with_job_def Let_def new_job_def)
next
  case (Some job)
  have "get_by j_id (j_id job) (ingestion_jobs d) = Some job"
    by (rule get_by_distinct [OF assms(2)]) (use latest_job_mem [OF Some] in simp)
  then show ?thesis by (intro that [of job d]) (simp_all add: with_job_def Let_def assms(1) Some)
qed

lemma run_completes:
  fixes env :: "('q, 'w, 's) ingest_env"
  assumes "services_answer env" and "stored env (wk_storage sv) doc = Inr data" and "parsed_as env data doc = Inr parsed"
    and "chunk_parsed (ie_tokenizer env) parsed = Inr chunks" and "short_refs chunks"
    and "get_by d_id doc_id (documents d) = Some doc" and "distinct (map j_id (ingestion_jobs d))"
    and "get_by j_id (ie_job_id env) (ingestion_jobs d) = None"
    and "\<And>n. get_by c_id (ie_chunk_id env n) (document_chunks d) = None"
  shows "\<exists>sv' d' r j. ingest_run (alone env) doc_id sv d = (Inr (), sv', d') \<and>
    get_by d_id doc_id (documents d') = Some r \<and> d_ingestion_status r = status_value Completed \<and>
    d_embedding_status r = emb_value EmbCompleted \<and> d_content_hash r = digest env data \<and>
    d_chunk_count r = Some (int (length chunks)) \<and>
    get_by j_id (case latest_job doc_id d of None \<Rightarrow> ie_job_id env | Some j \<Rightarrow> j_id j) (ingestion_jobs d') = Some j \<and>
    j_status j = status_value Completed \<and> j_steps_completed j = 16 \<and> j_completed_at j = Some (ie_now env) \<and>
    document_chunks d' = filter (\<lambda>c. c_document_id c \<noteq> doc_id) (document_chunks d) @ new_rows env doc chunks"
proof -
  have id: "d_id doc = doc_id" using get_by_Some [OF assms(6)] by simp
  obtain d1 job where start: "ingest_run (alone env) doc_id sv d =
      (case run_steps (alone env) \<lparr>committed = (d, load_worker sv doc job), working = (d1, load_worker sv doc job)\<rparr> of
         (r, s) \<Rightarrow> (r, services.truncate (snd (working s)), fst (committed s)))"
    and d1: "get_by d_id doc_id (documents d1) = Some doc" "get_by j_id (j_id job) (ingestion_jobs d1) = Some job"
      "document_chunks d1 = document_chunks d"
    and jid: "j_id job = (case latest_job doc_id d of None \<Rightarrow> ie_job_id env | Some j \<Rightarrow> j_id j)"
    by (rule with_job_start [OF assms(6,7,8), of "ie_now env" "run_steps (alone env)" sv])
      (rule that, simp only: ingest_run_def alone_simps, assumption+)
  let ?s = "\<lparr>committed = (d, load_worker sv doc job), working = (d1, load_worker sv doc job)\<rparr>
    :: (db \<times> ('q, 'w, 's) worker) session"
  have "stage (wk_storage sv) (document_chunks d) doc (j_id job) (\<lambda>_ _. True) ?s"
    using start_stage [OF d1(1,2), of sv "(d, load_worker sv doc job)"] by (simp add: d1(3))
  from run_steps_reaches [OF reaches_completed [OF assms(1-5) assms(9), of "j_id job"],
      unfolded tx_reaches_def, rule_format, OF this]
  obtain s' where run: "run_steps (alone env) ?s = (Inr (), s')" and s': "reached (wk_storage sv)
      (filter (\<lambda>c. c_document_id c \<noteq> d_id doc) (document_chunks d) @ new_rows env doc chunks) doc (j_id job)
      (finished (digest env data) (length chunks) (ie_now env)) s'"
    by auto
  from s' obtain r j where rj: "at_doc (wk_storage sv) (filter (\<lambda>c. c_document_id c \<noteq> doc_id) (document_chunks d) @
      new_rows env doc chunks) r j s'" "alike doc r" "j_id j = j_id job"
      "finished (digest env data) (length chunks) (ie_now env) r j"
    unfolding reached_def id by blast
  have "get_by d_id doc_id (documents (fst (committed s'))) = Some r"
    "get_by j_id (j_id job) (ingestion_jobs (fst (committed s'))) = Some j"
    "document_chunks (fst (committed s')) = filter (\<lambda>c. c_document_id c \<noteq> doc_id) (document_chunks d) @ new_rows env doc chunks"
    using rj(1-3) id by (auto simp: at_doc_def on_doc_def alike_def split: prod.splits)
  then show ?thesis
    using rj(4) unfolding start run jid [symmetric] by (auto simp: finished_def recorded_def steps_total_def)
qed


subsection \<open>A section reference that does not fit\<close>

text \<open>Without a dead letter, a run leaves the error rows alone.\<close>

lemma flush_errors:
  assumes "flush_db w d = Inr d'" and "wk_new_errors w = []"
  shows "ingestion_errors d' = ingestion_errors d"
proof -
  obtain d1 d2 d3 where fl: "flush_doc (wk_doc_saved w) (wk_doc w) d = Inr d1"
    "flush_job (wk_job_saved w) (wk_job w) d1 = Inr d2" "insert_chunks (wk_new_chunks w) d2 = Inr d3"
    "insert_errors (wk_new_errors w) d3 = Inr d'"
    using assms(1) by (rule flush_db_Inr)
  have "ingestion_errors d1 = ingestion_errors d"
    using flush_doc_Inr [OF fl(1)] by (elim disjE; simp)
  moreover have "ingestion_errors d2 = ingestion_errors d1"
    using flush_job_Inr [OF fl(2)] by (elim disjE; simp)
  ultimately show ?thesis using insert_Inr(2) [OF fl(4)] assms(2) insert_Inr(1) [OF fl(3)] by simp
qed

definition no_letter :: "ingestion_error list \<Rightarrow> db \<times> ('q, 'w, 's) worker \<Rightarrow> bool" where
  "no_letter es dw \<longleftrightarrow> (case dw of (d, w) \<Rightarrow> ingestion_errors d = es \<and> wk_new_errors w = [])"

interpretation no_errors: worker_inv "no_letter es" "alone env" for es env
  by unfold_locales (auto simp: no_letter_def dest: flush_errors)

text \<open>The worker has committed the status \<open>chunking\<close> with the old chunk rows.\<close>

definition frozen :: "uuid \<Rightarrow> document_chunk list \<Rightarrow> db \<times> ('q, 'w, 's) worker \<Rightarrow> bool" where
  "frozen doc_id cs dw \<longleftrightarrow> (case dw of (d, w) \<Rightarrow> document_chunks d = cs \<and>
     (\<exists>r. get_by d_id doc_id (documents d) = Some r \<and> d_ingestion_status r = status_value Chunking))"

lemma chunking_committed:
  "tx_reaches (stage st cs doc jid (\<lambda>_ _. True)) (set_status (\<lambda>d. d) Chunking name n)
     (\<lambda>_ s. stage st cs doc jid (\<lambda>_ _. True) s \<and> frozen (d_id doc) cs (committed s))"
proof -
  let ?K = "\<lambda>r (j :: ingestion_job). d_ingestion_status r = status_value Chunking"
  have doc: "tx_reaches (stage st cs doc jid (\<lambda>_ _. True))
      (set_doc (\<lambda>r. r\<lparr>d_ingestion_status := status_value Chunking, d_current_step := Some name\<rparr>)) (\<lambda>_. stage st cs doc jid ?K)"
    by (rule stage_set) (simp_all add: writable_def write_doc_def changed_def alike_def)
  have job: "tx_reaches (stage st cs doc jid ?K)
      (set_job (\<lambda>j. j\<lparr>j_status := status_value Chunking, j_current_step := name, j_steps_completed := n\<rparr>)) (\<lambda>_. stage st cs doc jid ?K)"
    by (rule stage_set_job) (simp_all add: job_writable_def write_job_def changed_def)
  have "frozen (d_id doc) cs (committed s)" if "reached st cs doc jid ?K s" for s
  proof -
    obtain r j where "at_doc st cs r j s" "d_id r = d_id doc" "d_ingestion_status r = status_value Chunking"
      using \<open>reached st cs doc jid ?K s\<close> unfolding reached_def alike_def by blast
    then show ?thesis by (cases "working s") (simp add: at_doc_def on_doc_def frozen_def)
  qed
  then show ?thesis
    unfolding set_status_def
    by (intro reaches_seq [OF doc] reaches_seq [OF job] reaches_weaken [OF stage_committed])
      (blast intro: stage_forget reached_stage)+
qed

lemma reaches_clean:
  "tx_reaches P m Q \<Longrightarrow> tx_clean m \<Longrightarrow>
   tx_reaches (\<lambda>s. P s \<and> F (committed s)) m (\<lambda>x s. Q x s \<and> F (committed s))"
  unfolding tx_reaches_def tx_clean_def by (metis snd_conv)

lemma clean_sets: "tx_clean (set_doc f)" "tx_clean (set_job h)" "tx_clean (set_current c)"
  unfolding set_doc_def set_job_def set_current_def by (rule inv_intros)+

lemma chunking_done:
  assumes "chunk_parsed (ie_tokenizer env) parsed = Inr chunks"
  shows "tx_reaches (stage st cs doc jid (\<lambda>_ _. True)) (step_chunk (alone env) data parsed)
    (\<lambda>r s. r = chunks \<and> stage st cs doc jid (\<lambda>_ _. True) s \<and> frozen (d_id doc) cs (committed s))"
  unfolding step_chunk_def alone_fields digest_def [symmetric]
proof (rule reaches_seq [OF stage_current], rule reaches_seq [OF chunking_committed],
    rule reaches_bind [OF reaches_lift [OF assms]], rule reaches_fact, rule reaches_seq [OF reaches_clean [OF stage_set_any clean_sets(1)]])
qed (auto simp: writable_def write_doc_def changed_def alike_def intro: reaches_return)

definition too_long :: exn where
  "too_long = PyError ''DBAPIError'' ''value too long for type character varying(255)''"

lemma insert_long_rows:
  assumes "\<not> short_refs chunks"
  shows "insert_chunks (chunk_rows new_id doc chunks) d = Inl too_long"
proof -
  obtain c r where c: "c \<in> set chunks" "ch_ref c = Some r" "255 < length r"
    using assms by (auto simp: short_refs_def list_all_iff split: option.splits)
  then obtain n where n: "n < length chunks" "chunks ! n = c" by (auto simp: in_set_conv_nth)
  have "(n, c) \<in> set (zip [0..<length chunks] chunks)" using n by (auto simp: set_zip intro!: exI [of _ n])
  then have "\<exists>x \<in> set (chunk_rows new_id doc chunks). c_section_ref x = Some r"
    unfolding chunk_rows_def using c(2) by force
  then show ?thesis using c(3) unfolding insert_chunks_def too_long_def by (metis (mono_tags, lifting) option.simps(5))
qed

lemma flush_bad_chunks:
  assumes "flush_db (w\<lparr>wk_new_chunks := []\<rparr>) d = Inr d'" and "wk_new_errors w = []"
    and "insert_chunks (wk_new_chunks w) d' = Inl e"
  shows "flush_db w d = Inl e"
proof -
  obtain d1 where "flush_doc (wk_doc_saved w) (wk_doc w) d = Inr d1" "flush_job (wk_job_saved w) (wk_job w) d1 = Inr d'"
    using assms(1,2) by (auto simp: flush_db_def res_bind_Inr insert_chunks_def insert_errors_def)
  then show ?thesis using assms(3) by (simp add: flush_db_def)
qed

lemma exchange_stuck:
  fixes st :: 's and env :: "('q, 'w, 's) ingest_env"
  assumes "\<not> short_refs chunks" and s: "on_doc st r j cs r j s" and "working s = (d, w)"
  shows "\<exists>s'. flush_session (s\<lparr>working :=
        (d\<lparr>document_chunks := filter (\<lambda>c. c_document_id c \<noteq> d_id r) cs\<rparr>,
         w\<lparr>wk_new_chunks := chunk_rows new_id r chunks, wk_doc := r\<lparr>d_chunk_count := n\<rparr>\<rparr>)\<rparr>)
      = (Inl too_long, s') \<and> committed s' = committed s \<and> wk_broken (snd (working s'))"
proof -
  let ?cs = "filter (\<lambda>c. c_document_id c \<noteq> d_id r) cs" and ?r = "r\<lparr>d_chunk_count := n\<rparr>"
  let ?d = "d\<lparr>document_chunks := ?cs\<rparr>" and ?w = "w\<lparr>wk_new_chunks := chunk_rows new_id r chunks, wk_doc := ?r\<rparr>"
  have w: "\<not> wk_broken w" "wk_new_chunks w = []" "wk_new_errors w = []" "wk_storage w = st" "wk_doc w = r" "wk_job w = j"
    "wk_doc_saved w = r" "wk_job_saved w = j" and d: "get_by d_id (d_id r) (documents d) = Some r"
    "get_by j_id (j_id j) (ingestion_jobs d) = Some j" "document_chunks d = cs"
    using s by (simp_all add: on_doc_def assms(3))
  have pending: "on_doc st r j ?cs ?r j (s\<lparr>working := (?d, ?w\<lparr>wk_new_chunks := []\<rparr>)\<rparr>)"
    using w d by (simp add: on_doc_def)
  have "writable r ?r" by (simp add: writable_def write_doc_def changed_def)
  from flush_on_doc [OF pending this writable_refl(2)]
  obtain d' where "flush_db (?w\<lparr>wk_new_chunks := []\<rparr>) ?d = Inr d'" by auto
  then have "flush_db ?w ?d = Inl too_long"
    by (rule flush_bad_chunks) (use insert_long_rows [OF assms(1), of new_id r d'] w in simp_all)
  then show ?thesis using w by (simp add: flush_session_def)
qed

lemma clean_flush: "tx_clean flush_session"
  by (auto simp: tx_clean_def flush_session_def split: prod.split sum.split)

lemma tx_bind_run:
  "m s = (Inl e, s') \<Longrightarrow> tx_bind m f s = (Inl e, s')"
  "m s = (Inr x, s') \<Longrightarrow> tx_bind m f s = f x s'"
  by (simp_all add: tx_bind_def)

lemma persist_stuck:
  fixes st :: 's and env :: "('q, 'w, 's) ingest_env"
  assumes "\<not> short_refs chunks" and s: "stage st cs doc jid (\<lambda>_ _. True) s"
  shows "\<exists>s'. step_persist (alone env) chunks s = (Inl too_long, s') \<and> committed s' = committed s \<and>
    wk_broken (snd (working s'))"
proof -
  have cur: "tx_reaches (\<lambda>t. stage st cs doc jid (\<lambda>_ _. True) t \<and> committed t = committed s) (set_current ''persist_chunks'')
      (\<lambda>_ t. stage st cs doc jid (\<lambda>_ _. True) t \<and> committed t = committed s)"
    by (rule reaches_clean [OF stage_current clean_sets(3)])
  obtain s1 where s1: "set_current ''persist_chunks'' s = (Inr (), s1)" "stage st cs doc jid (\<lambda>_ _. True) s1"
    "committed s1 = committed s"
    using cur [unfolded tx_reaches_def, rule_format, of s] s by auto
  obtain r0 j0 r j where w: "on_doc st r0 j0 cs r j s1" "writable r0 r" "job_writable j0 j"
    using s1(2) unfolding stage_def by blast
  have fl: "tx_reaches (\<lambda>t. on_doc st r0 j0 cs r j t \<and> committed t = committed s) flush_session
      (\<lambda>_ t. on_doc st r j cs r j t \<and> committed t = committed s)"
    by (rule reaches_clean [OF reaches_flush clean_flush]) (use w in simp_all)
  obtain s2 where s2: "flush_session s1 = (Inr (), s2)" "on_doc st r j cs r j s2" "committed s2 = committed s"
    using fl [unfolded tx_reaches_def, rule_format, of s1] w(1) s1(3) by auto
  obtain d w where dw: "working s2 = (d, w)" by fastforce
  have held: "wk_doc w = r" "document_chunks d = cs" using s2(2) by (simp_all add: on_doc_def dw)
  let ?rows = "chunk_rows (ie_chunk_id (alone env)) r chunks"
  obtain s3 where s3: "flush_session (s2\<lparr>working :=
        (d\<lparr>document_chunks := filter (\<lambda>c. c_document_id c \<noteq> d_id r) cs\<rparr>,
         w\<lparr>wk_new_chunks := ?rows, wk_doc := r\<lparr>d_chunk_count := Some (int (length ?rows))\<rparr>\<rparr>)\<rparr>)
      = (Inl too_long, s3)" "committed s3 = committed s2" "wk_broken (snd (working s3))"
    using exchange_stuck [OF assms(1) s2(2) dw] by blast
  have "step_persist (alone env) chunks s = (Inl too_long, s3)"
    unfolding step_persist_def tx_seq_def tx_bind_run(2) [where m = "set_current ''persist_chunks''", OF s1(1)] tx_bind_run(2) [where m = flush_session, OF s2(1)]
    using tx_bind_run(1) [where m = flush_session, OF s3(1)] by (simp add: tx_simps dw held set_doc_def commit_with_def)
  then show ?thesis using s3 s2(3) by simp
qed

text \<open>An operation that ends in a commit has committed nothing when it raises.\<close>

lemma commit_fails: "commit_with others s = (Inl e, s') \<Longrightarrow> committed s' = committed s"
proof -
  assume run: "commit_with others s = (Inl e, s')"
  obtain r s1 where s1: "flush_session s = (r, s1)" by fastforce
  have "committed s1 = committed s" using clean_flush s1 unfolding tx_clean_def by (metis snd_conv)
  then show ?thesis using run s1 by (cases r) (auto simp: commit_with_def tx_simps tx_bind_def)
qed

lemma dead_letter_fails: "dead_letter others step exc s = (Inl e, s') \<Longrightarrow> committed s' = committed s"
  by (auto simp: dead_letter_def tx_simps set_doc_def set_job_def dest!: commit_fails)

context worker_inv begin

text \<open>A run that does not end in a recorded permanent failure.\<close>

lemma run_steps_quiet:
  assumes "run_steps env s = (r, s')" and "P (committed s)" and "P (working s)"
    and "case r of Inl e \<Rightarrow> \<not> is_exn ''PermanentIngestionError'' e | Inr _ \<Rightarrow> True"
  shows "P (committed s')"
proof -
  obtain r0 s0 where s0: "ingest_steps env s = (r0, s0)" by fastforce
  have P: "P (committed s0)" "P (working s0)"
    using ingest_steps_keep assms(2,3) s0 unfolding tx_keeps_def by (metis snd_conv)+
  have keep: "P (committed (snd (rollback_session s0)))" "P (committed (snd (handle_transient (ie_others env n) e s0)))" for n e
    using rollback_keeps transient_keeps P unfolding tx_keeps_def by blast+
  show ?thesis
  proof (cases r0)
    case (Inr x)
    then show ?thesis using assms(1) s0 P by (simp add: run_steps_def)
  next
    case (Inl e)
    show ?thesis
    proof (cases "is_exn ''ParseError'' e")
      case True
      then have run: "handle_parse_error (ie_others env 13) e s0 = (r, s')"
        using assms(1) s0 Inl by (simp add: run_steps_def)
      obtain r1 s1 where s1: "dead_letter (ie_others env 13) (wk_current (snd (working s0))) e s0 = (r1, s1)" by fastforce
      have raised: "tx_bind (dead_letter (ie_others env 13) (wk_current (snd (working s0))) e)
          (\<lambda>_. tx_raise (PyError ''PermanentIngestionError'' (exn_str e))) s0 = (r, s')"
        using run by (simp add: handle_parse_error_def tx_simps case_prod_unfold)
      have "r = (case r1 of Inl x \<Rightarrow> Inl x | Inr _ \<Rightarrow> Inl (PyError ''PermanentIngestionError'' (exn_str e))) \<and> s' = s1"
      proof (cases r1)
        case (Inl x)
        then show ?thesis using raised s1 Inl by (auto simp: tx_bind_def)
      next
        case (Inr x)
        then show ?thesis using raised s1 Inr by (simp add: tx_bind_def tx_raise_def)
      qed
      then show ?thesis using assms(4) s1 P by (cases r1) (auto simp: is_exn_def dest!: dead_letter_fails)
    next
      case False
      then have "s' = snd (rollback_session s0) \<or> s' = snd (handle_transient (ie_others env 14) e s0)"
        using assms(1) s0 Inl by (simp add: run_steps_def split: if_splits)
      then show ?thesis using keep by (elim disjE) simp_all
    qed
  qed
qed

end

lemma transient_broken:
  fixes s :: "(db \<times> ('a, 'b, 'c) worker) session"
  shows "wk_broken (snd (working s)) \<Longrightarrow>
   \<exists>s'. handle_transient others e s = (Inl pending_rollback, s') \<and> committed s' = committed s"
proof -
  assume broken: "wk_broken (snd (working s))"
  have commit: "commit_with others t = (Inl pending_rollback, t)" if "wk_broken (snd (working t))"
    for t :: "(db \<times> ('a, 'b, 'c) worker) session"
    using that by (cases "working t") (simp add: commit_with_def tx_seq_def tx_bind_def flush_session_def)
  let ?t = "s\<lparr>working := (fst (working s), (snd (working s))\<lparr>wk_doc := (wk_doc (snd (working s)))\<lparr>d_embedding_status := ''failed''\<rparr>\<rparr>)\<rparr>"
  have other: "commit_with others ?t = (Inl pending_rollback, ?t)" by (rule commit) (simp add: broken)
  note bind = tx_bind_run(1) [where m = "commit_with others" and s = s, OF commit [OF broken]]
    tx_bind_run(1) [where m = "commit_with others" and s = ?t, OF other]
  show ?thesis
    by (simp add: handle_transient_def tx_simps set_doc_def case_prod_unfold bind)
qed

lemma steps_stuck:
  fixes st :: 's and env :: "('q, 'w, 's) ingest_env"
  assumes "stored env st doc = Inr data" and "parsed_as env data doc = Inr parsed"
    and "chunk_parsed (ie_tokenizer env) parsed = Inr chunks" and "\<not> short_refs chunks"
    and s: "stage st cs doc jid (\<lambda>_ _. True) s"
  shows "\<exists>s'. run_steps (alone env) s = (Inl pending_rollback, s') \<and> frozen (d_id doc) cs (committed s')"
proof -
  let ?rest = "\<lambda>data parsed chunks. tx_bind (step_persist (alone env) chunks) (\<lambda>rows.
      tx_seq (step_embed (alone env) rows) (tx_bind (step_graph (alone env) parsed rows) (step_finalize (alone env) parsed)))"
  obtain s1 where s1: "step_retrieve (alone env) s = (Inr data, s1)" "stage st cs doc jid (\<lambda>_ _. True) s1"
    using reaches_retrieve [OF assms(1), unfolded tx_reaches_def, rule_format, OF s] by auto
  obtain s2 where s2: "step_parse (alone env) data s1 = (Inr parsed, s2)" "stage st cs doc jid (\<lambda>_ _. True) s2"
    using reaches_parse [OF assms(2), unfolded tx_reaches_def, rule_format, OF s1(2)] by auto
  obtain s3 where s3: "step_tags (alone env) parsed s2 = (Inr (), s3)" "stage st cs doc jid (\<lambda>_ _. True) s3"
    using reaches_tags [unfolded tx_reaches_def, rule_format, OF s2(2)] by auto
  obtain s4 where s4: "step_chunk (alone env) data parsed s3 = (Inr chunks, s4)" "stage st cs doc jid (\<lambda>_ _. True) s4"
    "frozen (d_id doc) cs (committed s4)"
    using chunking_done [OF assms(3), unfolded tx_reaches_def, rule_format, OF s3(2)] by auto
  obtain s5 where s5: "step_persist (alone env) chunks s4 = (Inl too_long, s5)" "committed s5 = committed s4"
    "wk_broken (snd (working s5))"
    using persist_stuck [OF assms(4) s4(2)] by blast
  have "ingest_steps (alone env) s = (Inl too_long, s5)"
    by (simp add: ingest_steps_def tx_seq_def tx_bind_def s1 s2 s3 s4 s5(1))
  then show ?thesis
    using transient_broken [OF s5(3), of "\<lambda>d. d" too_long] s4(3) s5(2)
    by (auto simp: run_steps_def is_exn_def too_long_def)
qed

text \<open>
  A section reference longer than 255 characters stops the ingestion for good: the chunk rows do
  not fit their column, the error handler commits on the failed session and raises a database error
  that is neither of the two the task handles. The document stays in \<open>chunking\<close> with its old
  chunks, without an error row.
\<close>

theorem long_section_ref_stuck:
  fixes env :: "('q, 'w, 's) ingest_env"
  assumes "stored env (wk_storage sv) doc = Inr data" and "parsed_as env data doc = Inr parsed"
    and "chunk_parsed (ie_tokenizer env) parsed = Inr chunks" and "\<not> short_refs chunks"
    and "get_by d_id doc_id (documents d) = Some doc" and "distinct (map j_id (ingestion_jobs d))"
    and "get_by j_id (ie_job_id env) (ingestion_jobs d) = None"
  shows "\<exists>sv' d' r. ingest_run (alone env) doc_id sv d = (Inl pending_rollback, sv', d') \<and>
    get_by d_id doc_id (documents d') = Some r \<and> d_ingestion_status r = status_value Chunking \<and>
    document_chunks d' = document_chunks d \<and> ingestion_errors d' = ingestion_errors d"
proof -
  have id: "d_id doc = doc_id" using get_by_Some [OF assms(5)] by simp
  obtain d1 job where start: "ingest_run (alone env) doc_id sv d =
      (case run_steps (alone env) \<lparr>committed = (d, load_worker sv doc job), working = (d1, load_worker sv doc job)\<rparr> of
         (r, s) \<Rightarrow> (r, services.truncate (snd (working s)), fst (committed s)))"
    and d1: "get_by d_id doc_id (documents d1) = Some doc" "get_by j_id (j_id job) (ingestion_jobs d1) = Some job"
      "document_chunks d1 = document_chunks d" "ingestion_errors d1 = ingestion_errors d"
    by (rule with_job_start [OF assms(5,6,7), of "ie_now env" "run_steps (alone env)" sv])
      (rule that, simp only: ingest_run_def alone_simps, assumption+)
  let ?s = "\<lparr>committed = (d, load_worker sv doc job), working = (d1, load_worker sv doc job)\<rparr>
    :: (db \<times> ('q, 'w, 's) worker) session"
  have "stage (wk_storage sv) (document_chunks d) doc (j_id job) (\<lambda>_ _. True) ?s"
    using start_stage [OF d1(1,2), of sv "(d, load_worker sv doc job)"] by (simp add: d1(3))
  from steps_stuck [OF assms(1-4) this]
  obtain s' where run: "run_steps (alone env) ?s = (Inl pending_rollback, s')"
    and s': "frozen doc_id (document_chunks d) (committed s')" by (auto simp: id)
  have "no_letter (ingestion_errors d) (committed s')"
    by (rule no_errors.run_steps_quiet [OF run])
      (simp_all add: no_letter_def load_worker_def pending_rollback_def is_exn_def d1(4))
  then show ?thesis using s' unfolding start run by (auto simp: frozen_def no_letter_def split: prod.splits)
qed

subsection \<open>The Celery task\<close>

text \<open>
  \<open>retry n exc\<close> is what \<open>self.retry(exc=exc, ...)\<close> raises on the attempt that follows \<open>n\<close> retries:
  below \<open>max_retries\<close> a \<open>Retry\<close>, which the worker turns into another attempt, and after that
  the given exception itself; \<open>MaxRetriesExceededError\<close> is only raised when none is given.
\<close>

type_synonym celery_retry = "nat \<Rightarrow> exn \<Rightarrow> exn"

definition task_max_retries :: nat where "task_max_retries = 3"

definition celery_law :: "celery_retry \<Rightarrow> bool" where
  "celery_law retry \<longleftrightarrow>
     (\<forall>n e. n < task_max_retries \<longrightarrow> is_exn ''Retry'' (retry n e)) \<and>
     (\<forall>n e. task_max_retries \<le> n \<longrightarrow> retry n e = e)"

definition ingest_document ::
    "('q, 'w, 's) ingest_env \<Rightarrow> celery_retry \<Rightarrow> nat \<Rightarrow> uuid \<Rightarrow> ('q, 'w, 's) services \<Rightarrow> db \<Rightarrow>
     (exn + unit) \<times> ('q, 'w, 's) services \<times> db" where
  "ingest_document env retry n doc_id sv d =
     (case ingest_run env doc_id sv d of
        (Inr _, sv', d') \<Rightarrow> (Inr (), sv', d')
      | (Inl exc, sv', d') \<Rightarrow>
          if is_exn ''PermanentIngestionError'' exc then (Inr (), sv', d')
          else if is_exn ''TransientIngestionError'' exc
          then let raised = retry n exc
               in if is_exn ''MaxRetriesExceededError'' raised
                  then mark_failed env ''retry'' (exn_str exc) doc_id sv' d'
                  else (Inl raised, sv', d')
          else (Inl exc, sv', d'))"

text \<open>The attempts of a message, each in its own environment; \<open>None\<close> when the fuel runs out.\<close>

fun deliver ::
    "nat \<Rightarrow> (nat \<Rightarrow> ('q, 'w, 's) ingest_env) \<Rightarrow> celery_retry \<Rightarrow> nat \<Rightarrow> uuid \<Rightarrow> ('q, 'w, 's) services \<Rightarrow> db \<Rightarrow>
     ((exn + unit) \<times> ('q, 'w, 's) services \<times> db) option" where
  "deliver 0 envs retry n doc_id sv d = None"
| "deliver (Suc fuel) envs retry n doc_id sv d =
     (case ingest_document (envs n) retry n doc_id sv d of
        (Inr _, sv', d') \<Rightarrow> Some (Inr (), sv', d')
      | (Inl e, sv', d') \<Rightarrow>
          if is_exn ''Retry'' e then deliver fuel envs retry (Suc n) doc_id sv' d' else Some (Inl e, sv', d'))"

text \<open>The exceptions that leave a run.\<close>

definition run_errors :: "string set" where
  "run_errors = {''PermanentIngestionError'', ''TransientIngestionError'', ''PendingRollbackError'',
     ''StaleDataError'', ''DBAPIError'', ''IntegrityError''}"

lemma res_bind_Inl: "res_bind r f = Inl e \<longleftrightarrow> r = Inl e \<or> (\<exists>x. r = Inr x \<and> f x = Inl e)"
  by (cases r) simp_all

lemma flush_error: "flush_session s = (Inl e, s') \<Longrightarrow> exn_name e \<in> run_errors"
proof -
  assume run: "flush_session s = (Inl e, s')"
  have doc: "flush_doc a b d = Inl e \<Longrightarrow> exn_name e \<in> run_errors" for a b d
    by (auto simp: flush_doc_def stale_data_def run_errors_def split: if_splits)
  have job: "flush_job a b d = Inl e \<Longrightarrow> exn_name e \<in> run_errors" for a b d
    by (auto simp: flush_job_def stale_data_def run_errors_def split: if_splits)
  have chunks: "insert_chunks a d = Inl e \<Longrightarrow> exn_name e \<in> run_errors" for a d
    by (auto simp: insert_chunks_def integrity_error_def run_errors_def split: if_splits)
  have errors: "insert_errors a d = Inl e \<Longrightarrow> exn_name e \<in> run_errors" for a d
    by (auto simp: insert_errors_def integrity_error_def run_errors_def split: if_splits)
  have "flush_db w d = Inl e \<Longrightarrow> exn_name e \<in> run_errors" for w :: "('a, 'b, 'c) worker" and d
    unfolding flush_db_def res_bind_Inl using doc job chunks errors by blast
  then show ?thesis
    using run by (auto simp: flush_session_def pending_rollback_def run_errors_def split: prod.splits if_splits sum.splits)
qed

lemma commit_error: "commit_with others s = (Inl e, s') \<Longrightarrow> exn_name e \<in> run_errors"
proof -
  assume run: "commit_with others s = (Inl e, s')"
  obtain r s1 where s1: "flush_session s = (r, s1)" by fastforce
  show ?thesis using run s1 flush_error by (cases r) (auto simp: commit_with_def tx_simps tx_bind_def)
qed

lemma dead_letter_error: "dead_letter others step exc s = (Inl e, s') \<Longrightarrow> exn_name e \<in> run_errors"
  by (auto simp: dead_letter_def tx_simps set_doc_def set_job_def dest!: commit_error)

lemma bind_raise:
  assumes "tx_bind m (\<lambda>_. tx_raise x) s = (Inl e, s')" and "\<And>e s s'. m s = (Inl e, s') \<Longrightarrow> exn_name e \<in> E" and "exn_name x \<in> E"
  shows "exn_name e \<in> E"
proof -
  obtain r s1 where s1: "m s = (r, s1)" by fastforce
  show ?thesis using assms s1 by (cases r) (auto simp: tx_bind_def tx_raise_def)
qed

lemma run_steps_error: "run_steps env s = (Inl e, s') \<Longrightarrow> exn_name e \<in> run_errors"
proof -
  assume run: "run_steps env s = (Inl e, s')"
  obtain r0 s0 where s0: "ingest_steps env s = (r0, s0)" by fastforce
  have parse: "handle_parse_error o1 x t = (Inl e, t') \<Longrightarrow> exn_name e \<in> run_errors" for o1 x t t'
    unfolding handle_parse_error_def tx_bind_simps(4) tx_seq_def
    by (erule bind_raise [OF _ dead_letter_error]) (simp_all add: run_errors_def)
  have transient: "handle_transient o1 x t = (Inl e, t') \<Longrightarrow> exn_name e \<in> run_errors" for o1 x t t'
  proof -
    assume t: "handle_transient o1 x t = (Inl e, t')"
    show ?thesis
      using t unfolding handle_transient_def tx_bind_simps(4) tx_seq_def case_prod_unfold set_doc_def tx_bind_simps(10)
        tx_bind_simps(1,5)
      by (cases "wk_current (snd (working t)) = ''embedding''"; simp only: if_True if_False simp_thms;
          elim bind_raise [OF _ commit_error]; simp add: run_errors_def)
  qed
  show ?thesis
    using run s0 parse transient by (auto simp: run_steps_def rollback_session_def split: sum.splits if_splits prod.splits)
qed

lemma ingest_run_error: "ingest_run env doc_id sv d = (Inl e, sv', d') \<Longrightarrow> exn_name e \<in> run_errors"
  by (auto simp: ingest_run_def with_job_def Let_def integrity_error_def split: option.splits if_splits prod.splits
      dest!: run_steps_error) (simp_all add: run_errors_def)


text \<open>A run that ends in another exception than the recorded one has written no error row.\<close>

lemma ingest_run_quiet:
  fixes env :: "('q, 'w, 's) ingest_env"
  assumes "ingest_run (alone env) doc_id sv d = (Inl e, sv', d')" and "\<not> is_exn ''PermanentIngestionError'' e"
  shows "ingestion_errors d' = ingestion_errors d"
proof -
  have quiet: "no_letter es (committed s')"
    if "run_steps (alone env) \<lparr>committed = (d, w), working = (d2, w)\<rparr> = (Inl e, s')" "ingestion_errors d = es"
      "ingestion_errors d2 = es" "wk_new_errors w = []" for es s' d2 and w :: "('q, 'w, 's) worker"
    by (rule no_errors.run_steps_quiet [OF that(1)]) (use that assms(2) in \<open>simp_all add: no_letter_def\<close>)
  show ?thesis
    using assms(1)
    by (auto simp: ingest_run_def with_job_def Let_def load_worker_def split: option.splits if_splits prod.splits
        dest!: quiet simp: no_letter_def)
qed

text \<open>
  Exhausted retries are never dead-lettered: with Celery's documented behaviour the last
  \<open>retry\<close> raises the transient error itself, not \<open>MaxRetriesExceededError\<close>, so the branch that
  marks the document failed is not reached: when a message ends in a transient error, no error row
  was written by any of its attempts.
\<close>

theorem exhausted_not_dead_lettered:
  fixes envs :: "nat \<Rightarrow> ('q, 'w, 's) ingest_env"
  assumes "celery_law retry" and "deliver fuel (\<lambda>n. alone (envs n)) retry n doc_id sv d = Some (Inl e, sv', d')"
    and "is_exn ''TransientIngestionError'' e"
  shows "ingestion_errors d' = ingestion_errors d"
  using assms(2)
proof (induction fuel arbitrary: n sv d)
  case (Suc fuel)
  obtain r sv1 d1 where run: "ingest_run (alone (envs n)) doc_id sv d = (r, sv1, d1)" by (metis surj_pair)
  show ?case
  proof (cases r)
    case (Inr x)
    then show ?thesis using Suc.prems run by (simp add: ingest_document_def)
  next
    case (Inl x)
    show ?thesis
    proof (cases "is_exn ''PermanentIngestionError'' x")
      case True
      then show ?thesis using Suc.prems run Inl by (simp add: ingest_document_def)
    next
      case False
      have d1: "ingestion_errors d1 = ingestion_errors d" by (rule ingest_run_quiet [OF run [unfolded Inl] False])
      have law: "n < task_max_retries \<Longrightarrow> is_exn ''Retry'' (retry n x)" "task_max_retries \<le> n \<Longrightarrow> retry n x = x"
        using assms(1) by (simp_all add: celery_law_def)
      show ?thesis
      proof (cases "is_exn ''TransientIngestionError'' x \<and> n < task_max_retries")
        case True
        then have "deliver fuel (\<lambda>n. alone (envs n)) retry (Suc n) doc_id sv1 d1 = Some (Inl e, sv', d')"
          using Suc.prems run Inl False law by (simp add: ingest_document_def Let_def is_exn_def)
        from Suc.IH [OF this] show ?thesis by (simp add: d1)
      next
        case last: False
        show ?thesis
        proof (cases "is_exn ''TransientIngestionError'' x")
          case True
          then show ?thesis using Suc.prems run Inl False law last d1
            by (auto simp: ingest_document_def Let_def is_exn_def split: if_splits)
        next
          case other: False
          have "exn_name x \<in> run_errors" by (rule ingest_run_error [OF run [unfolded Inl]])
          then show ?thesis using Suc.prems run Inl False other d1
            by (auto simp: ingest_document_def is_exn_def run_errors_def split: if_splits)
        qed
      qed
    qed
  qed
qed simp

subsection \<open>Witnesses\<close>

lemma demo_answers: "services_answer (demo_ingest_env text)"
proof -
  let ?pv = "ie_provider (demo_ingest_env text)"
  have pv: "\<exists>e w'. pv_embed ?pv m xs w = (Inr e, w')" for m xs w by (simp add: demo_ingest_env_def)
  have "\<exists>vs. fst (embed (ie_cfg (demo_ingest_env text)) ?pv texts ws None g) = Inr vs" for texts ws g
  proof -
    let ?cfg = "ie_cfg (demo_ingest_env text)"
    have b: "0 < embed_batch_size ?cfg" by (simp add: demo_ingest_env_def default_settings_def)
    obtain v g' where "embed_loop ?cfg ?pv ws (str_or None (embedding_model ?cfg)) (batches (nat (embed_batch_size ?cfg)) texts) [] g = (Inr v, g')"
      using embed_loop_succeeds [of ?pv, OF pv] by metis
    then show ?thesis using b by (simp add: embed_def Let_def)
  qed
  moreover have "fst (vs_upsert cfg mem_qdrant ws ps v) = Inr ()" for cfg ws ps and v :: "(string \<Rightarrow> point list) vstore"
    by (simp add: vs_upsert_def ensure_collection_def mem_qdrant_def Let_def)
  ultimately show ?thesis by (simp add: services_answer_def) (simp add: demo_ingest_env_def)
qed

lemma demo_stored: "stored (demo_ingest_env text) (wk_storage (demo_ingest_services (Inr [2]))) demo_doc = Inr [2]"
  by (simp add: stored_def demo_ingest_env_def demo_ingest_services_def demo_doc_def)

lemma demo_parses:
  "parsed_as (demo_ingest_env text) [2] demo_doc
     = Inr (default_parsed\<lparr>pd_text := text, pd_page_count := 1, pd_sections := sections_from_markdown text,
              pd_metadata := [(''parser'', PStr ''docling'')]\<rparr>)"
proof -
  have "py_lower ''pdf'' = ''pdf''" by code_simp
  then show ?thesis
    by (simp add: parsed_as_def parse_document_def parse_with_docling_def docling_formats_def demo_ingest_env_def demo_doc_def)
qed

definition demo_heading :: string where
  "demo_heading = ''# '' @ replicate 256 CHR ''h'' @ nl # ''x''"

lemma demo_chunked:
  "case chunk_parsed None (default_parsed\<lparr>pd_text := ''text'', pd_page_count := 1, pd_sections := sections_from_markdown ''text'',
     pd_metadata := [(''parser'', PStr ''docling'')]\<rparr>) of Inl e \<Rightarrow> False | Inr cs \<Rightarrow> short_refs cs \<and> length cs = 1"
  by code_simp

lemma demo_heading_chunked:
  "case chunk_parsed None (default_parsed\<lparr>pd_text := demo_heading, pd_page_count := 1,
     pd_sections := sections_from_markdown demo_heading, pd_metadata := [(''parser'', PStr ''docling'')]\<rparr>) of
     Inl e \<Rightarrow> False | Inr cs \<Rightarrow> \<not> short_refs cs"
  by code_simp

lemma demo_start:
  "get_by d_id 1 (documents demo_ingest_db) = Some demo_doc" "distinct (map j_id (ingestion_jobs demo_ingest_db))"
  "get_by j_id (ie_job_id (demo_ingest_env text)) (ingestion_jobs demo_ingest_db) = None"
  "get_by c_id (ie_chunk_id (demo_ingest_env text) n) (document_chunks demo_ingest_db) = None"
  by (simp_all add: demo_ingest_db_def demo_doc_def empty_db_def)

lemma demo_tokens: "ie_tokenizer (demo_ingest_env text) = None"
  by (simp add: demo_ingest_env_def)


theorem long_section_ref_stuck_witness:
  "\<exists>sv' d' r. ingest_run (alone (demo_ingest_env demo_heading)) 1 (demo_ingest_services (Inr [2])) demo_ingest_db
       = (Inl pending_rollback, sv', d') \<and>
     get_by d_id 1 (documents d') = Some r \<and> d_ingestion_status r = ''chunking'' \<and> ingestion_errors d' = []"
proof -
  obtain cs where cs: "chunk_parsed None (default_parsed\<lparr>pd_text := demo_heading, pd_page_count := 1,
      pd_sections := sections_from_markdown demo_heading, pd_metadata := [(''parser'', PStr ''docling'')]\<rparr>) = Inr cs"
    "\<not> short_refs cs"
    using demo_heading_chunked by (auto split: sum.splits)
  from long_section_ref_stuck [OF demo_stored demo_parses cs(1) [folded demo_tokens [of demo_heading]] cs(2) demo_start(1-3)]
  show ?thesis by (auto simp: demo_ingest_db_def empty_db_def)
qed

definition demo_retry :: celery_retry where
  "demo_retry n e = (if n < 3 then PyError ''Retry'' [] else e)"

lemma demo_celery: "celery_law demo_retry"
  by (simp add: celery_law_def demo_retry_def task_max_retries_def is_exn_def)


text \<open>The object store is down on every attempt.\<close>

lemma demo_down:
  "case deliver 4 (\<lambda>n. alone (demo_ingest_env ''text'')) demo_retry 0 1
     (demo_ingest_services (Inl (PyError ''ClientError'' ''down''))) demo_ingest_db of
     Some (Inl e, sv', d') \<Rightarrow> is_exn ''TransientIngestionError'' e | _ \<Rightarrow> False"
  by code_simp

theorem exhausted_not_dead_lettered_witness:
  "\<exists>e sv' d'. deliver 4 (\<lambda>n. alone (demo_ingest_env ''text'')) demo_retry 0 1
     (demo_ingest_services (Inl (PyError ''ClientError'' ''down''))) demo_ingest_db = Some (Inl e, sv', d') \<and>
     is_exn ''TransientIngestionError'' e \<and> ingestion_errors d' = []"
proof -
  obtain e sv' d' where run: "deliver 4 (\<lambda>n. alone (demo_ingest_env ''text'')) demo_retry 0 1
     (demo_ingest_services (Inl (PyError ''ClientError'' ''down''))) demo_ingest_db = Some (Inl e, sv', d')"
    and e: "is_exn ''TransientIngestionError'' e"
    using demo_down by (auto split: option.splits prod.splits sum.splits)
  have "ingestion_errors d' = ingestion_errors demo_ingest_db"
    by (rule exhausted_not_dead_lettered [OF demo_celery run e])
  then show ?thesis using run e by (auto simp: demo_ingest_db_def empty_db_def)
qed

end
