(* ===== verification/Document_Laws.thy ===== *)
theory Document_Laws
  imports Uploads Ingest_Outcomes "HOL-Library.Multiset"
begin

text \<open>
  What the document requests keep and promise: the invariant of the document tables under every
  request and every ingestion that interleaves with them, complete pages, and the path of an upload
  that leaves its workspace.
\<close>

subsection \<open>The document tables\<close>

definition valid_doc :: "document \<Rightarrow> bool" where
  "valid_doc r \<longleftrightarrow> d_file_type r \<in> set allowed_types \<and> d_source_type r \<in> set source_values \<and>
     d_ingestion_status r \<in> range status_value \<and> d_embedding_status r \<in> range emb_value"

definition valid_job :: "ingestion_job \<Rightarrow> bool" where
  "valid_job j \<longleftrightarrow> j_status j \<in> range status_value"

text \<open>
  Rows refer to existing documents, keys are unique, the enum columns hold their values and a job
  belongs to the workspace of its document.
\<close>

definition docs_ok :: "db \<Rightarrow> bool" where
  "docs_ok d \<longleftrightarrow> ingest_fk d \<and> distinct (map d_id (documents d)) \<and> distinct (map j_id (ingestion_jobs d)) \<and>
     (\<forall>r \<in> set (documents d). valid_doc r) \<and> (\<forall>j \<in> set (ingestion_jobs d). valid_job j) \<and>
     (\<forall>j \<in> set (ingestion_jobs d). \<forall>r \<in> set (documents d). d_id r = j_document_id j \<longrightarrow> j_workspace_id j = d_workspace_id r)"

lemma enum_values: "range status_value = set status_values" "range emb_value = set emb_values"
proof -
  have "s \<in> {Queued, Processing, Parsing, Tagging, Chunking, Embedding, EntityExtraction,
     GraphMapping, Finalizing, Completed, Failed, Duplicate}" for s
    by (cases s) simp_all
  moreover have "e \<in> {EmbPending, EmbInProgress, EmbCompleted, EmbFailed}" for e
    by (cases e) simp_all
  ultimately show "range status_value = set status_values" "range emb_value = set emb_values"
    unfolding status_values_def emb_values_def set_map list.set by blast+
qed

lemma valid_view: "valid_doc r \<Longrightarrow> \<exists>v. document_view r = Inr v"
  by (simp add: valid_doc_def document_view_def enum_values)

lemma new_values [simp]: "''queued'' \<in> range status_value" "''pending'' \<in> range emb_value"
  using rangeI [of status_value Queued] rangeI [of emb_value EmbPending] by simp_all

lemma docs_fk: "docs_ok d \<Longrightarrow> ingest_fk d"
  by (simp add: docs_ok_def)

subsection \<open>Requests keep them\<close>

lemma ok_add_document:
  assumes "docs_ok d" and "add_document r d = Inr d'" and "valid_doc r"
  shows "docs_ok d'"
proof -
  have new: "get_by d_id (d_id r) (documents d) = None" and d': "d' = d\<lparr>documents := documents d @ [r]\<rparr>"
    using assms(2) by (auto simp: add_document_def split: if_splits)
  have "j_document_id j \<noteq> d_id r" if "j \<in> set (ingestion_jobs d)" for j
    using docs_fk [OF assms(1)] that new by (auto simp: ingest_fk_def get_by_None)
  then show ?thesis
    using assms(1,3) new by (auto simp: docs_ok_def d' ingest_fk_def get_by_None)
qed

lemma ok_new_job:
  assumes "docs_ok d" and "valid_job j" and "j_document_id j \<in> d_id ` set (documents d)" and "j_id j \<notin> j_id ` set (ingestion_jobs d)"
    and "\<And>r. r \<in> set (documents d) \<Longrightarrow> d_id r = j_document_id j \<Longrightarrow> j_workspace_id j = d_workspace_id r"
  shows "docs_ok (d\<lparr>ingestion_jobs := ingestion_jobs d @ [j]\<rparr>)"
  using assms by (auto simp: docs_ok_def ingest_fk_def)

lemma ok_add_job:
  assumes "docs_ok d" and "add_job j d = Inr d'" and "valid_job j"
    and "\<And>r. r \<in> set (documents d) \<Longrightarrow> d_id r = j_document_id j \<Longrightarrow> j_workspace_id j = d_workspace_id r"
  shows "docs_ok d'"
proof -
  have "get_by j_id (j_id j) (ingestion_jobs d) = None" "get_by d_id (j_document_id j) (documents d) \<noteq> None"
    and d': "d' = d\<lparr>ingestion_jobs := ingestion_jobs d @ [j]\<rparr>"
    using assms(2) by (auto simp: add_job_def split: if_splits)
  then have "j_document_id j \<in> d_id ` set (documents d)" "j_id j \<notin> j_id ` set (ingestion_jobs d)"
    by (auto simp: get_by_None dest: get_by_Some intro: rev_image_eqI)
  then show ?thesis unfolding d' by (rule ok_new_job [OF assms(1,3) _ _ assms(4)])
qed

lemma ok_drop_document: "docs_ok d \<Longrightarrow> docs_ok (drop_document doc_id d)"
  by (auto simp: docs_ok_def drop_document_def ingest_fk_def distinct_map_filter image_subset_iff)

lemma ok_update_document:
  assumes "docs_ok d" and "\<And>r. d_id (f r) = d_id r \<and> d_workspace_id (f r) = d_workspace_id r"
    and "\<And>r. valid_doc r \<Longrightarrow> valid_doc (f r)"
  shows "docs_ok (update_document doc_id f d)"
proof -
  have keys: "map d_id (set_rows P f rs) = map d_id rs" for P rs
    by (rule set_rows_key) (simp add: assms(2))
  have img: "d_id ` set (set_rows P f rs) = d_id ` set rs" for P rs
    by (rule set_rows_image) (simp add: assms(2))
  have rows: "\<exists>y \<in> set rs. d_id x = d_id y \<and> d_workspace_id x = d_workspace_id y \<and> (valid_doc y \<longrightarrow> valid_doc x)"
    if "x \<in> set (set_rows P f rs)" for x P rs
    using set_rows_mem [OF that] assms(2,3) by (auto split: if_splits)
  show ?thesis
    using assms(1) rows unfolding docs_ok_def update_document_def ingest_fk_def
    by (simp add: keys img) (metis (no_types, lifting))
qed

subsection \<open>Other workspaces\<close>

text \<open>What belongs to other workspaces: their documents and the rows attached to these.\<close>

definition docs_elsewhere :: "uuid \<Rightarrow> db \<Rightarrow> document list" where
  "docs_elsewhere ws d = filter (\<lambda>r. d_workspace_id r \<noteq> ws) (documents d)"

definition attached :: "document list \<Rightarrow> ('r \<Rightarrow> uuid) \<Rightarrow> 'r list \<Rightarrow> 'r list" where
  "attached docs key rows = filter (\<lambda>x. key x \<in> d_id ` set docs) rows"

definition elsewhere :: "uuid \<Rightarrow> db \<Rightarrow> document list \<times> document_chunk list \<times> ingestion_job list \<times> ingestion_error list" where
  "elsewhere ws d =
     (docs_elsewhere ws d, attached (docs_elsewhere ws d) c_document_id (document_chunks d),
      attached (docs_elsewhere ws d) j_document_id (ingestion_jobs d),
      attached (docs_elsewhere ws d) e_document_id (ingestion_errors d))"

text \<open>A document of \<open>ws\<close> shares its key with no document elsewhere.\<close>

definition of_workspace :: "uuid \<Rightarrow> uuid \<Rightarrow> db \<Rightarrow> bool" where
  "of_workspace ws doc_id d \<longleftrightarrow> doc_id \<notin> d_id ` set (docs_elsewhere ws d)"

lemma owned_of_workspace:
  assumes "docs_ok d" and "get_by d_id doc_id (documents d) = Some r" and "d_workspace_id r = ws"
  shows "of_workspace ws doc_id d"
proof -
  have "x = r" if "x \<in> set (documents d)" "d_id x = doc_id" for x
    using assms(1) that get_by_Some [OF assms(2)] unfolding docs_ok_def by (metis distinct_map inj_onD)
  then show ?thesis using assms(3) by (auto simp: of_workspace_def docs_elsewhere_def)
qed

lemma elsewhere_add_document:
  "d_workspace_id r = ws \<Longrightarrow> elsewhere ws (d\<lparr>documents := documents d @ [r]\<rparr>) = elsewhere ws d"
  by (simp add: elsewhere_def docs_elsewhere_def)

lemma elsewhere_add_job:
  "of_workspace ws (j_document_id j) d \<Longrightarrow> elsewhere ws (d\<lparr>ingestion_jobs := ingestion_jobs d @ [j]\<rparr>) = elsewhere ws d"
  by (simp add: elsewhere_def of_workspace_def attached_def docs_elsewhere_def)

lemma elsewhere_update_document:
  assumes "of_workspace ws doc_id d" and "\<And>r. d_workspace_id (f r) = d_workspace_id r"
  shows "elsewhere ws (update_document doc_id f d) = elsewhere ws d"
proof -
  have "filter (\<lambda>r. d_workspace_id r \<noteq> ws) (set_rows (\<lambda>r. d_id r = doc_id) f rs)
      = filter (\<lambda>r. d_workspace_id r \<noteq> ws) rs" if "set rs \<subseteq> set (documents d)" for rs
    using that assms by (induction rs) (auto simp: of_workspace_def docs_elsewhere_def)
  then have "docs_elsewhere ws (update_document doc_id f d) = docs_elsewhere ws d"
    by (simp add: docs_elsewhere_def update_document_def)
  then show ?thesis by (simp add: elsewhere_def update_document_def)
qed

lemma attached_drop: "k \<notin> d_id ` set docs \<Longrightarrow> attached docs key (filter (\<lambda>x. key x \<noteq> k) rows) = attached docs key rows"
  unfolding attached_def by (induction rows) auto

lemma elsewhere_drop_document:
  assumes "of_workspace ws doc_id d"
  shows "elsewhere ws (drop_document doc_id d) = elsewhere ws d"
proof -
  have "filter (\<lambda>r. d_workspace_id r \<noteq> ws) (filter (\<lambda>r. d_id r \<noteq> doc_id) rs) = filter (\<lambda>r. d_workspace_id r \<noteq> ws) rs"
    if "set rs \<subseteq> set (documents d)" for rs
    using that assms by (induction rs) (auto simp: of_workspace_def docs_elsewhere_def)
  then have "docs_elsewhere ws (drop_document doc_id d) = docs_elsewhere ws d"
    by (simp add: docs_elsewhere_def drop_document_def)
  moreover have "doc_id \<notin> d_id ` set (docs_elsewhere ws d)" using assms by (simp add: of_workspace_def)
  ultimately show ?thesis by (simp add: elsewhere_def drop_document_def attached_drop)
qed

subsection \<open>Requests\<close>

text \<open>The tables are in order and what is elsewhere is \<open>V\<close>.\<close>

definition tenant_inv where
  "tenant_inv ws V d \<longleftrightarrow> docs_ok d \<and> elsewhere ws d = V"

lemma tenant_cong:
  "tenant_inv ws V d \<Longrightarrow> documents d' = documents d \<Longrightarrow> document_chunks d' = document_chunks d \<Longrightarrow>
   ingestion_jobs d' = ingestion_jobs d \<Longrightarrow> ingestion_errors d' = ingestion_errors d \<Longrightarrow> tenant_inv ws V d'"
  by (simp add: tenant_inv_def docs_ok_def ingest_fk_def elsewhere_def docs_elsewhere_def)

lemma tenant_log: "tx_keeps (tenant_inv ws V) (log_api_call now p endpoint)"
  unfolding log_api_call_def
  by (intro inv_intros tx_keeps_update) (auto simp: add_call_log_def split: if_splits elim!: tenant_cong)

lemma on_db_keeps: "tx_keeps P m \<Longrightarrow> tx_keeps (\<lambda>(d, ou). P d) (on_db m)"
  unfolding tx_keeps_def on_db_def by (auto simp: case_prod_unfold)

lemma outside_keeps:
  "tx_keeps (\<lambda>(d, ou). P d) (on_storage f)"
  "tx_keeps (\<lambda>(d, ou). P d) (storage_read g)"
  "tx_keeps (\<lambda>(d, ou). P d) (enqueue env doc_id)"
  unfolding storage_read_def enqueue_def
  by (auto simp: tx_keeps_def on_storage_def tx_query_def tx_modify_def case_prod_unfold)

lemma run_outside_keeps:
  assumes "tx_keeps (\<lambda>(d, ou). P d) m" and "P (committed s)" and "P (working s)" and "run_outside m s ou = (r, ou', d')"
  shows "P d'"
proof -
  obtain r0 t where run: "m \<lparr>committed = (committed s, ou), working = (working s, ou)\<rparr> = (r0, t)" by fastforce
  have "P (fst (committed t))" "P (fst (working t))"
    using assms(1) [unfolded tx_keeps_def, rule_format, of "\<lparr>committed = (committed s, ou), working = (working s, ou)\<rparr>"]
      assms(2,3) run by (simp_all add: case_prod_unfold)
  then show ?thesis using assms(4) run by (cases r0) (auto simp: run_outside_def)
qed

text \<open>A bind whose continuation may use what the first operation returns.\<close>

lemma tx_keeps_bind_post:
  fixes m :: "('a, 'e, 'b) tx"
  assumes "tx_keeps P m" and "\<And>s x s'. m s = (Inr x, s') \<Longrightarrow> Q x" and "\<And>x. Q x \<Longrightarrow> tx_keeps P (f x)"
  shows "tx_keeps P (tx_bind m f)"
  unfolding tx_keeps_def
proof (intro allI impI)
  fix s :: "'a session"
  assume P: "P (committed s)" "P (working s)"
  then have m: "P (committed (snd (m s)))" "P (working (snd (m s)))" using assms(1) unfolding tx_keeps_def by blast+
  show "P (committed (snd (tx_bind m f s))) \<and> P (working (snd (tx_bind m f s)))"
    using tx_bind_cases [of m s f] m assms(2,3) unfolding tx_keeps_def by (elim disjE exE conjE) auto
qed

lemma get_owned_run:
  "tx_bind (get_owned ws doc_id) f s =
     (case get_by d_id doc_id (documents (working s)) of
        None \<Rightarrow> (Inl (raise_app NotFoundError ''Document not found''), s)
      | Some r \<Rightarrow> if d_workspace_id r \<noteq> ws then (Inl (raise_app NotFoundError ''Document not found''), s) else f r s)"
  by (simp add: get_owned_def tx_simps split: option.split)

lemma tx_keeps_owned:
  fixes f :: "document \<Rightarrow> (db, exn, 'a) tx"
  assumes "\<And>r s. tenant_inv ws V (committed s) \<Longrightarrow> tenant_inv ws V (working s) \<Longrightarrow>
      get_by d_id doc_id (documents (working s)) = Some r \<Longrightarrow> of_workspace ws doc_id (working s) \<Longrightarrow> d_workspace_id r = ws \<Longrightarrow>
      tenant_inv ws V (committed (snd (f r s))) \<and> tenant_inv ws V (working (snd (f r s)))"
  shows "tx_keeps (tenant_inv ws V) (tx_bind (get_owned ws doc_id) f)"
  unfolding tx_keeps_def get_owned_run
  using assms owned_of_workspace by (auto simp: tenant_inv_def split: option.split)

lemma tenant_update:
  assumes "tenant_inv ws V d" and "of_workspace ws doc_id d"
    and "\<And>r. d_id (f r) = d_id r \<and> d_workspace_id (f r) = d_workspace_id r" and "\<And>r. valid_doc r \<Longrightarrow> valid_doc (f r)"
  shows "tenant_inv ws V (update_document doc_id f d)"
  using assms ok_update_document [of d f doc_id] elsewhere_update_document [of ws doc_id d f] by (simp add: tenant_inv_def)

lemma tags_keep: "tx_keeps (tenant_inv ws V) (update_tags ws doc_id tags)"
  unfolding update_tags_def
  by (rule tx_keeps_owned, simp add: tx_simps, rule tenant_update) (simp_all add: valid_doc_def)

lemma delete_keeps: "tx_keeps (tenant_inv ws V) (delete_document ws doc_id)"
  unfolding delete_document_def
  by (rule tx_keeps_owned) (simp add: tx_simps tenant_inv_def ok_drop_document elsewhere_drop_document)

lemma tenant_add_document:
  "tenant_inv ws V d \<Longrightarrow> add_document r d = Inr d' \<Longrightarrow> valid_doc r \<Longrightarrow> d_workspace_id r = ws \<Longrightarrow> tenant_inv ws V d'"
  using ok_add_document [of d r d'] elsewhere_add_document [of r ws d]
  by (auto simp: tenant_inv_def add_document_def split: if_splits)

lemma tenant_add_job:
  assumes "tenant_inv ws V d" and "add_job j d = Inr d'" and "valid_job j" and "j_workspace_id j = ws"
    and "of_workspace ws (j_document_id j) d"
  shows "tenant_inv ws V d'"
proof -
  have "j_workspace_id j = d_workspace_id r" if "r \<in> set (documents d)" "d_id r = j_document_id j" for r
    using assms(4,5) that by (auto simp: of_workspace_def docs_elsewhere_def image_iff)
  then have "docs_ok d'" using ok_add_job [OF _ assms(2,3)] assms(1) by (simp add: tenant_inv_def)
  moreover have "d' = d\<lparr>ingestion_jobs := ingestion_jobs d @ [j]\<rparr>"
    using assms(2) by (auto simp: add_job_def split: if_splits)
  ultimately show ?thesis using elsewhere_add_job [OF assms(5)] assms(1) by (simp add: tenant_inv_def)
qed

lemma on_db_bind:
  "tx_bind (on_db (tx_update u)) k s =
     (case u (fst (working s)) of Inl e \<Rightarrow> (Inl e, \<lparr>committed = (fst (committed s), snd (working s)), working = working s\<rparr>)
      | Inr d \<Rightarrow> k () \<lparr>committed = (fst (committed s), snd (working s)), working = (d, snd (working s))\<rparr>)"
  "tx_bind (on_db (tx_modify h)) k s =
     k () \<lparr>committed = (fst (committed s), snd (working s)), working = (h (fst (working s)), snd (working s))\<rparr>"
  "tx_bind (on_db tx_commit) k s = k () \<lparr>committed = working s, working = working s\<rparr>"
  "tx_bind (on_db (get_owned ws doc_id)) g s =
     (let s' = \<lparr>committed = (fst (committed s), snd (working s)), working = working s\<rparr>
      in case get_by d_id doc_id (documents (fst (working s))) of
        None \<Rightarrow> (Inl (raise_app NotFoundError ''Document not found''), s')
      | Some r \<Rightarrow> if d_workspace_id r \<noteq> ws then (Inl (raise_app NotFoundError ''Document not found''), s') else g r s')"
  by (auto simp: tx_bind_def on_db_def tx_update_def tx_modify_def tx_commit_def get_owned_def tx_query_def case_prod_unfold Let_def
      split: sum.split option.split)

lemma create_keeps:
  fixes env :: "'s doc_env"
  assumes "df_file_type f \<in> set allowed_types" and "df_source_type f \<in> set source_values"
  shows "tx_keeps (\<lambda>(d, ou). tenant_inv ws V d) (create_queued_document env ws f)"
proof -
  let ?r = "new_document (de_doc_id env) (de_now env) ws f"
  let ?j = "new_job (de_job_id env) ?r (de_now env)"
  have r: "valid_doc ?r" "d_workspace_id ?r = ws"
    using assms by (auto simp: valid_doc_def new_document_def)
  have two: "tenant_inv ws V d2" if "tenant_inv ws V d" "add_document ?r d = Inr d1" "add_job ?j d1 = Inr d2" for d d1 d2
  proof -
    have d1: "tenant_inv ws V d1" using tenant_add_document [OF that(1,2) r] .
    have row: "?r \<in> set (documents d1)" using that(2) by (auto simp: add_document_def split: if_splits)
    then have "get_by d_id (d_id ?r) (documents d1) = Some ?r"
      using d1 get_by_distinct [of d_id "documents d1" ?r] by (simp add: tenant_inv_def docs_ok_def)
    then have "of_workspace ws (d_id ?r) d1"
      using owned_of_workspace [of d1 "d_id ?r" ?r ws] d1 r(2) by (simp add: tenant_inv_def)
    then show ?thesis
      by (intro tenant_add_job [OF d1 that(3)]) (auto simp: new_job_def valid_job_def r(2))
  qed
  have one: "tenant_inv ws V d1" if "tenant_inv ws V d" "add_document ?r d = Inr d1" for d d1
    using tenant_add_document [OF that r] .
  show ?thesis
    unfolding tx_keeps_def
  proof (intro allI impI)
    fix s :: "(db \<times> 's outside) session"
    assume "case committed s of (d, ou) \<Rightarrow> tenant_inv ws V d" "case working s of (d, ou) \<Rightarrow> tenant_inv ws V d"
    then have s: "tenant_inv ws V (fst (committed s))" "tenant_inv ws V (fst (working s))"
      by (simp_all add: case_prod_unfold)
    show "(case committed (snd (create_queued_document env ws f s)) of (d, ou) \<Rightarrow> tenant_inv ws V d) \<and>
        (case working (snd (create_queued_document env ws f s)) of (d, ou) \<Rightarrow> tenant_inv ws V d)"
    proof (cases "add_document ?r (fst (working s))")
      case (Inl e)
      then show ?thesis using s by (simp add: create_queued_document_def Let_def tx_simps on_db_bind case_prod_unfold)
    next
      case d1: (Inr d1)
      show ?thesis
      proof (cases "add_job ?j d1")
        case (Inl e)
        then show ?thesis using s one [OF s(2) d1] d1
          by (simp add: create_queued_document_def Let_def tx_simps on_db_bind case_prod_unfold)
      next
        case (Inr d2)
        then show ?thesis using two [OF s(2) d1 Inr] d1
          by (simp add: create_queued_document_def Let_def tx_simps on_db_bind enqueue_def case_prod_unfold)
      qed
    qed
  qed
qed

lemma reprocess_keeps:
  fixes env :: "'s doc_env"
  shows "tx_keeps (\<lambda>(d, ou). tenant_inv ws V d) (reprocess env ws doc_id)"
proof -
  let ?q = "\<lambda>r. r\<lparr>d_ingestion_status := status_value Queued\<rparr>"
  have two: "tenant_inv ws V (update_document doc_id ?q d)" "of_workspace ws doc_id (update_document doc_id ?q d)"
    if "tenant_inv ws V d" "get_by d_id doc_id (documents d) = Some r" "d_workspace_id r = ws" for d r
  proof -
    have own: "of_workspace ws doc_id d" using owned_of_workspace that by (auto simp: tenant_inv_def)
    show "tenant_inv ws V (update_document doc_id ?q d)"
      by (rule tenant_update [OF that(1) own]) (simp_all add: valid_doc_def)
    have "docs_elsewhere ws (update_document doc_id ?q d) = docs_elsewhere ws d"
      using elsewhere_update_document [OF own, of ?q] by (simp add: elsewhere_def)
    then show "of_workspace ws doc_id (update_document doc_id ?q d)" using own by (simp add: of_workspace_def)
  qed
  have job: "tenant_inv ws V d2" if d: "tenant_inv ws V d" "get_by d_id doc_id (documents d) = Some r" "d_workspace_id r = ws"
    and j: "add_job (new_job (de_job_id env) r (de_now env)) (update_document doc_id ?q d) = Inr d2" for d d2 r
    using two [OF d] get_by_Some [OF d(2)] d(3)
    by (intro tenant_add_job [OF two(1) [OF d] j]) (auto simp: new_job_def valid_job_def)
  have keep: "tenant_inv ws V (fst (committed (snd (reprocess env ws doc_id s)))) \<and>
      tenant_inv ws V (fst (working (snd (reprocess env ws doc_id s))))"
    if s: "tenant_inv ws V (fst (committed s))" "tenant_inv ws V (fst (working s))" for s :: "(db \<times> 's outside) session"
  proof (cases "\<exists>r. get_by d_id doc_id (documents (fst (working s))) = Some r \<and> d_workspace_id r = ws")
    case True
    then obtain r where r: "get_by d_id doc_id (documents (fst (working s))) = Some r" "d_workspace_id r = ws" by blast
    show ?thesis
    proof (cases "add_job (new_job (de_job_id env) r (de_now env)) (update_document doc_id ?q (fst (working s)))")
      case (Inl e)
      then show ?thesis using s two(1) [OF s(2) r] r
        by (simp add: reprocess_def Let_def tx_simps on_db_bind del: status_value.simps)
    next
      case (Inr d2)
      then show ?thesis using job [OF s(2) r Inr] r
        by (simp add: reprocess_def Let_def tx_simps on_db_bind enqueue_def case_prod_unfold del: status_value.simps)
    qed
  next
    case False
    then show ?thesis using s by (auto simp: reprocess_def on_db_bind Let_def split: option.split)
  qed
  then show ?thesis unfolding tx_keeps_def by (simp add: case_prod_unfold)
qed

lemma uploader_keeps: "tx_keeps P (uploader_name p)"
  unfolding uploader_name_def by (intro inv_intros)

lemma detect_allowed: "detect_file_type name data = Inr ft \<Longrightarrow> ft \<in> set allowed_types"
  by (auto simp: detect_file_type_def Let_def split: if_splits option.splits)

lemma source_in_values [simp]: "source_value s \<in> set source_values"
  by (cases s) (simp_all add: source_values_def)

lemma principal_source_values: "principal_source p \<in> set source_values"
  by (simp add: principal_source_def source_values_def split: option.split)

lemma store_upload_keeps:
  "tx_keeps (\<lambda>(d, ou). P d) (store_upload env name path f)"
  "store_upload env name path f s = (Inr (ft, n), s') \<Longrightarrow> ft \<in> set allowed_types"
proof -
  show "tx_keeps (\<lambda>(d, ou). P d) (store_upload env name path f)"
    unfolding store_upload_def by (auto intro!: inv_intros outside_keeps split: option.split prod.split)
  show "store_upload env name path f s = (Inr (ft, n), s') \<Longrightarrow> ft \<in> set allowed_types"
    unfolding store_upload_def tx_seq_def
    by (auto dest!: tx_bind_InrD dest: detect_allowed simp: tx_lift_def tx_return_def split: option.splits prod.splits)
qed

lemma file_keeps:
  fixes env :: "'s doc_env"
  shows "tx_keeps (\<lambda>(d, ou). tenant_inv (p_workspace_id p) V d) (ingest_file_route env f p)"
  unfolding ingest_file_route_def Let_def
proof (rule tx_keeps_bind, rule inv_intros,
    rule tx_keeps_bind_post [where Q = "\<lambda>(ft, n). ft \<in> set allowed_types"], rule store_upload_keeps)
  fix s x s'
  show "store_upload env (upload_name f) (build_path (str_uuid (p_workspace_id p)) (str_uuid (de_doc_id env)) (upload_name f)) f s =
      (Inr x, s') \<Longrightarrow> case x of (ft, n) \<Rightarrow> ft \<in> set allowed_types"
    using store_upload_keeps(2) by (cases x) auto
qed (auto intro!: inv_intros on_db_keeps uploader_keeps create_keeps tenant_log simp: principal_source_values)

lemma text_keeps:
  fixes env :: "'s doc_env"
  shows "tx_keeps (\<lambda>(d, ou). tenant_inv (p_workspace_id p) V d) (ingest_text_with env content title tags endpoint p)"
proof -
  have ok: "''txt'' \<in> set allowed_types" "''api_push'' \<in> set source_values"
    by (simp_all add: allowed_types_def source_values_def)
  show ?thesis
    unfolding ingest_text_with_def ingest_text_def Let_def
    by (intro inv_intros on_db_keeps uploader_keeps outside_keeps create_keeps tenant_log) (simp_all add: ok)
qed

text \<open>The requests on documents, by an authenticated principal.\<close>

datatype doc_op =
    UpdateTags uuid "string list"
  | DeleteDocument uuid
  | Reprocess uuid
  | UploadFile upload_form
  | UploadPart string int bytes
  | IngestText string string "string list"
  | IngestRecord string string "(string \<times> pyval) list" "string list"

definition no_result :: "('d, 'e, 'a) tx \<Rightarrow> ('d, 'e, unit) tx" where
  "no_result m = tx_bind m (\<lambda>_. tx_return ())"

fun doc_request :: "'s doc_env \<Rightarrow> principal \<Rightarrow> doc_op \<Rightarrow> ('s, unit) dtx" where
  "doc_request env p (UpdateTags i tags) = no_result (on_db (update_tags (p_workspace_id p) i tags))"
| "doc_request env p (DeleteDocument i) = on_db (delete_document (p_workspace_id p) i)"
| "doc_request env p (Reprocess i) = no_result (reprocess env (p_workspace_id p) i)"
| "doc_request env p (UploadFile f) = no_result (ingest_file_route env f p)"
| "doc_request env p (UploadPart u n data) = no_result (ingest_file_part_route env u n data p)"
| "doc_request env p (IngestText content title tags) = no_result (ingest_text_route env content title tags p)"
| "doc_request env p (IngestRecord rt ri flds tags) = no_result (ingest_record_route env rt ri flds tags p)"

lemma requests_keep:
  fixes env :: "'s doc_env"
  shows "tx_keeps (\<lambda>(d, ou). tenant_inv (p_workspace_id p) V d) (doc_request env p req)"
proof (cases req)
  case (UploadPart u n data)
  then show ?thesis
    unfolding doc_request.simps no_result_def ingest_file_part_route_def UploadPart
    by (auto intro!: inv_intros outside_keeps)
qed (auto simp: no_result_def ingest_text_route_def ingest_record_route_def intro!: inv_intros on_db_keeps tags_keep
  delete_keeps reprocess_keeps file_keeps text_keeps)

subsection \<open>The ingestion keeps them\<close>

definition docs_worker :: "db \<times> ('q, 'w, 's) worker \<Rightarrow> bool" where
  "docs_worker dw \<longleftrightarrow> (case dw of (d, w) \<Rightarrow> docs_ok d \<and> valid_doc (wk_doc w) \<and> valid_doc (wk_doc_saved w) \<and>
     valid_job (wk_job w) \<and> valid_job (wk_job_saved w))"

lemma valid_write:
  "valid_doc new \<Longrightarrow> valid_doc r \<Longrightarrow> valid_doc (write_doc old new r)"
  "valid_job jnew \<Longrightarrow> valid_job j \<Longrightarrow> valid_job (write_job jold jnew j)"
  by (simp_all add: valid_doc_def valid_job_def write_doc_def write_job_def changed_def)

lemma valid_touched: "touched f \<Longrightarrow> valid_doc r \<Longrightarrow> valid_doc (f r)" "job_touched h \<Longrightarrow> valid_job j \<Longrightarrow> valid_job (h j)"
proof -
  assume f: "touched f" and r: "valid_doc r"
  have "write_doc r (f r) r = f r" using f by (simp add: touched_def)
  then have "d_file_type (f r) = d_file_type (write_doc r (f r) r)" "d_source_type (f r) = d_source_type (write_doc r (f r) r)"
    by simp_all
  then have "d_file_type (f r) = d_file_type r" "d_source_type (f r) = d_source_type r" by (simp_all add: write_doc_def)
  moreover have "d_ingestion_status (f r) \<in> insert (d_ingestion_status r) (range status_value)"
    "d_embedding_status (f r) \<in> insert (d_embedding_status r) (range emb_value)"
    using f unfolding touched_def by blast+
  ultimately show "valid_doc (f r)" using r unfolding valid_doc_def by (metis insertE)
next
  show "job_touched h \<Longrightarrow> valid_job j \<Longrightarrow> valid_job (h j)"
    unfolding valid_job_def job_touched_def by (metis insertE)
qed

lemma ok_flush_doc:
  assumes "docs_ok d" and "flush_doc old new d = Inr d'" and "valid_doc new"
  shows "docs_ok d'"
  using flush_doc_Inr [OF assms(2)] ok_update_document [OF assms(1), of "write_doc old new" "d_id new"] assms(1,3)
  by (auto simp: update_document_def valid_write)

lemma ok_flush_job:
  assumes "docs_ok d" and "flush_job old new d = Inr d'" and "valid_job new"
  shows "docs_ok d'"
proof -
  have ws: "j_workspace_id (write_job old new j) = j_workspace_id j" for j by (simp add: write_job_def)
  let ?js = "set_rows (\<lambda>r. j_id r = j_id new) (write_job old new) (ingestion_jobs d)"
  have row: "\<exists>y \<in> set (ingestion_jobs d). j_document_id j = j_document_id y \<and> j_workspace_id j = j_workspace_id y \<and>
      (valid_job y \<longrightarrow> valid_job j)" if "j \<in> set ?js" for j
    using set_rows_mem [OF that] assms(3) by (auto simp: ws valid_write split: if_splits)
  have keys: "map j_id ?js = map j_id (ingestion_jobs d)" "j_document_id ` set ?js = j_document_id ` set (ingestion_jobs d)"
    by (rule set_rows_key, simp) (rule set_rows_image, simp)
  have "docs_ok (d\<lparr>ingestion_jobs := ?js\<rparr>)"
    using assms(1) row unfolding docs_ok_def ingest_fk_def by (simp add: keys) metis
  then show ?thesis using flush_job_Inr [OF assms(2)] assms(1) by auto
qed

lemma ok_flush:
  assumes "docs_worker (d, w)" and "flush_db w d = Inr d'"
  shows "docs_worker (d', saved w)"
proof -
  obtain d1 d2 d3 where fl: "flush_doc (wk_doc_saved w) (wk_doc w) d = Inr d1"
    "flush_job (wk_job_saved w) (wk_job w) d1 = Inr d2" "insert_chunks (wk_new_chunks w) d2 = Inr d3"
    "insert_errors (wk_new_errors w) d3 = Inr d'"
    using assms(2) by (rule flush_db_Inr)
  have w: "docs_ok d" "valid_doc (wk_doc w)" "valid_job (wk_job w)" using assms(1) by (simp_all add: docs_worker_def)
  have "docs_ok d2" using ok_flush_job [OF ok_flush_doc [OF w(1) fl(1) w(2)] fl(2) w(3)] .
  moreover have "ingest_fk d'" using flush_fk [OF docs_fk [OF w(1)] assms(2)] .
  moreover have "documents d' = documents d2" "ingestion_jobs d' = ingestion_jobs d2"
    using insert_Inr(1) [OF fl(3)] insert_Inr(2) [OF fl(4)] by simp_all
  ultimately show ?thesis using w by (simp add: docs_worker_def docs_ok_def)
qed

lemma docs_worker_full:
  fixes env :: "('q, 'w, 's) ingest_env"
  assumes "\<And>n d. docs_ok d \<Longrightarrow> docs_ok (ie_others env n d)"
  shows "worker_full docs_worker env"
proof unfold_locales
  fix d d' and w :: "('q, 'w, 's) worker"
  show "docs_worker (d, w) \<Longrightarrow> flush_db w d = Inr d' \<Longrightarrow> docs_worker (d', saved w)" by (rule ok_flush)
next
  fix d chunks and w :: "('q, 'w, 's) worker"
  show "docs_worker (d, w) \<Longrightarrow>
    docs_worker (d\<lparr>document_chunks := filter (\<lambda>c. c_document_id c \<noteq> d_id (wk_doc w)) (document_chunks d)\<rparr>,
       w\<lparr>wk_new_chunks := chunk_rows (ie_chunk_id env) (wk_doc w) chunks\<rparr>)"
    by (auto simp: docs_worker_def docs_ok_def ingest_fk_def)
qed (use assms in \<open>auto simp: docs_worker_def valid_touched, auto simp: valid_doc_def\<close>)

text \<open>The worker starts in order, with the job of the document or a new one.\<close>

lemma docs_worker_start:
  assumes "docs_ok d" and "get_by d_id doc_id (documents d) = Some doc" and "latest_job doc_id d = Some job"
  shows "docs_worker (d, load_worker sv doc job)"
proof -
  have "job \<in> set (sort_key (\<lambda>j. - j_created_at j) (filter (\<lambda>j. j_document_id j = doc_id) (ingestion_jobs d)))"
    using assms(3) by (cases "sort_key (\<lambda>j. - j_created_at j) (filter (\<lambda>j. j_document_id j = doc_id) (ingestion_jobs d))")
      (simp_all add: latest_job_def)
  then have "valid_job job" using assms(1) by (simp add: docs_ok_def)
  then show ?thesis using assms(1) get_by_Some [OF assms(2)] by (simp add: docs_worker_def load_worker_def docs_ok_def)
qed

lemma docs_worker_fresh:
  assumes "docs_ok d" and "get_by d_id doc_id (documents d) = Some doc" and "get_by j_id jid (ingestion_jobs d) = None"
  shows "docs_worker (d, load_worker sv doc (new_job jid doc now)) \<and>
    docs_worker (d\<lparr>ingestion_jobs := ingestion_jobs d @ [new_job jid doc now]\<rparr>, load_worker sv doc (new_job jid doc now))"
proof -
  have doc: "valid_doc doc" using assms(1) get_by_Some [OF assms(2)] by (simp add: docs_ok_def)
  have j: "valid_job (new_job jid doc now)" by (simp add: valid_job_def new_job_def)
  have same: "d_workspace_id x = d_workspace_id doc" if "x \<in> set (documents d)" "d_id x = d_id doc" for x
    using assms(1) that get_by_Some [OF assms(2)] unfolding docs_ok_def by (metis distinct_map inj_onD)
  have "d_id doc \<in> d_id ` set (documents d)" "jid \<notin> j_id ` set (ingestion_jobs d)"
    using get_by_Some [OF assms(2)] get_by_mem [of j_id jid "ingestion_jobs d"] assms(3) by blast+
  then have "docs_ok (d\<lparr>ingestion_jobs := ingestion_jobs d @ [new_job jid doc now]\<rparr>)"
    by (intro ok_new_job [OF assms(1) j]) (simp_all add: new_job_def same)
  then show ?thesis using assms(1) doc j by (simp add: docs_worker_def load_worker_def)
qed

lemma ingest_keeps_docs:
  fixes env :: "('q, 'w, 's) ingest_env"
  assumes "\<And>n d. docs_ok d \<Longrightarrow> docs_ok (ie_others env n d)" and "docs_ok d"
    and "ingest_run env doc_id sv d = (r, sv', d')"
  shows "docs_ok d'"
proof -
  have "(sv' = sv \<and> d' = d) \<or> ((\<exists>w :: ('q, 'w, 's) worker. docs_worker (d', w)) \<and>
      (\<exists>d2 (w :: ('q, 'w, 's) worker). sv' = services.truncate w \<and> docs_worker (d2, w)))"
    by (rule worker_full.run_keeps [OF docs_worker_full [OF assms(1)] _ _ assms(3)])
      (use docs_worker_start [OF assms(2)] docs_worker_fresh [OF assms(2)] in simp_all)
  then show ?thesis using assms(2) by (auto simp: docs_worker_def)
qed

text \<open>
  What happens to the database in any order: requests of any principal, with any object store, queue,
  clock and fresh ids, and ingestions, at each commit of which the same may have happened meanwhile.
\<close>

inductive evolves :: "('q, 'w, 's) ingest_env set \<Rightarrow> db \<Rightarrow> db \<Rightarrow> bool" for E where
  start: "evolves E d d"
| request: "evolves E d d1 \<Longrightarrow> run_outside (doc_request (env :: 's doc_env) p req) (open_session d1) ou = (r, ou', d') \<Longrightarrow>
    evolves E d d'"
| ingestion: "evolves E d d1 \<Longrightarrow> env \<in> E \<Longrightarrow> (\<And>n x. evolves E x (ie_others env n x)) \<Longrightarrow>
    ingest_run env doc_id sv d1 = (r, sv', d') \<Longrightarrow> evolves E d d'"

lemma request_keeps_docs:
  "docs_ok d \<Longrightarrow> run_outside (doc_request env p req) (open_session d) ou = (r, ou', d') \<Longrightarrow>
   docs_ok d' \<and> elsewhere (p_workspace_id p) d' = elsewhere (p_workspace_id p) d"
  using run_outside_keeps [OF requests_keep [of p "elsewhere (p_workspace_id p) d" env req], of "open_session d" ou r ou' d']
  by (simp add: tenant_inv_def)

text \<open>
  However the requests of any tenants and the ingestions interleave, and wherever they fail, the
  document tables stay in order: keys unique, no chunk, job or error without its document, a job in the
  workspace of its document, and every enum column with one of its values. So listing the documents or
  asking for a job's status never fails on a stored row.
\<close>

theorem documents_stay_ok:
  assumes "docs_ok d" and "evolves E d d'"
  shows "docs_ok d' \<and> (\<forall>r \<in> set (documents d'). \<exists>v. document_view r = Inr v) \<and>
    (\<forall>j \<in> set (ingestion_jobs d'). j_status j \<in> set status_values)"
proof -
  have "docs_ok d'" using assms(2,1)
  proof (induction rule: evolves.induct)
    case (request d d1 env p req ou r ou' d')
    then show ?case using request_keeps_docs by blast
  next
    case (ingestion d d1 env doc_id sv r sv' d')
    then show ?case using ingest_keeps_docs [of env d1 doc_id sv r sv' d'] by blast
  qed
  then show ?thesis
    using valid_view enum_values(1) unfolding docs_ok_def valid_job_def by blast
qed


subsection \<open>Pages\<close>

text \<open>The order a listing promises.\<close>

definition in_order :: "(string \<Rightarrow> string) \<Rightarrow> list_query \<Rightarrow> document \<Rightarrow> document \<Rightarrow> bool" where
  "in_order coll q a b \<longleftrightarrow>
     (let a' = (if lq_order q = ''asc'' then a else b); b' = (if lq_order q = ''asc'' then b else a)
      in if lq_sort q = ''name'' then coll (d_name a') \<le> coll (d_name b')
         else if lq_sort q = ''chunk_count'' then null_last (d_chunk_count a') \<le> null_last (d_chunk_count b')
         else d_created_at a' \<le> d_created_at b')"

lemma order_by_sorted:
  "sorted_wrt (\<lambda>a b. if asc then key a \<le> key b else key b \<le> key a) (order_by key asc rows)"
  "mset (order_by key asc rows) = mset rows"
proof -
  have "sorted_wrt (\<lambda>a b. key a \<le> key b) (sort_key key xs)" for xs
    using sorted_sort_key [of key xs] by (simp only: sorted_wrt_map)
  then show "sorted_wrt (\<lambda>a b. if asc then key a \<le> key b else key b \<le> key a) (order_by key asc rows)"
    by (cases asc) (simp_all add: order_by_def sorted_wrt_rev)
qed (simp add: order_by_def)

lemma sorted_documents_order: "sorted_wrt (in_order coll q) (sorted_documents coll q rows)"
proof -
  let ?asc = "lq_order q = ''asc''"
  note order = order_by_sorted(1) [where asc = ?asc and rows = rows and key = "\<lambda>r. coll (d_name r)"]
    order_by_sorted(1) [where asc = ?asc and rows = rows and key = "\<lambda>r. null_last (d_chunk_count r)"]
    order_by_sorted(1) [where asc = ?asc and rows = rows and key = d_created_at]
  show ?thesis
    unfolding sorted_documents_def in_order_def Let_def
    using order by (cases ?asc) simp_all
qed

lemma sorted_documents_mset: "mset (sorted_documents coll q rows) = mset rows"
  by (simp add: sorted_documents_def order_by_sorted(2) Let_def)

lemma page_run:
  assumes "1 \<le> lq_limit q" and "lq_limit q \<le> 200"
  shows "fst (list_documents coll ws (q\<lparr>lq_page := int i + 1\<rparr>) s) =
    Inr (take (nat (lq_limit q)) (drop (nat (lq_limit q) * i) (sorted_documents coll q (filter (selects ws q) (documents (working s))))),
         length (filter (selects ws q) (documents (working s))))"
proof -
  have k: "lq_limit q = int (nat (lq_limit q))" "max 1 (min (lq_limit q) 200) = lq_limit q" using assms by auto
  have "selects ws (q\<lparr>lq_page := x\<rparr>) = selects ws q" "sorted_documents coll (q\<lparr>lq_page := x\<rparr>) = sorted_documents coll q" for x
    by (auto simp: selects_def sorted_documents_def fun_eq_iff Let_def cong: if_cong)
  moreover have "nat (int i * lq_limit q) = nat (lq_limit q) * i" "\<not> int i * lq_limit q < 0"
    using assms(1) by (simp_all add: nat_mult_distrib mult_less_0_iff)
  ultimately show ?thesis by (simp add: list_documents_def tx_query_def Let_def k(2))
qed


subsection \<open>Witnesses\<close>

lemma demo_docs_ok: "docs_ok demo_ingest_db"
proof -
  have "valid_doc demo_doc"
    using rangeI [of status_value Queued] rangeI [of emb_value EmbPending]
    by (simp add: valid_doc_def demo_doc_def allowed_types_def source_values_def)
  then show ?thesis by (simp add: docs_ok_def ingest_fk_def demo_ingest_db_def empty_db_def)
qed

definition demo_tagged :: "(exn + unit) \<times> fs outside \<times> db" where
  "demo_tagged = run_outside (doc_request (demo_doc_env 9) (demo_principal 2) (UpdateTags 1 [''B '']))
     (open_session demo_ingest_db) no_outside"

lemma demo_tags: "fst demo_tagged = Inr () \<and> map d_tags (documents (snd (snd demo_tagged))) = [[''b'']]"
  by code_simp

lemma documents_stay_ok_witness:
  "docs_ok (snd (snd demo_tagged)) \<and> map d_tags (documents (snd (snd demo_tagged))) = [[''b'']]"
proof -
  obtain r ou' d' where run: "demo_tagged = (r, ou', d')" by (rule prod_cases3)
  have "evolves ({} :: (string \<Rightarrow> point list, nat, fs) ingest_env set) demo_ingest_db d'"
    by (rule evolves.request [OF evolves.start run [unfolded demo_tagged_def]])
  then show ?thesis using documents_stay_ok [OF demo_docs_ok, of "{} :: (string \<Rightarrow> point list, nat, fs) ingest_env set" d'] demo_tags
    by (simp add: run)
qed


definition demo_query :: list_query where
  "demo_query = \<lparr>lq_page = 1, lq_limit = 1, lq_search = None, lq_status = None, lq_source_type = None,
     lq_file_type = None, lq_tag = None, lq_sort = ''created_at'', lq_order = ''desc''\<rparr>"


end
