(* ===== verification/Search.thy ===== *)
theory Search
  imports Chat_Laws Document_Laws
begin

text \<open>
  The retrieval API (\<^verbatim>\<open>app/api/search.py\<close>, \<^verbatim>\<open>app/schemas/search.py\<close>): \<open>/search\<close>, \<open>/context\<close> and
  \<open>/evidence\<close>, for users and API keys. The environment is that of a chat; the timings in a search
  response are left out.
\<close>

subsection \<open>Requests and results\<close>

record search_payload =
  sq_query :: string
  sq_top_k :: int
  sq_min_score :: rat
  sq_filter :: "source_type list option"

definition search_payload_ok :: "search_payload \<Rightarrow> bool" where
  "search_payload_ok q \<longleftrightarrow> 1 \<le> length (sq_query q) \<and> length (sq_query q) \<le> 2000 \<and>
     1 \<le> sq_top_k q \<and> sq_top_k q \<le> 25 \<and> 0 \<le> sq_min_score q \<and> sq_min_score q \<le> 1"

record search_result =
  sx_chunk_id :: string
  sx_document_id :: string
  sx_document_name :: string
  sx_source_type :: string
  sx_chunk_text :: string
  sx_similarity_score :: rat
  sx_section_ref :: "string option"
  sx_metadata :: payload

definition optional_string :: "pyval \<Rightarrow> exn + string option" where
  "optional_string v = (case v of PNone \<Rightarrow> Inr None | PStr s \<Rightarrow> Inr (Some s) | _ \<Rightarrow> Inl pydantic_error)"

definition source_field :: "pyval \<Rightarrow> exn + string" where
  "source_field v = (case v of PStr s \<Rightarrow> (if s \<in> set source_values then Inr s else Inl pydantic_error) | _ \<Rightarrow> Inl pydantic_error)"

text \<open>\<open>SearchResult(...)\<close> of a hit.\<close>

definition result_of_hit :: "(pyval \<Rightarrow> string) \<Rightarrow> search_hit \<Rightarrow> exn + search_result" where
  "result_of_hit rep h =
     (let p = h_payload h
      in case (source_field (dict_get ''source_type'' p (PStr ''manual_upload'')), optional_string (dict_get ''section_ref'' p PNone)) of
           (Inr src, Inr sec) \<Rightarrow>
             Inr \<lparr>sx_chunk_id = h_chunk_id h, sx_document_id = py_str rep (dict_get ''document_id'' p (PStr [])),
               sx_document_name = py_str rep (dict_get ''document_name'' p (PStr [])), sx_source_type = src,
               sx_chunk_text = py_str rep (dict_get ''chunk_text'' p (PStr [])), sx_similarity_score = round_to 4 (h_score h),
               sx_section_ref = sec, sx_metadata = filter (\<lambda>(k, v). k \<noteq> ''chunk_text'') p\<rparr>
         | _ \<Rightarrow> Inl pydantic_error)"

definition source_filter :: "search_payload \<Rightarrow> string list option" where
  "source_filter q = (case sq_filter q of None \<Rightarrow> None | Some ss \<Rightarrow> (if ss = [] then None else Some (map source_value ss)))"

subsection \<open>Routes\<close>

definition search_route ::
    "('w, 'q) chat_env \<Rightarrow> principal \<Rightarrow> search_payload \<Rightarrow> 'q vstore \<Rightarrow> 'w gateway \<Rightarrow> db \<Rightarrow>
     (exn + search_result list) \<times> 'w gateway \<times> db" where
  "search_route env p q vs gw d =
     (if \<not> search_payload_ok q then (Inl (ValidationError [Some ''payload'']), gw, d)
      else case embed (ch_cfg env) (ch_provider env) [sq_query q] (p_workspace_id p) None gw of
             (Inl e, gw') \<Rightarrow> (Inl e, gw', d)
           | (Inr [], gw') \<Rightarrow> (Inl (PyError ''IndexError'' ''list index out of range''), gw', d)
           | (Inr (vector # _), gw') \<Rightarrow>
               (case vs_search (ch_qdrant env) (p_workspace_id p) vector (sq_top_k q) (Some (sq_min_score q)) (source_filter q)
                       None vs of
                  Inl e \<Rightarrow> (Inl e, gw', d)
                | Inr hits \<Rightarrow>
                    (case get_db (tx_bind (tx_lift (res_map (result_of_hit (ch_rep env)) hits)) (\<lambda>results.
                             tx_seq (log_api_call (ch_now env) p ''/api/search'') (tx_return results))) d of
                       (r, d') \<Rightarrow> (r, gw', d'))))"

record context_payload =
  xq_query :: string
  xq_max_tokens :: int
  xq_top_k :: int

definition context_payload_ok :: "context_payload \<Rightarrow> bool" where
  "context_payload_ok q \<longleftrightarrow> 1 \<le> length (xq_query q) \<and> length (xq_query q) \<le> 2000 \<and>
     256 \<le> xq_max_tokens q \<and> xq_max_tokens q \<le> 32000 \<and> 1 \<le> xq_top_k q \<and> xq_top_k q \<le> 25"

record context_evidence =
  ce_chunk_id :: string
  ce_document_name :: string
  ce_similarity_score :: rat
  ce_section_ref :: "string option"

record context_response =
  cx_context :: string
  cx_evidence :: "context_evidence list"
  cx_token_count :: int
  cx_truncated :: bool

definition evidence_entry :: "retrieved_chunk \<Rightarrow> exn + context_evidence" where
  "evidence_entry c =
     map_sum id (\<lambda>sec. \<lparr>ce_chunk_id = rc_chunk_id c, ce_document_name = rc_document_name c,
       ce_similarity_score = round_to 4 (rc_score c), ce_section_ref = sec\<rparr>) (optional_string (rc_section_ref c))"

definition context_route ::
    "('w, 'q) chat_env \<Rightarrow> principal \<Rightarrow> context_payload \<Rightarrow> 'q vstore \<Rightarrow> graph \<Rightarrow> 'w gateway \<Rightarrow> db \<Rightarrow>
     (exn + context_response) \<times> 'w gateway \<times> db" where
  "context_route env p q vs g gw d =
     (if \<not> context_payload_ok q then (Inl (ValidationError [Some ''payload'']), gw, d)
      else case retrieve (ch_cfg env) (ch_provider env) (ch_qdrant env) (ch_rep env) (ch_graph_up env) (p_workspace_id p)
                  (xq_query q) (Some (xq_top_k q)) None None True vs g gw of
             (Inl e, gw') \<Rightarrow> (Inl e, gw', d)
           | (Inr chunks, gw') \<Rightarrow>
               (case assemble_context (ch_cfg env) (ch_tokenizer env) (ch_rep env) chunks (Some (xq_max_tokens q)) of
                  (context_str, used, n_tok, truncated) \<Rightarrow>
                    (case get_db (tx_seq (log_api_call (ch_now env) p ''/api/context'')
                            (tx_bind (tx_lift (res_map evidence_entry used)) (\<lambda>ev.
                             tx_return \<lparr>cx_context = context_str, cx_evidence = ev, cx_token_count = n_tok,
                               cx_truncated = truncated\<rparr>))) d of
                       (r, d') \<Rightarrow> (r, gw', d'))))"

definition chunk_result :: "document_chunk \<Rightarrow> document option \<Rightarrow> exn + search_result" where
  "chunk_result c doc =
     map_sum id (\<lambda>src. \<lparr>sx_chunk_id = str_uuid (c_id c), sx_document_id = str_uuid (c_document_id c),
       sx_document_name = (case doc of None \<Rightarrow> [] | Some r \<Rightarrow> d_name r), sx_source_type = src,
       sx_chunk_text = c_chunk_text c, sx_similarity_score = 1, sx_section_ref = c_section_ref c,
       sx_metadata = dict_set ''token_count'' (PInt (int (c_token_count c))) (c_metadata c)\<rparr>)
       (source_field (PStr (c_source_type c)))"

definition evidence_route :: "timestamp \<Rightarrow> principal \<Rightarrow> uuid \<Rightarrow> search_result db_tx" where
  "evidence_route now p chunk_id =
     tx_bind (tx_read (\<lambda>d. get_by c_id chunk_id (document_chunks d))) (\<lambda>chunk.
     case chunk of
       None \<Rightarrow> tx_raise (raise_app NotFoundError ''Chunk not found'')
     | Some c \<Rightarrow>
         if c_workspace_id c \<noteq> p_workspace_id p then tx_raise (raise_app NotFoundError ''Chunk not found'')
         else tx_bind (tx_read (\<lambda>d. get_by d_id (c_document_id c) (documents d))) (\<lambda>doc.
              tx_seq (log_api_call now p ''/api/evidence'') (tx_lift (chunk_result c doc))))"

subsection \<open>What a search returns\<close>

lemma res_map_map:
  "res_map f xs = Inr ys \<Longrightarrow> (\<And>x y. f x = Inr y \<Longrightarrow> g y = k x) \<Longrightarrow> map g ys = map k xs"
  by (induction xs arbitrary: ys) (auto split: sum.splits simp: map_sum_def)

lemma result_of_hitD:
  "result_of_hit rep h = Inr r \<Longrightarrow> sx_chunk_id r = h_chunk_id h \<and> sx_similarity_score r = round_to 4 (h_score h) \<and>
     dict_get ''source_type'' (h_payload h) (PStr ''manual_upload'') = PStr (sx_source_type r)"
  by (auto simp: result_of_hit_def source_field_def Let_def split: sum.splits pyval.splits if_splits)

lemma vs_search_sources:
  assumes "query_law qd pts" and "vs_search qd ws v k thr (Some srcs) docs vs = Inr hits" and "srcs \<noteq> []" and "h \<in> set hits"
  shows "\<exists>s \<in> set srcs. dict_get ''source_type'' (h_payload h) x = PStr s"
proof -
  obtain rs where rs: "qd_query qd (collection_name ws) v (must_conditions ws (Some srcs) docs) k thr (vs_server vs) = Inr rs"
    and hits: "hits = map (\<lambda>p. \<lparr>h_chunk_id = sp_id p, h_score = sp_score p,
        h_payload = (case sp_payload p of None \<Rightarrow> [] | Some d \<Rightarrow> d)\<rparr>) rs"
    using assms(2) by (auto simp: vs_search_def map_sum_def split: sum.splits)
  obtain r where r: "r \<in> set rs" "h_payload h = (case sp_payload r of None \<Rightarrow> [] | Some d \<Rightarrow> d)"
    using assms(4) hits by auto
  obtain p :: point where p: "sp_payload r = Some (p_payload p)" "list_all (\<lambda>k. cond_ok k (p_payload p)) (must_conditions ws (Some srcs) docs)"
    using query_lawD(1) [OF assms(1) rs r(1)] by blast
  from p(2) have "cond_ok (Match_Any ''source_type'' srcs) (p_payload p)"
    using assms(3) by (simp add: must_conditions_def some_list_def)
  then show ?thesis using r(2) p(1) by (auto simp: dict_get_def split: option.splits pyval.splits)
qed

lemma log_api_call_run: "get_db (tx_bind (tx_lift r) (\<lambda>x. tx_seq (log_api_call now p ep) (tx_return x))) d = (Inr y, d') \<Longrightarrow>
    r = Inr y \<and> d' = d\<lparr>api_call_logs := api_call_logs d @ (case p_api_key_id p of None \<Rightarrow> []
      | Some k \<Rightarrow> [\<lparr>l_workspace_id = p_workspace_id p, l_endpoint = ep, l_api_key_id = Some k, l_created_at = now\<rparr>])\<rparr>"
  by (auto simp: get_db_def log_api_call_def tx_simps add_call_log_def split: sum.splits option.splits if_splits)

text \<open>
  C35: A search returns what it was asked for, of its own workspace only: if the vector database obeys
  its filters, every result is a stored point of the workspace at or above the given score, of one of
  the source types asked for, at most \<open>top_k\<close> of them, none twice, the best first; and besides the log
  row of an API key's call nothing is written.
\<close>

theorem search_results_own:
  assumes "query_law (ch_qdrant env) pts" and "search_route env p q vs gw d = (Inr results, gw', d')"
  shows "(\<forall>r \<in> set results. \<exists>h. own_hit (pts (vs_server vs) (collection_name (p_workspace_id p))) (p_workspace_id p) (sq_min_score q) h \<and>
        result_of_hit (ch_rep env) h = Inr r) \<and>
    (case source_filter q of None \<Rightarrow> True | Some srcs \<Rightarrow> sx_source_type ` set results \<subseteq> set srcs) \<and>
    distinct (map sx_chunk_id results) \<and> int (length results) \<le> sq_top_k q \<and>
    sorted_wrt (\<ge>) (map sx_similarity_score results) \<and>
    d' = d\<lparr>api_call_logs := api_call_logs d @ (case p_api_key_id p of None \<Rightarrow> [] | Some k \<Rightarrow>
      [\<lparr>l_workspace_id = p_workspace_id p, l_endpoint = ''/api/search'', l_api_key_id = Some k, l_created_at = ch_now env\<rparr>])\<rparr>"
proof -
  obtain v hits where hits: "vs_search (ch_qdrant env) (p_workspace_id p) v (sq_top_k q) (Some (sq_min_score q)) (source_filter q) None vs = Inr hits"
    and log: "get_db (tx_bind (tx_lift (res_map (result_of_hit (ch_rep env)) hits)) (\<lambda>results.
        tx_seq (log_api_call (ch_now env) p ''/api/search'') (tx_return results))) d = (Inr results, d')"
    and ok: "search_payload_ok q"
    using assms(2) by (auto simp: search_route_def split: if_splits sum.splits prod.splits list.splits)
  have res: "res_map (result_of_hit (ch_rep env)) hits = Inr results" using log_api_call_run [OF log] by blast
  note own = vs_search_own [OF assms(1) hits]
  have ids: "map sx_chunk_id results = map h_chunk_id hits"
    by (rule res_map_map [OF res]) (use result_of_hitD in blast)
  have "map sx_similarity_score results = map (\<lambda>h. round_to 4 (h_score h)) hits"
    by (rule res_map_map [OF res]) (use result_of_hitD in blast)
  then have scores: "map sx_similarity_score results = map (round_to 4) (map h_score hits)" by (simp add: comp_def)
  have "sorted_wrt (\<ge>) (map (round_to 4) (map h_score hits))"
    unfolding sorted_wrt_map by (rule sorted_wrt_mono_rel [OF _ own(4) [unfolded sorted_wrt_map]]) (simp add: round_to_mono)
  moreover have "case source_filter q of None \<Rightarrow> True | Some srcs \<Rightarrow> sx_source_type ` set results \<subseteq> set srcs"
  proof (cases "source_filter q")
    case (Some srcs)
    then have ne: "srcs \<noteq> []" by (auto simp: source_filter_def split: option.splits if_splits)
    have "sx_source_type r \<in> set srcs" if r: "r \<in> set results" for r
    proof -
      obtain h where "h \<in> set hits" "result_of_hit (ch_rep env) h = Inr r" using res_map_mem [OF res r] by blast
      then show ?thesis
        using vs_search_sources [OF assms(1) hits [unfolded Some] ne, of h "PStr ''manual_upload''"] result_of_hitD by fastforce
    qed
    then show ?thesis using Some by auto
  qed simp
  moreover have "int (length results) \<le> sq_top_k q"
    using own(3) ok arg_cong [OF ids, of length] by (simp add: search_payload_ok_def)
  moreover have "\<exists>h. own_hit (pts (vs_server vs) (collection_name (p_workspace_id p))) (p_workspace_id p) (sq_min_score q) h \<and>
      result_of_hit (ch_rep env) h = Inr r" if "r \<in> set results" for r
    using res_map_mem [OF res that] own(1) by blast
  ultimately show ?thesis using own(2) log_api_call_run [OF log] unfolding ids scores by blast
qed

subsection \<open>After a deletion\<close>

lemma log_api_call_fst:
  assumes "workspaces d' = workspaces d" and "api_keys d' = api_keys d"
  shows "fst (get_db (tx_bind (tx_lift r) (\<lambda>x. tx_seq (log_api_call now p ep) (tx_return x))) d') =
    fst (get_db (tx_bind (tx_lift r) (\<lambda>x. tx_seq (log_api_call now p ep) (tx_return x))) d)"
  using assms by (auto simp: get_db_def log_api_call_def tx_simps add_call_log_def split: sum.splits option.splits)

lemma search_route_fst:
  assumes "workspaces d' = workspaces d" and "api_keys d' = api_keys d"
  shows "fst (search_route env p q vs gw d') = fst (search_route env p q vs gw d)"
  by (simp add: search_route_def case_prod_unfold log_api_call_fst [OF assms] split: sum.split list.split)

lemma delete_run: "get_db (delete_document ws doc) d = (Inr (), d') \<Longrightarrow> d' = drop_document doc d"
  by (auto simp: get_db_def delete_document_def get_owned_def tx_simps split: sum.splits option.splits if_splits)

text \<open>
  A deleted document is still found: deleting a document removes its rows only, so the same search
  gives the same results as before the deletion, the deleted text included, while asking for the evidence
  of any of its chunks is answered with 404.
\<close>

theorem deleted_document_still_found:
  assumes "get_db (delete_document ws doc) d = (Inr (), d')" and "distinct (map c_id (document_chunks d))"
    and "c \<in> set (document_chunks d)" and "c_document_id c = doc"
  shows "fst (search_route env p q vs gw d') = fst (search_route env p q vs gw d) \<and>
    get_db (evidence_route now p' (c_id c)) d' = (Inl (raise_app NotFoundError ''Chunk not found''), d')"
proof
  note d' = delete_run [OF assms(1)]
  show "fst (search_route env p q vs gw d') = fst (search_route env p q vs gw d)"
    by (rule search_route_fst) (simp_all add: d' drop_document_def)
  have "c' = c" if "c' \<in> set (document_chunks d)" "c_id c' = c_id c" for c'
    using assms(2,3) that by (auto simp: distinct_map inj_on_def)
  then have "get_by c_id (c_id c) (document_chunks d') = None"
    using assms(4) by (auto simp: d' drop_document_def get_by_None)
  then show "get_db (evidence_route now p' (c_id c)) d' = (Inl (raise_app NotFoundError ''Chunk not found''), d')"
    by (simp add: get_db_def evidence_route_def tx_simps)
qed

subsection \<open>Witnesses\<close>

definition demo_search :: "(exn + search_result list) \<times> nat gateway \<times> db" where
  "demo_search = search_route demo_chat_env (demo_principal 2)
     \<lparr>sq_query = ''q'', sq_top_k = 3, sq_min_score = 1 / 2, sq_filter = None\<rparr> (demo_vstore 2)
     (demo_gateway\<lparr>gw_world := 1\<rparr>) demo_chat_db"

lemma search_results_own_witness:
  "\<exists>r. fst demo_search = Inr [r] \<and> sx_chunk_text r = ''text'' \<and>
     (\<exists>h. own_hit (mem_points (vs_server (demo_vstore 2)) (collection_name 2)) 2 (1 / 2) h \<and> result_of_hit no_rep h = Inr r)"
proof -
  obtain results gw' d' where run: "demo_search = (results, gw', d')" by (metis surj_pair)
  have "case fst demo_search of Inr rs \<Rightarrow> map sx_chunk_text rs = [''text''] | Inl e \<Rightarrow> False" by code_simp
  then obtain r where r: "results = Inr [r]" "sx_chunk_text r = ''text''" by (auto simp: run split: sum.splits)
  have "query_law (ch_qdrant demo_chat_env) mem_points" using mem_query_law by (simp add: demo_chat_env_def)
  from search_results_own [OF this run [unfolded demo_search_def r(1)]]
  have "\<exists>h. own_hit (mem_points (vs_server (demo_vstore 2)) (collection_name 2)) 2 (1 / 2) h \<and> result_of_hit no_rep h = Inr r"
    by (simp add: demo_principal_def demo_chat_env_def)
  then show ?thesis using r by (simp add: run)
qed

definition demo_row :: document_chunk where
  "demo_row = \<lparr>c_id = 6, c_document_id = 1, c_workspace_id = 2, c_chunk_index = 0, c_chunk_text = ''text'', c_token_count = 1,
     c_section_ref = None, c_source_type = ''manual_upload'', c_metadata = []\<rparr>"

lemma deleted_document_still_found_witness:
  "get_db (evidence_route 0 (demo_principal 2) 6) (snd (get_db (delete_document 2 1)
     (demo_chat_db\<lparr>documents := [demo_doc], document_chunks := [demo_row]\<rparr>)))
   = (Inl (raise_app NotFoundError ''Chunk not found''), demo_chat_db)"
proof -
  let ?d = "demo_chat_db\<lparr>documents := [demo_doc], document_chunks := [demo_row]\<rparr>"
  have run: "get_db (delete_document 2 1) ?d = (Inr (), demo_chat_db)" by code_simp
  from deleted_document_still_found [OF run, where c = demo_row and now = 0 and p' = "demo_principal 2" and
      env = demo_chat_env and p = "demo_principal 2" and q = "\<lparr>sq_query = ''q'', sq_top_k = 3, sq_min_score = 0, sq_filter = None\<rparr>" and vs = "demo_vstore 2" and gw = demo_gateway]
  have "get_db (evidence_route 0 (demo_principal 2) (c_id demo_row)) demo_chat_db =
      (Inl (raise_app NotFoundError ''Chunk not found''), demo_chat_db)" by (simp add: demo_row_def)
  then show ?thesis unfolding run by (simp add: demo_row_def)
qed

end
