(* ===== verification/Chat_Stream.thy ===== *)
theory Chat_Stream
  imports Chat
begin

text \<open>
  The event stream of a chat as its reader sees it: the frames are separated by blank lines, whatever
  text the model produced, and a JSON reader gets every token back.
\<close>

subsection \<open>Reading JSON strings\<close>

text \<open>The inside of a JSON string, as a JSON reader decodes it.\<close>

function json_unescape :: "string \<Rightarrow> string" where
  "json_unescape s =
     (case s of
        [] \<Rightarrow> []
      | c # r \<Rightarrow>
          if c \<noteq> CHR 0x5C then c # json_unescape r
          else if r = [] then []
          else if hd r = CHR ''u''
          then char_of (foldl (\<lambda>n x. 16 * n + (case hex_val x of None \<Rightarrow> 0 | Some k \<Rightarrow> k)) 0 (take 4 (tl r))) # json_unescape (drop 5 r)
          else (if hd r = CHR ''n'' then CHR 0x0A else if hd r = CHR ''r'' then CHR 0x0D
                else if hd r = CHR ''t'' then CHR 0x09 else if hd r = CHR ''b'' then CHR 0x08
                else if hd r = CHR ''f'' then CHR 0x0C else hd r) # json_unescape (tl r))"
  by pat_completeness auto
termination
  by (relation "measure length") auto

declare json_unescape.simps [simp del]

lemma json_unescape_Nil [simp]: "json_unescape [] = []"
  by (simp add: json_unescape.simps)

lemma unescape_escape: "json_unescape (json_escape c @ rest) = c # json_unescape rest"
proof -
  let ?n = "of_char c :: nat"
  have same: "?n = of_char x \<Longrightarrow> c = x" for x by (simp only: of_char_eq_iff)
  consider (plain) "32 \<le> ?n" "?n \<le> 126" "?n \<noteq> 34" "?n \<noteq> 92" | (quoted) "?n = 34 \<or> ?n = 92"
    | (short) "?n \<in> {8, 9, 10, 12, 13}" | (unicode) "?n \<notin> {8, 9, 10, 12, 13}" "?n < 32 \<or> 126 < ?n"
    by (cases "?n = 34 \<or> ?n = 92"; cases "?n \<in> {8, 9, 10, 12, 13}"; cases "32 \<le> ?n \<and> ?n \<le> 126")
      (simp_all only: not_le de_Morgan_conj de_Morgan_disj, blast+)
  then show ?thesis
  proof cases
    case plain
    then have "c \<noteq> CHR 0x5C" by auto
    with plain show ?thesis by (simp add: json_escape_def Let_def json_unescape.simps [of "c # rest"])
  next
    case quoted
    then have "?n = of_char CHR 0x22 \<or> ?n = of_char CHR 0x5C" by simp
    then have "c \<in> {CHR 0x22, CHR 0x5C}" using same by blast
    then show ?thesis by (auto simp: json_escape_def json_unescape.simps [of "CHR 0x5C # _"])
  next
    case short
    then have "?n = of_char CHR 0x08 \<or> ?n = of_char CHR 0x09 \<or> ?n = of_char CHR 0x0A \<or> ?n = of_char CHR 0x0C \<or> ?n = of_char CHR 0x0D"
      by simp
    then have "c \<in> {CHR 0x08, CHR 0x09, CHR 0x0A, CHR 0x0C, CHR 0x0D}" using same by blast
    then show ?thesis by (auto simp: json_escape_def json_unescape.simps [of "CHR 0x5C # _"])
  next
    case unicode
    have "?n < 256" by simp
    then have d: "?n div 16 < 16" "?n mod 16 < 16" by linarith+
    have "json_escape c = CHR 0x5C # ''u00'' @ [hex_char (?n div 16), hex_char (?n mod 16)]"
      using unicode by (auto simp: json_escape_def Let_def)
    then show ?thesis
      using hex_val_char [OF d(1)] hex_val_char [OF d(2)]
      by (simp add: json_unescape.simps [of "CHR 0x5C # _"] hex_val_def)
  qed
qed

lemma unescape_string: "json_unescape (concat (map json_escape s)) = s"
  by (induction s) (simp_all add: unescape_escape)

subsection \<open>Frames\<close>

lemma hex_char_no_newline: "d < 16 \<Longrightarrow> hex_char d \<noteq> CHR 0x0A"
proof
  assume "d < 16" "hex_char d = CHR 0x0A"
  then have "(of_char (hex_char d) :: nat) = 10" by simp
  then show False using of_hex_char [OF \<open>d < 16\<close>] by (auto split: if_splits)
qed

lemma json_escape_no_newline: "CHR 0x0A \<notin> set (json_escape c)"
proof -
  have "(of_char c :: nat) < 256" by simp
  then have d: "(of_char c :: nat) div 16 < 16" "(of_char c :: nat) mod 16 < 16" by linarith+
  show ?thesis using hex_char_no_newline [OF d(1)] hex_char_no_newline [OF d(2)]
    by (auto simp: json_escape_def Let_def)
qed

lemma json_string_no_newline: "CHR 0x0A \<notin> set (json_string s)"
  by (simp add: json_string_def json_escape_no_newline)

lemma set_py_join: "c \<in> set (py_join sep xs) \<Longrightarrow> c \<in> set sep \<or> (\<exists>x \<in> set xs. c \<in> set x)"
  by (induction sep xs rule: py_join.induct) auto

lemma str_int_no_newline: "CHR 0x0A \<notin> set (str_int i)"
proof -
  have "CHR 0x0A \<notin> set (nat_digits n)" for n
  proof (induction n rule: nat_digits.induct)
    case (1 n)
    have digit: "CHR 0x0A \<noteq> char_of (48 + k)" if "k < 10" for k :: nat
      using hex_char_no_newline [of k] that by (auto simp: hex_char_def)
    show ?case
    proof (cases "n < 10")
      case True
      then show ?thesis using digit [of n] by (subst nat_digits.simps) simp
    next
      case False
      then show ?thesis using digit [of "n mod 10"] 1 by (subst nat_digits.simps) simp
    qed
  qed
  then show ?thesis by (simp add: str_int_def)
qed

lemma dumps_no_newline:
  assumes "\<And>x. CHR 0x0A \<notin> set (frepr x)"
  shows "CHR 0x0A \<notin> set (json_dumps frepr v)"
    and "x \<in> set (json_values frepr vs) \<Longrightarrow> CHR 0x0A \<notin> set x"
    and "y \<in> set (json_items frepr d) \<Longrightarrow> CHR 0x0A \<notin> set y"
  using assms
proof (induction frepr v and frepr vs and frepr d arbitrary: and x and y rule: json_dumps_json_values_json_items.induct)
qed (auto simp: str_int_no_newline json_string_no_newline dest!: set_py_join)

lemma split_at_blank:
  assumes "CHR 0x0A \<notin> set line"
  shows "split_sep_acc [CHR 0x0A, CHR 0x0A] acc (line @ CHR 0x0A # CHR 0x0A # rest) =
    (rev acc @ line) # split_sep_acc [CHR 0x0A, CHR 0x0A] [] rest"
  using assms
proof (induction line arbitrary: acc)
  case Nil
  then show ?case by (subst split_sep_acc.simps) (simp add: startswith_def)
next
  case (Cons x line)
  then show ?case by (subst split_sep_acc.simps) (auto simp: startswith_def)
qed

definition frame_line :: "(rat \<Rightarrow> string) \<Rightarrow> frame \<Rightarrow> string" where
  "frame_line frepr f = ''data: '' @ json_dumps frepr (frame_json f)"

text \<open>
  C34: The event stream cannot be broken by what it carries: cut at the blank lines, its body is exactly
  one \<open>data:\<close> line per frame, whatever text the model, the documents or the names hold, and the text
  of a token, decoded as a JSON string, is the token.
\<close>

theorem event_stream_frames:
  assumes "\<And>x. CHR 0x0A \<notin> set (frepr x)"
  shows "py_split [CHR 0x0A, CHR 0x0A] (event_stream frepr frames) = map (frame_line frepr) frames @ [[]] \<and>
    frame_line frepr (Token t) = ''data: {\"type\": \"token\", \"text\": \"'' @ concat (map json_escape t) @ ''\"}'' \<and>
    json_unescape (concat (map json_escape t)) = t"
proof -
  have line: "CHR 0x0A \<notin> set (frame_line frepr f)" for f
    using dumps_no_newline(1) [OF assms] by (simp add: frame_line_def)
  have "py_split [CHR 0x0A, CHR 0x0A] (event_stream frepr frames) = map (frame_line frepr) frames @ [[]]"
  proof (induction frames)
    case Nil
    then show ?case by (simp add: event_stream_def py_split_def split_sep_acc.simps)
  next
    case (Cons f frames)
    have "event_stream frepr (f # frames) = frame_line frepr f @ CHR 0x0A # CHR 0x0A # event_stream frepr frames"
      by (simp add: event_stream_def frame_line_def)
    then show ?case using Cons split_at_blank [OF line, of "[]"] by (simp add: py_split_def)
  qed
  moreover have "frame_line frepr (Token t) = ''data: {\"type\": \"token\", \"text\": \"'' @ concat (map json_escape t) @ ''\"}''"
    by (simp add: frame_line_def json_string_def json_escape_def)
  ultimately show ?thesis by (simp add: unescape_string)
qed

lemma event_stream_frames_witness:
  "py_split [CHR 0x0A, CHR 0x0A] (event_stream (\<lambda>_. ''0.5'') [Token [CHR ''a'', CHR 0x0A, CHR 0x0A, CHR ''b''], failed_frame])
     = [''data: {\"type\": \"token\", \"text\": \"a'' @ [CHR 0x5C] @ ''n'' @ [CHR 0x5C] @ ''nb\"}'',
        ''data: {\"type\": \"error\", \"message\": \"Failed to generate an answer.\"}'', []]"
proof -
  have "CHR 0x0A \<notin> set ''0.5''" by simp
  from event_stream_frames [of "\<lambda>_. ''0.5''", OF this, of "[Token [CHR ''a'', CHR 0x0A, CHR 0x0A, CHR ''b''], failed_frame]"]
  show ?thesis by (simp add: frame_line_def failed_frame_def json_string_def json_escape_def)
qed

end
