(* ===== verification/Google_Drive.thy ===== *)
theory Google_Drive
  imports Security
begin

text \<open>
  The Google Drive adapter (\<^verbatim>\<open>app/connectors/google_drive.py\<close>): the signed OAuth state, the
  consent URL, the calls to Google's REST API and the encryption of refresh tokens. HTTP, HMAC-SHA256,
  SHA-256 and Fernet are parameters; the transport acts on a world of its own.
\<close>

record http_response =
  hr_status :: nat
  hr_json :: "exn + pyval"
  hr_content :: bytes

record 'h http =
  ht_post :: "string \<Rightarrow> (string \<times> string) list \<Rightarrow> 'h \<Rightarrow> (exn + http_response) \<times> 'h"
  ht_get :: "string \<Rightarrow> (string \<times> string) list \<Rightarrow> (string \<times> string) list \<Rightarrow> 'h \<Rightarrow> (exn + http_response) \<times> 'h"

text \<open>Fernet takes a key, what it makes of randomness and the clock, and the text.\<close>

record drive_crypto =
  dc_hmac :: "string \<Rightarrow> string \<Rightarrow> bytes"
  dc_sha256 :: "string \<Rightarrow> bytes"
  dc_encrypt :: "string \<Rightarrow> nat \<Rightarrow> string \<Rightarrow> string"
  dc_decrypt :: "string \<Rightarrow> string \<Rightarrow> exn + string"

definition fernet_law :: "drive_crypto \<Rightarrow> bool" where
  "fernet_law dc \<longleftrightarrow> (\<forall>key nonce t. dc_decrypt dc key (dc_encrypt dc key nonce t) = Inr t)"

definition scopes :: "string list" where
  "scopes = [''https://www.googleapis.com/auth/drive.readonly'']"

definition auth_endpoint :: string where "auth_endpoint = ''https://accounts.google.com/o/oauth2/v2/auth''"
definition token_endpoint :: string where "token_endpoint = ''https://oauth2.googleapis.com/token''"
definition drive_endpoint :: string where "drive_endpoint = ''https://www.googleapis.com/drive/v3''"
definition folder_mime :: string where "folder_mime = ''application/vnd.google-apps.folder''"

definition is_configured :: "settings \<Rightarrow> bool" where
  "is_configured cfg \<longleftrightarrow> google_client_id cfg \<noteq> [] \<and> google_redirect_uri cfg \<noteq> []"

subsection \<open>The signed state\<close>

definition state_mac :: "settings \<Rightarrow> drive_crypto \<Rightarrow> string \<Rightarrow> string" where
  "state_mac cfg dc connector_id = take 16 (concat (map hex_byte (dc_hmac dc (secret_key cfg) connector_id)))"

definition sign_state :: "settings \<Rightarrow> drive_crypto \<Rightarrow> string \<Rightarrow> string" where
  "sign_state cfg dc connector_id = connector_id @ ''.'' @ state_mac cfg dc connector_id"

text \<open>\<open>hmac.compare_digest\<close> takes strings of ASCII characters only.\<close>

definition is_ascii :: "string \<Rightarrow> bool" where
  "is_ascii s \<longleftrightarrow> list_all (\<lambda>c. (of_char c :: nat) < 128) s"

definition compare_digest :: "string \<Rightarrow> string \<Rightarrow> exn + bool" where
  "compare_digest a b =
     (if is_ascii a \<and> is_ascii b then Inr (a = b)
      else Inl (PyError ''TypeError'' ''comparing strings with non-ASCII characters is not supported''))"

definition verify_state :: "settings \<Rightarrow> drive_crypto \<Rightarrow> string \<Rightarrow> exn + string option" where
  "verify_state cfg dc state =
     (case py_partition CHR ''.'' state of (connector_id, sig) \<Rightarrow>
        if sig = [] then Inr None
        else case compare_digest sig (state_mac cfg dc connector_id) of
               Inl e \<Rightarrow> Inl e
             | Inr same \<Rightarrow> Inr (if same then Some connector_id else None))"

subsection \<open>The consent URL\<close>

text \<open>\<open>urlencode\<close>: a space is a plus, unreserved characters stay, others are their UTF-8 bytes in hex.\<close>

definition unreserved :: "char \<Rightarrow> bool" where
  "unreserved c \<longleftrightarrow>
     (let n = (of_char c :: nat)
      in (48 \<le> n \<and> n \<le> 57) \<or> (65 \<le> n \<and> n \<le> 90) \<or> (97 \<le> n \<and> n \<le> 122) \<or>
         c = CHR ''_'' \<or> c = CHR ''.'' \<or> c = CHR ''-'' \<or> c = CHR ''~'')"

definition hex_upper :: "nat \<Rightarrow> char" where
  "hex_upper d = (if d < 10 then char_of (48 + d) else char_of (55 + d))"

definition percent_byte :: "nat \<Rightarrow> string" where
  "percent_byte b = [CHR ''%'', hex_upper (b div 16 mod 16), hex_upper (b mod 16)]"

definition quote_char :: "char \<Rightarrow> string" where
  "quote_char c =
     (let n = (of_char c :: nat)
      in if c = CHR '' '' then ''+'' else if unreserved c then [c]
         else if n < 128 then percent_byte n else percent_byte (192 + n div 64) @ percent_byte (128 + n mod 64))"

definition quote_plus :: "string \<Rightarrow> string" where
  "quote_plus s = concat (map quote_char s)"

definition urlencode :: "(string \<times> string) list \<Rightarrow> string" where
  "urlencode items = py_join ''&'' (map (\<lambda>(k, v). quote_plus k @ ''='' @ quote_plus v) items)"

definition build_auth_url :: "settings \<Rightarrow> drive_crypto \<Rightarrow> string \<Rightarrow> string" where
  "build_auth_url cfg dc connector_id =
     auth_endpoint @ ''?'' @ urlencode
       [(''client_id'', google_client_id cfg), (''redirect_uri'', google_redirect_uri cfg),
        (''response_type'', ''code''), (''scope'', py_join '' '' scopes), (''access_type'', ''offline''),
        (''prompt'', ''consent''), (''state'', sign_state cfg dc connector_id)]"

subsection \<open>Calls\<close>

definition raise_for_status :: "exn + http_response \<Rightarrow> exn + http_response" where
  "raise_for_status r =
     (case r of
        Inl e \<Rightarrow> Inl e
      | Inr resp \<Rightarrow> (if 200 \<le> hr_status resp \<and> hr_status resp < 300 then Inr resp
                     else Inl (PyError ''HTTPStatusError'' [])))"

definition response_json :: "exn + http_response \<Rightarrow> exn + pyval" where
  "response_json r = (case raise_for_status r of Inl e \<Rightarrow> Inl e | Inr resp \<Rightarrow> hr_json resp)"

text \<open>\<open>value.get(key, default)\<close> of a JSON value.\<close>

definition json_get :: "string \<Rightarrow> pyval \<Rightarrow> pyval \<Rightarrow> exn + pyval" where
  "json_get key v dflt =
     (case v of PDict d \<Rightarrow> Inr (dict_get key d dflt) | _ \<Rightarrow> Inl (PyError ''AttributeError'' ''get''))"

definition exchange_code :: "settings \<Rightarrow> 'h http \<Rightarrow> string \<Rightarrow> 'h \<Rightarrow> (exn + pyval) \<times> 'h" where
  "exchange_code cfg http code h =
     (case ht_post http token_endpoint
         [(''code'', code), (''client_id'', google_client_id cfg), (''client_secret'', google_client_secret cfg),
          (''redirect_uri'', google_redirect_uri cfg), (''grant_type'', ''authorization_code'')] h of
        (r, h') \<Rightarrow> (response_json r, h'))"

definition refresh_access_token ::
    "settings \<Rightarrow> 'h http \<Rightarrow> (pyval \<Rightarrow> string) \<Rightarrow> string \<Rightarrow> 'h \<Rightarrow> (exn + string) \<times> 'h" where
  "refresh_access_token cfg http rep refresh_token h =
     (case ht_post http token_endpoint
         [(''refresh_token'', refresh_token), (''client_id'', google_client_id cfg),
          (''client_secret'', google_client_secret cfg), (''grant_type'', ''refresh_token'')] h of
        (r, h') \<Rightarrow>
          (case response_json r of
             Inl e \<Rightarrow> Inl e
           | Inr (PDict d) \<Rightarrow> (case map_of d ''access_token'' of
                None \<Rightarrow> Inl (PyError ''KeyError'' ''access_token'') | Some v \<Rightarrow> Inr (py_str rep v))
           | Inr _ \<Rightarrow> Inl (PyError ''TypeError'' []), h'))"

definition bearer_header :: "string \<Rightarrow> (string \<times> string) list" where
  "bearer_header access_token = [(''Authorization'', ''Bearer '' @ access_token)]"

definition list_files :: "'h http \<Rightarrow> string \<Rightarrow> string option \<Rightarrow> 'h \<Rightarrow> (exn + pyval list) \<times> 'h" where
  "list_files http access_token folder_id h =
     (let q = (case folder_id of
                 Some f \<Rightarrow> (if f \<noteq> [] then CHR 0x27 # f @ [CHR 0x27] @ '' in parents and trashed = false''
                           else ''trashed = false and mimeType != '' @ [CHR 0x27] @ folder_mime @ [CHR 0x27])
               | None \<Rightarrow> ''trashed = false and mimeType != '' @ [CHR 0x27] @ folder_mime @ [CHR 0x27])
      in case ht_get http (drive_endpoint @ ''/files'')
           [(''q'', q), (''fields'', ''files(id,name,mimeType)''), (''pageSize'', ''200''), (''orderBy'', ''modifiedTime desc''),
            (''corpora'', ''allDrives''), (''includeItemsFromAllDrives'', ''true''), (''supportsAllDrives'', ''true'')]
           (bearer_header access_token) h of
         (r, h') \<Rightarrow>
           (case response_json r of
              Inl e \<Rightarrow> Inl e
            | Inr v \<Rightarrow> (case json_get ''files'' v (PList []) of
                Inl e \<Rightarrow> Inl e
              | Inr (PList items) \<Rightarrow> Inr items
              | Inr _ \<Rightarrow> Inl (PyError ''TypeError'' [])), h'))"

definition get_metadata :: "'h http \<Rightarrow> string \<Rightarrow> string \<Rightarrow> 'h \<Rightarrow> (exn + pyval) \<times> 'h" where
  "get_metadata http access_token file_id h =
     (case ht_get http (drive_endpoint @ ''/files/'' @ file_id) [(''fields'', ''id,name,mimeType,size,modifiedTime'')]
         (bearer_header access_token) h of
        (r, h') \<Rightarrow> (response_json r, h'))"

definition download_file :: "'h http \<Rightarrow> string \<Rightarrow> string \<Rightarrow> 'h \<Rightarrow> (exn + bytes) \<times> 'h" where
  "download_file http access_token file_id h =
     (case ht_get http (drive_endpoint @ ''/files/'' @ file_id) [(''alt'', ''media'')] (bearer_header access_token) h of
        (r, h') \<Rightarrow> (case raise_for_status r of Inl e \<Rightarrow> Inl e | Inr resp \<Rightarrow> Inr (hr_content resp), h'))"

subsection \<open>Refresh tokens at rest\<close>

definition urlsafe :: "string \<Rightarrow> string" where
  "urlsafe s = map (\<lambda>c. if c = CHR ''+'' then CHR ''-'' else if c = CHR ''/'' then CHR ''_'' else c) s"

definition fernet_key :: "settings \<Rightarrow> drive_crypto \<Rightarrow> string" where
  "fernet_key cfg dc = urlsafe (b64encode (dc_sha256 dc (secret_key cfg)))"

definition encrypt_token :: "settings \<Rightarrow> drive_crypto \<Rightarrow> nat \<Rightarrow> string \<Rightarrow> string" where
  "encrypt_token cfg dc nonce token = dc_encrypt dc (fernet_key cfg dc) nonce token"

definition decrypt_token :: "settings \<Rightarrow> drive_crypto \<Rightarrow> string \<Rightarrow> exn + string" where
  "decrypt_token cfg dc blob = dc_decrypt dc (fernet_key cfg dc) blob"

subsection \<open>What a state proves\<close>

lemma hex_char_ascii: "d < 16 \<Longrightarrow> (of_char (hex_char d) :: nat) < 128"
  by (simp add: of_hex_char)

lemma mac_ascii: "is_ascii (state_mac cfg dc connector_id)"
  by (auto simp: state_mac_def is_ascii_def list_all_iff hex_byte_def hex_char_ascii dest!: in_set_takeD)

lemma mac_nonempty: "dc_hmac dc (secret_key cfg) c \<noteq> [] \<Longrightarrow> state_mac cfg dc c \<noteq> []"
  by (cases "dc_hmac dc (secret_key cfg) c") (simp_all add: state_mac_def hex_byte_def)

lemma str_uuid_no_dot: "CHR ''.'' \<notin> set (str_uuid u)"
  by (rule str_uuid_free) simp_all

lemma partition_at: "CHR ''.'' \<notin> set c \<Longrightarrow> py_partition CHR ''.'' (c @ CHR ''.'' # t) = (c, t)"
proof -
  assume "CHR ''.'' \<notin> set c"
  then have "\<forall>x \<in> set c. x \<noteq> CHR ''.''" by auto
  then show "py_partition CHR ''.'' (c @ CHR ''.'' # t) = (c, t)"
    by (simp add: py_partition_def takeWhile_append2 dropWhile_append2)
qed

lemma verify_sign:
  assumes "\<And>key msg. dc_hmac dc key msg \<noteq> []" and "CHR ''.'' \<notin> set c"
  shows "verify_state cfg dc (sign_state cfg dc c) = Inr (Some c)"
  using partition_at [OF assms(2), of "state_mac cfg dc c"] mac_nonempty [OF assms(1)] mac_ascii
  by (simp add: verify_state_def sign_state_def compare_digest_def)

lemmas verify_signed = verify_sign [OF _ str_uuid_no_dot]

text \<open>
  The OAuth callback accepts exactly the states this server signed: for an HMAC that is never empty,
  a state verifies to a connector id if and only if it is that id's signed state, and the signed state
  of every connector's UUID verifies.
\<close>

theorem oauth_state_sound:
  assumes "\<And>key msg. dc_hmac dc key msg \<noteq> []"
  shows "(verify_state cfg dc state = Inr (Some connector_id) \<longleftrightarrow>
      state = sign_state cfg dc connector_id \<and> CHR ''.'' \<notin> set connector_id) \<and>
    verify_state cfg dc (sign_state cfg dc (str_uuid u)) = Inr (Some (str_uuid u))"
proof -
  note sign = verify_sign [where dc = dc and cfg = cfg, OF assms]
  have "state = sign_state cfg dc connector_id \<and> CHR ''.'' \<notin> set connector_id"
    if "verify_state cfg dc state = Inr (Some connector_id)"
  proof -
    let ?c = "takeWhile (\<lambda>x. x \<noteq> CHR ''.'') state"
    let ?rest = "dropWhile (\<lambda>x. x \<noteq> CHR ''.'') state"
    have c: "connector_id = ?c" and sig: "tl ?rest = state_mac cfg dc ?c" "tl ?rest \<noteq> []"
      using that by (auto simp: verify_state_def py_partition_def compare_digest_def split: if_splits)
    have "?rest \<noteq> []" using sig(2) by (cases ?rest) simp_all
    then have "hd ?rest = CHR ''.''" using hd_dropWhile [of "\<lambda>x. x \<noteq> CHR ''.''" state] by simp
    then have "?rest = CHR ''.'' # state_mac cfg dc ?c"
      using \<open>?rest \<noteq> []\<close> sig(1) by (metis list.collapse)
    then have "state = ?c @ CHR ''.'' # state_mac cfg dc ?c"
      using takeWhile_dropWhile_id [of "\<lambda>x. x \<noteq> CHR ''.''" state] by simp
    moreover have "CHR ''.'' \<notin> set ?c" by (auto dest: set_takeWhileD)
    ultimately show ?thesis unfolding c sign_state_def by simp
  qed
  then show ?thesis using sign str_uuid_no_dot by blast
qed

lemma oauth_state_sound_witness:
  "verify_state default_settings \<lparr>dc_hmac = (\<lambda>k m. [7]), dc_sha256 = (\<lambda>s. [1]), dc_encrypt = (\<lambda>k n t. t), dc_decrypt = (\<lambda>k t. Inr t)\<rparr>
     (sign_state default_settings \<lparr>dc_hmac = (\<lambda>k m. [7]), dc_sha256 = (\<lambda>s. [1]), dc_encrypt = (\<lambda>k n t. t), dc_decrypt = (\<lambda>k t. Inr t)\<rparr>
        (str_uuid 5)) = Inr (Some (str_uuid 5))"
  using oauth_state_sound [of "\<lparr>dc_hmac = (\<lambda>k m. [7]), dc_sha256 = (\<lambda>s. [1]), dc_encrypt = (\<lambda>k n t. t), dc_decrypt = (\<lambda>k t. Inr t)\<rparr>"]
  by simp

end
