(* ===== verification/Connectors.thy ===== *)
theory Connectors
  imports Documents Google_Drive
begin

text \<open>
  Connectors (\<^verbatim>\<open>app/services/connector_service.py\<close>, \<^verbatim>\<open>app/api/connectors.py\<close>): the
  cards of a workspace, the OAuth handshake, browsing, and the sync of chosen Drive files into documents.
  A request has its database session and, beside it, the object store with the queue and the HTTP world.
\<close>

subsection \<open>State and environment\<close>

type_synonym ('s, 'h, 'a) ctx = "((db \<times> 's outside) \<times> 'h, exn, 'a) tx"

text \<open>The fresh ids of a sync are indexed by the position of the file.\<close>

record ('s, 'h) conn_env =
  ce_cfg :: settings
  ce_storage :: "'s storage_adapter"
  ce_broker_up :: bool
  ce_doc_id :: "nat \<Rightarrow> uuid"
  ce_job_id :: "nat \<Rightarrow> uuid"
  ce_drive_card :: uuid
  ce_onedrive_card :: uuid
  ce_now :: timestamp
  ce_http :: "'h http"
  ce_crypto :: drive_crypto
  ce_nonce :: nat
  ce_rep :: "pyval \<Rightarrow> string"

definition file_env :: "('s, 'h) conn_env \<Rightarrow> nat \<Rightarrow> 's doc_env" where
  "file_env env n = \<lparr>de_cfg = ce_cfg env, de_storage = ce_storage env, de_broker_up = ce_broker_up env,
     de_doc_id = ce_doc_id env n, de_job_id = ce_job_id env n, de_now = ce_now env, de_rep = ce_rep env\<rparr>"

definition with_docs :: "('s, 'a) dtx \<Rightarrow> ('s, 'h, 'a) ctx" where
  "with_docs m = (\<lambda>s. case m \<lparr>committed = fst (committed s), working = fst (working s)\<rparr> of
     (r, t) \<Rightarrow> (r, \<lparr>committed = (committed t, snd (working s)), working = (working t, snd (working s))\<rparr>))"

abbreviation with_db :: "'a db_tx \<Rightarrow> ('s, 'h, 'a) ctx" where
  "with_db m \<equiv> with_docs (on_db m)"

definition on_http :: "('h \<Rightarrow> (exn + 'a) \<times> 'h) \<Rightarrow> ('s, 'h, 'a) ctx" where
  "on_http f = (\<lambda>s. case f (snd (working s)) of (r, h) \<Rightarrow> (r, s\<lparr>working := (fst (working s), h)\<rparr>))"

definition run_connector ::
    "('s, 'h, 'a) ctx \<Rightarrow> db \<Rightarrow> 's outside \<Rightarrow> 'h \<Rightarrow> (exn + 'a) \<times> 'h \<times> 's outside \<times> db" where
  "run_connector m d ou h =
     (case m (open_session ((d, ou), h)) of
        (Inl e, t) \<Rightarrow> (Inl e, snd (working t), snd (fst (working t)), fst (fst (committed t)))
      | (Inr x, t) \<Rightarrow> (Inr x, snd (working t), snd (fst (working t)), fst (fst (working t))))"

subsection \<open>Cards\<close>

definition add_connector :: "connector \<Rightarrow> db \<Rightarrow> exn + db" where
  "add_connector r d =
     (if get_by cn_id (cn_id r) (connectors d) \<noteq> None \<or> get_by w_id (cn_workspace_id r) (workspaces d) = None
      then Inl (integrity_error ''connectors'') else Inr (d\<lparr>connectors := connectors d @ [r]\<rparr>))"

definition cards :: "uuid \<Rightarrow> db \<Rightarrow> connector list" where
  "cards workspace_id d = filter (\<lambda>c. cn_workspace_id c = workspace_id) (connectors d)"

definition default_card :: "uuid \<Rightarrow> uuid \<Rightarrow> connector_type \<Rightarrow> connector" where
  "default_card new_id workspace_id t =
     \<lparr>cn_id = new_id, cn_workspace_id = workspace_id, cn_type = conn_type_value t,
      cn_name = (case t of CT_GoogleDrive \<Rightarrow> ''Google Drive'' | CT_OneDrive \<Rightarrow> ''OneDrive''),
      cn_status = conn_status_value (case t of CT_GoogleDrive \<Rightarrow> Disconnected | CT_OneDrive \<Rightarrow> ComingSoon),
      cn_last_synced_at = None, cn_last_sync_document_count = None\<rparr>"

definition ensure_default_connectors :: "('s, 'h) conn_env \<Rightarrow> uuid \<Rightarrow> unit db_tx" where
  "ensure_default_connectors env workspace_id =
     tx_bind (tx_read (\<lambda>d. cn_type ` set (cards workspace_id d))) (\<lambda>have'.
     tx_seq (if conn_type_value CT_GoogleDrive \<notin> have'
             then tx_update (add_connector (default_card (ce_drive_card env) workspace_id CT_GoogleDrive)) else tx_return ())
     (tx_seq (if conn_type_value CT_OneDrive \<notin> have'
             then tx_update (add_connector (default_card (ce_onedrive_card env) workspace_id CT_OneDrive)) else tx_return ())
     tx_commit))"

definition list_connectors :: "('s, 'h) conn_env \<Rightarrow> uuid \<Rightarrow> connector list db_tx" where
  "list_connectors env workspace_id = tx_seq (ensure_default_connectors env workspace_id) (tx_read (cards workspace_id))"

definition get_connector :: "uuid \<Rightarrow> uuid \<Rightarrow> connector db_tx" where
  "get_connector workspace_id connector_id =
     tx_query (\<lambda>d. case get_by cn_id connector_id (connectors d) of
       None \<Rightarrow> Inl (raise_app NotFoundError ''Connector not found'')
     | Some c \<Rightarrow> (if cn_workspace_id c \<noteq> workspace_id then Inl (raise_app NotFoundError ''Connector not found'') else Inr c))"

definition set_connector :: "uuid \<Rightarrow> (connector \<Rightarrow> connector) \<Rightarrow> db \<Rightarrow> db" where
  "set_connector connector_id f d = d\<lparr>connectors := set_rows (\<lambda>c. cn_id c = connector_id) f (connectors d)\<rparr>"

subsection \<open>OAuth\<close>

text \<open>\<open>Inr (Some url)\<close>: the browser goes there; \<open>Inr None\<close>: not connected.\<close>

definition start_oauth :: "('s, 'h) conn_env \<Rightarrow> uuid \<Rightarrow> connector_type \<Rightarrow> string option db_tx" where
  "start_oauth env workspace_id conn_type =
     tx_seq (ensure_default_connectors env workspace_id)
     (tx_bind (tx_query (\<lambda>d. one_or_none (filter (\<lambda>c. cn_type c = conn_type_value conn_type) (cards workspace_id d)))) (\<lambda>c.
      case c of
        None \<Rightarrow> tx_raise (raise_app NotFoundError ''Connector not found'')
      | Some connector \<Rightarrow>
          tx_return (if conn_type = CT_GoogleDrive \<and> cn_status connector \<noteq> conn_status_value ComingSoon \<and>
                        is_configured (ce_cfg env)
                     then Some (build_auth_url (ce_cfg env) (ce_crypto env) (str_uuid (cn_id connector))) else None)))"

definition credential_of :: "uuid \<Rightarrow> db \<Rightarrow> exn + connector_credential option" where
  "credential_of connector_id d = one_or_none (filter (\<lambda>c. cc_connector_id c = connector_id) (connector_credentials d))"

definition save_credential :: "uuid \<Rightarrow> string option \<Rightarrow> db \<Rightarrow> db" where
  "save_credential connector_id encrypted d =
     d\<lparr>connector_credentials := merge_row (\<lambda>c. cc_connector_id c = connector_id)
        (\<lambda>c. c\<lparr>cc_encrypted_refresh_token := (case encrypted of None \<Rightarrow> cc_encrypted_refresh_token c | Some b \<Rightarrow> Some b),
               cc_scopes := Some (py_join '' '' scopes)\<rparr>)
        \<lparr>cc_connector_id = connector_id, cc_encrypted_refresh_token = encrypted, cc_scopes = Some (py_join '' '' scopes)\<rparr>
        (connector_credentials d)\<rparr>"

text \<open>What the token response makes of the stored token: a refresh token is encrypted, none keeps the old.\<close>

definition fresh_credential :: "('s, 'h) conn_env \<Rightarrow> pyval \<Rightarrow> exn + string option" where
  "fresh_credential env tokens =
     (case json_get ''refresh_token'' tokens PNone of
        Inl e \<Rightarrow> Inl e
      | Inr v \<Rightarrow> if \<not> py_truthy v then Inr None
          else case v of PStr t \<Rightarrow> Inr (Some (encrypt_token (ce_cfg env) (ce_crypto env) (ce_nonce env) t))
               | _ \<Rightarrow> Inl (PyError ''AttributeError'' ''encode''))"

definition complete_oauth :: "('s, 'h) conn_env \<Rightarrow> string \<Rightarrow> string \<Rightarrow> ('s, 'h, uuid) ctx" where
  "complete_oauth env code state =
     tx_bind (tx_lift (verify_state (ce_cfg env) (ce_crypto env) state)) (\<lambda>verified.
     case verified of
       None \<Rightarrow> tx_raise (raise_code BadRequestError ''Invalid OAuth state'' ''INVALID_OAUTH_STATE'')
     | Some cid \<Rightarrow>
       (case parse_uuid cid of
          None \<Rightarrow> tx_raise (PyError ''ValueError'' ''badly formed hexadecimal UUID string'')
        | Some connector_id \<Rightarrow>
          tx_bind (with_db (tx_read (\<lambda>d. get_by cn_id connector_id (connectors d)))) (\<lambda>row.
          case row of
            None \<Rightarrow> tx_raise (raise_app NotFoundError ''Connector not found'')
          | Some connector \<Rightarrow>
              tx_bind (on_http (exchange_code (ce_cfg env) (ce_http env) code)) (\<lambda>tokens.
              tx_bind (with_db (tx_query (credential_of connector_id))) (\<lambda>_.
              tx_bind (tx_lift (fresh_credential env tokens)) (\<lambda>encrypted.
              tx_seq (with_db (tx_modify (save_credential connector_id encrypted)))
              (tx_seq (with_db (tx_modify (set_connector connector_id (\<lambda>c. c\<lparr>cn_status := conn_status_value Connected,
                 cn_last_synced_at := (case cn_last_synced_at c of None \<Rightarrow> Some (ce_now env) | Some t \<Rightarrow> Some t)\<rparr>))))
              (tx_seq (with_db tx_commit) (tx_return connector_id))))))))) "

definition access_token :: "('s, 'h) conn_env \<Rightarrow> uuid \<Rightarrow> ('s, 'h, string option) ctx" where
  "access_token env connector_id =
     tx_bind (with_db (tx_query (credential_of connector_id))) (\<lambda>cred.
     case nonempty (case cred of None \<Rightarrow> None | Some c \<Rightarrow> cc_encrypted_refresh_token c) of
       None \<Rightarrow> tx_return None
     | Some blob \<Rightarrow>
         tx_bind (tx_lift (decrypt_token (ce_cfg env) (ce_crypto env) blob)) (\<lambda>refresh.
         tx_bind (on_http (refresh_access_token (ce_cfg env) (ce_http env) (ce_rep env) refresh)) (\<lambda>t. tx_return (Some t))))"

subsection \<open>Browsing\<close>

record folder_node =
  fn_id :: string
  fn_name :: string
  fn_type :: string
  fn_mime_type :: "string option"

text \<open>An item is a dict with an id; its fields must be strings.\<close>

definition string_field :: "pyval \<Rightarrow> exn + string" where
  "string_field v = (case v of PStr s \<Rightarrow> Inr s | _ \<Rightarrow> Inl pydantic_error)"

definition string_or_none :: "pyval \<Rightarrow> exn + string option" where
  "string_or_none v = (case v of PStr s \<Rightarrow> Inr (Some s) | PNone \<Rightarrow> Inr None | _ \<Rightarrow> Inl pydantic_error)"

definition folder_node :: "pyval \<Rightarrow> exn + folder_node" where
  "folder_node item =
     (case item of
        PDict d \<Rightarrow>
          (case map_of d ''id'' of
             None \<Rightarrow> Inl (PyError ''KeyError'' ''id'')
           | Some i \<Rightarrow>
             res_bind (string_field i) (\<lambda>i.
             res_bind (string_field (dict_get ''name'' d (PStr []))) (\<lambda>name.
             res_bind (string_or_none (dict_get ''mimeType'' d PNone)) (\<lambda>mime.
             Inr \<lparr>fn_id = i, fn_name = name, fn_type = (if mime = Some folder_mime then ''folder'' else ''file''),
                  fn_mime_type = mime\<rparr>))))
      | _ \<Rightarrow> Inl (PyError ''TypeError'' []))"

definition not_authorized :: "string \<Rightarrow> exn" where
  "not_authorized msg = raise_code BadRequestError msg ''CONNECTOR_NOT_AUTHORIZED''"

definition get_folders :: "('s, 'h) conn_env \<Rightarrow> uuid \<Rightarrow> uuid \<Rightarrow> ('s, 'h, folder_node list) ctx" where
  "get_folders env workspace_id connector_id =
     tx_bind (with_db (get_connector workspace_id connector_id)) (\<lambda>connector.
     tx_bind (access_token env (cn_id connector)) (\<lambda>t.
     case t of
       None \<Rightarrow> tx_raise (not_authorized ''Google Drive is not authorized. Please reconnect the connector.'')
     | Some tok \<Rightarrow>
         tx_bind (on_http (list_files (ce_http env) tok None)) (\<lambda>items. tx_lift (res_map folder_node items))))"

subsection \<open>Sync\<close>

definition already_synced :: "uuid \<Rightarrow> string \<Rightarrow> db \<Rightarrow> bool" where
  "already_synced workspace_id external_id d \<longleftrightarrow>
     (\<exists>r \<in> set (documents d). d_workspace_id r = workspace_id \<and> d_external_document_id r = Some external_id)"

text \<open>\<open>int(s)\<close>: white space around, a sign, digits with single underscores between them.\<close>

fun dec_run :: "bool \<Rightarrow> nat \<Rightarrow> string \<Rightarrow> nat option" where
  "dec_run after_digit acc [] = (if after_digit then Some acc else None)"
| "dec_run after_digit acc (c # cs) =
     (if c = CHR ''_'' then (if after_digit then dec_run False acc cs else None)
      else let n = (of_char c :: nat)
           in if 48 \<le> n \<and> n \<le> 57 then dec_run True (10 * acc + (n - 48)) cs else None)"

definition int_base10 :: "string \<Rightarrow> int option" where
  "int_base10 s =
     (let t = py_strip s;
          neg = startswith t ''-'';
          u = (if neg \<or> startswith t ''+'' then tl t else t)
      in map_option (\<lambda>n. if neg then - int n else int n) (dec_run False 0 u))"

definition truncate_rat :: "rat \<Rightarrow> int" where
  "truncate_rat x = (if x < 0 then - \<lfloor>- x\<rfloor> else \<lfloor>x\<rfloor>)"

definition py_int :: "pyval \<Rightarrow> exn + int" where
  "py_int v =
     (case v of
        PInt i \<Rightarrow> Inr i
      | PBool b \<Rightarrow> Inr (if b then 1 else 0)
      | PFloat x \<Rightarrow> Inr (truncate_rat x)
      | PStr s \<Rightarrow> (case int_base10 s of None \<Rightarrow> Inl (PyError ''ValueError'' ''invalid literal for int()'') | Some i \<Rightarrow> Inr i)
      | _ \<Rightarrow> Inl (PyError ''TypeError'' []))"

text \<open>\<open>meta.get("name") or fid\<close>; Drive's names and types are strings.\<close>

definition drive_name :: "string \<Rightarrow> pyval \<Rightarrow> exn + string" where
  "drive_name fid meta =
     res_bind (json_get ''name'' meta PNone) (\<lambda>v.
     if \<not> py_truthy v then Inr fid
     else case v of PStr s \<Rightarrow> Inr s | _ \<Rightarrow> Inl (PyError ''TypeError'' []))"

definition drive_size :: "pyval \<Rightarrow> exn + int" where
  "drive_size meta = res_bind (json_get ''size'' meta PNone) (\<lambda>v. if \<not> py_truthy v then Inr 0 else py_int v)"

definition drive_mime :: "pyval \<Rightarrow> exn + string option" where
  "drive_mime meta =
     res_bind (json_get ''mimeType'' meta PNone) (\<lambda>v.
     case v of PStr s \<Rightarrow> Inr (Some s) | PNone \<Rightarrow> Inr None | _ \<Rightarrow> Inl (PyError ''DBAPIError'' []))"

text \<open>
  What a file comes to. A flush that fails rolls the session back and leaves it unusable
  (\<open>FileFailed True\<close>); any other exception is caught with the session as it was.
\<close>

datatype file_outcome = FileCreated | FileSkipped | FileFailed bool

definition catch_file :: "('s, 'h, file_outcome) ctx \<Rightarrow> ('s, 'h, file_outcome) ctx" where
  "catch_file m = (\<lambda>s. case m s of (Inl e, t) \<Rightarrow> (Inr (FileFailed False), t) | (Inr x, t) \<Rightarrow> (Inr x, t))"

definition sync_fields :: "uuid \<Rightarrow> string \<Rightarrow> string \<Rightarrow> string \<Rightarrow> string \<Rightarrow> string option \<Rightarrow> bytes \<Rightarrow> doc_fields" where
  "sync_fields connector_id fid name path file_type mime data =
     \<lparr>df_name = name, df_filename = name, df_file_type = file_type, df_source_type = source_value GoogleDrive,
      df_size_bytes = int (length data), df_storage_path = Some path, df_mime_type = mime, df_tags = [],
      df_uploaded_by = ''Connector sync'', df_uploaded_by_id = None, df_connector_id = Some connector_id,
      df_external_id = Some fid\<rparr>"

definition create_synced ::
    "('s, 'h) conn_env \<Rightarrow> nat \<Rightarrow> uuid \<Rightarrow> doc_fields \<Rightarrow> ('s, 'h, file_outcome) ctx" where
  "create_synced env n workspace_id f = (\<lambda>s.
     case with_docs (create_queued_document (file_env env n) workspace_id f) s of
       (Inr _, t) \<Rightarrow> (Inr FileCreated, t)
     | (Inl e, t) \<Rightarrow> (Inr (FileFailed True),
         t\<lparr>working := ((fst (fst (committed t)), snd (fst (working t))), snd (working t))\<rparr>))"

definition sync_file ::
    "('s, 'h) conn_env \<Rightarrow> uuid \<Rightarrow> uuid \<Rightarrow> string \<Rightarrow> nat \<Rightarrow> string \<Rightarrow> ('s, 'h, file_outcome) ctx" where
  "sync_file env workspace_id connector_id tok n fid = catch_file (
     tx_bind (with_db (tx_read (already_synced workspace_id fid))) (\<lambda>have'.
     if have' then tx_return FileSkipped
     else tx_bind (on_http (get_metadata (ce_http env) tok fid)) (\<lambda>meta.
          tx_bind (tx_lift (drive_name fid meta)) (\<lambda>name.
          tx_bind (tx_lift (drive_size meta)) (\<lambda>sz.
          if sz > max_upload_bytes (ce_cfg env) then tx_return FileSkipped
          else case detect_file_type name None of
                 Inl _ \<Rightarrow> tx_return FileSkipped
               | Inr file_type \<Rightarrow>
                   tx_bind (on_http (download_file (ce_http env) tok fid)) (\<lambda>data.
                   let path = build_path (str_uuid workspace_id) (str_uuid (ce_doc_id env n)) name
                   in tx_seq (with_docs (on_storage (sa_save_bytes (ce_storage env) path data)))
                      (tx_bind (tx_lift (drive_mime meta)) (\<lambda>mime.
                       create_synced env n workspace_id (sync_fields connector_id fid name path file_type mime data)))))))))"

text \<open>In an unusable session every query raises, so every later file fails.\<close>

fun sync_loop ::
    "('s, 'h) conn_env \<Rightarrow> uuid \<Rightarrow> uuid \<Rightarrow> string \<Rightarrow> nat \<Rightarrow> string list \<Rightarrow> bool \<Rightarrow> ('s, 'h, file_outcome list \<times> bool) ctx" where
  "sync_loop env workspace_id connector_id tok n [] broken = tx_return ([], broken)"
| "sync_loop env workspace_id connector_id tok n (fid # fids) broken =
     tx_bind (if broken then tx_return (FileFailed True) else sync_file env workspace_id connector_id tok n fid) (\<lambda>x.
     tx_bind (sync_loop env workspace_id connector_id tok (n + 1) fids (broken \<or> x = FileFailed True)) (\<lambda>(xs, b).
     tx_return (x # xs, b)))"

record sync_result =
  sr_requested :: nat
  sr_created :: nat
  sr_skipped :: nat
  sr_failed :: nat

definition tally :: "file_outcome list \<Rightarrow> sync_result" where
  "tally xs =
     \<lparr>sr_requested = length xs, sr_created = length (filter (\<lambda>x. x = FileCreated) xs),
      sr_skipped = length (filter (\<lambda>x. x = FileSkipped) xs),
      sr_failed = length (filter (\<lambda>x. x \<noteq> FileCreated \<and> x \<noteq> FileSkipped) xs)\<rparr>"

definition sync :: "('s, 'h) conn_env \<Rightarrow> uuid \<Rightarrow> uuid \<Rightarrow> string list \<Rightarrow> ('s, 'h, sync_result) ctx" where
  "sync env workspace_id connector_id file_ids =
     tx_bind (with_db (get_connector workspace_id connector_id)) (\<lambda>connector.
     if cn_type connector \<noteq> conn_type_value CT_GoogleDrive
     then tx_raise (raise_code BadRequestError ''Sync is only supported for Google Drive'' ''UNSUPPORTED'')
     else tx_bind (access_token env connector_id) (\<lambda>t.
       case t of
         None \<Rightarrow> tx_raise (not_authorized ''Connector is not authorized'')
       | Some tok \<Rightarrow>
           tx_bind (sync_loop env workspace_id connector_id tok 0 file_ids False) (\<lambda>(xs, broken).
           if broken then tx_raise (PyError ''PendingRollbackError'' [])
           else tx_seq (with_db (tx_modify (set_connector connector_id (\<lambda>c. c\<lparr>cn_last_synced_at := Some (ce_now env),
                  cn_last_sync_document_count := Some (int (sr_created (tally xs)))\<rparr>))))
                (tx_seq (with_db tx_commit) (tx_return (tally xs))))))"

definition disconnect :: "uuid \<Rightarrow> uuid \<Rightarrow> unit db_tx" where
  "disconnect workspace_id connector_id =
     tx_bind (get_connector workspace_id connector_id) (\<lambda>connector.
     tx_seq (if cn_status connector \<noteq> conn_status_value ComingSoon
             then tx_modify (set_connector connector_id (\<lambda>c. c\<lparr>cn_status := conn_status_value Disconnected,
                    cn_last_synced_at := None, cn_last_sync_document_count := None\<rparr>))
             else tx_return ())
     tx_commit)"

subsection \<open>Routes\<close>

text \<open>\<open>_to_out\<close> and the response model: the type and the status must be values of their enums.\<close>

definition connector_view :: "connector \<Rightarrow> exn + connector" where
  "connector_view c =
     (if cn_type c \<notin> {conn_type_value CT_GoogleDrive, conn_type_value CT_OneDrive}
      then Inl (PyError ''ValueError'' (cn_type c))
      else if cn_status c \<notin> conn_status_value ` {Connected, Disconnected, ComingSoon} then Inl pydantic_error
      else Inr c)"

definition list_connectors_route :: "('s, 'h) conn_env \<Rightarrow> crypto \<Rightarrow> string option \<Rightarrow> connector list db_tx" where
  "list_connectors_route env cy creds =
     tx_bind (get_current_user (ce_cfg env) cy (ce_now env) creds) (\<lambda>p.
     tx_bind (list_connectors env (p_workspace_id p)) (\<lambda>rows. tx_lift (res_map connector_view rows)))"

definition start_oauth_route :: "('s, 'h) conn_env \<Rightarrow> crypto \<Rightarrow> string option \<Rightarrow> connector_type \<Rightarrow> string option db_tx" where
  "start_oauth_route env cy creds conn_type =
     tx_bind (require_admin (ce_cfg env) cy (ce_now env) creds) (\<lambda>p. start_oauth env (p_workspace_id p) conn_type)"

definition list_folders_route :: "('s, 'h) conn_env \<Rightarrow> crypto \<Rightarrow> string option \<Rightarrow> uuid \<Rightarrow> ('s, 'h, folder_node list) ctx" where
  "list_folders_route env cy creds connector_id =
     tx_bind (with_db (get_current_user (ce_cfg env) cy (ce_now env) creds)) (\<lambda>p. get_folders env (p_workspace_id p) connector_id)"

definition sync_route :: "('s, 'h) conn_env \<Rightarrow> crypto \<Rightarrow> string option \<Rightarrow> uuid \<Rightarrow> string list \<Rightarrow> ('s, 'h, sync_result) ctx" where
  "sync_route env cy creds connector_id file_ids =
     tx_bind (with_db (require_admin (ce_cfg env) cy (ce_now env) creds)) (\<lambda>p. sync env (p_workspace_id p) connector_id file_ids)"

definition disconnect_route :: "('s, 'h) conn_env \<Rightarrow> crypto \<Rightarrow> string option \<Rightarrow> uuid \<Rightarrow> unit db_tx" where
  "disconnect_route env cy creds connector_id =
     tx_bind (require_admin (ce_cfg env) cy (ce_now env) creds) (\<lambda>p. disconnect (p_workspace_id p) connector_id)"

text \<open>The callback has no principal: the state names the connector. The answer is a redirect.\<close>

definition oauth_callback :: "('s, 'h) conn_env \<Rightarrow> string \<Rightarrow> string \<Rightarrow> ('s, 'h, string) ctx" where
  "oauth_callback env code state =
     tx_bind (complete_oauth env code state) (\<lambda>connector_id.
     tx_return (rev (dropWhile (\<lambda>c. c = CHR ''/'') (rev (frontend_url (ce_cfg env)))) @
       ''/settings/connectors?connected='' @ str_uuid connector_id))"

end
