(* ===== verification/Text_Ingestion.thy ===== *)
theory Text_Ingestion
  imports Document_Laws
begin

text \<open>
  A text from the request that brings it to the document it becomes: the route stores it and queues
  the document, the worker reads the same bytes back, chunks them and completes the document.
\<close>

subsection \<open>Texts have no section references\<close>

definition plain_state :: "chunk_state \<Rightarrow> bool" where
  "plain_state st \<longleftrightarrow> cs_ref st = None \<and> (\<forall>c \<in> set (cs_out st). ch_ref c = None)"

lemma emit_plain: "\<forall>c \<in> set (cs_out st). ch_ref c = None \<Longrightarrow>
  cs_ref (emit_pieces enc None ps st) = cs_ref st \<and> (\<forall>c \<in> set (cs_out (emit_pieces enc None ps st)). ch_ref c = None)"
proof (induction ps arbitrary: st)
  case (Cons x ps)
  let ?st = "st\<lparr>cs_out := cs_out st @ [\<lparr>ch_index = cs_idx st, ch_text = x, ch_tokens = count_tokens enc x,
      ch_ref = None, ch_rows = None\<rparr>], cs_idx := cs_idx st + 1\<rparr>"
  have "\<forall>c \<in> set (cs_out ?st). ch_ref c = None" using Cons.prems by auto
  from Cons.IH [OF this] show ?case by simp
qed simp

lemma flush_plain: "plain_state st \<Longrightarrow> plain_state (flush enc (cs_ref st) st)"
  using emit_plain [of st enc "split_tokens enc (cs_buffer st)"] by (auto simp: plain_state_def flush_def)

lemma step_plain: "sec_ref sec = None \<Longrightarrow> plain_state st \<Longrightarrow> plain_state (section_step enc st sec)"
  using flush_plain [of st enc] by (auto simp: section_step_def plain_state_def ref_or_def Let_def)

lemma merge_plain: "\<forall>c \<in> set out. ch_ref c = None \<Longrightarrow> \<forall>c \<in> set (merge_trailing enc out). ch_ref c = None"
proof (cases "2 \<le> length out")
  case True
  assume out: "\<forall>c \<in> set out. ch_ref c = None"
  obtain ys a b where "out = ys @ [a, b]" using two_last [OF True] by blast
  then show ?thesis using out by (simp add: merge_trailing_def Let_def butlast_append)
qed (simp add: merge_trailing_def)

lemma text_short_refs: "\<forall>sec \<in> set (pd_sections parsed). sec_ref sec = None \<Longrightarrow> short_refs (chunk_text enc parsed)"
proof -
  assume secs: "\<forall>sec \<in> set (pd_sections parsed). sec_ref sec = None"
  have fold: "plain_state (foldl (section_step enc) st secs)" if "\<forall>sec \<in> set secs. sec_ref sec = None" "plain_state st" for secs st
    using that by (induction secs arbitrary: st) (auto intro: step_plain)
  have plain: "\<forall>c \<in> set (chunk_sections enc secs). ch_ref c = None" if "\<forall>sec \<in> set secs. sec_ref sec = None" for secs
  proof -
    have "plain_state (foldl (section_step enc) \<lparr>cs_out = [], cs_idx = 0, cs_buffer = [], cs_ref = None\<rparr> secs)"
      by (rule fold [OF that]) (simp add: plain_state_def)
    from flush_plain [OF this] show ?thesis by (simp add: chunk_sections_def Let_def plain_state_def)
  qed
  have "\<forall>c \<in> set (chunk_text enc parsed). ch_ref c = None"
    unfolding chunk_text_def
    by (rule merge_plain, cases "pd_sections parsed = []") (use plain [OF secs] in simp, rule plain, simp, use plain [OF secs] in simp)
  then show ?thesis by (simp add: short_refs_def list_all_iff)
qed

lemma txt_sections: "\<forall>sec \<in> set (pd_sections (parse_txt text)). sec_ref sec = None"
  by (auto simp: parse_txt_def Let_def)

lemma txt_chunked: "chunk_parsed enc (parse_txt text) = Inr (chunk_text enc (parse_txt text))"
  by (simp add: chunk_parsed_def parse_txt_def Let_def default_parsed_def)

subsection \<open>An accepted text\<close>

lemma create_Inr:
  assumes "create_queued_document env ws f s = (Inr (doc, job), s')"
  shows "doc = new_document (de_doc_id env) (de_now env) ws f \<and> job = new_job (de_job_id env) doc (de_now env) \<and>
    get_by d_id (d_id doc) (documents (fst (working s))) = None \<and>
    get_by j_id (j_id job) (ingestion_jobs (fst (working s))) = None \<and>
    working s' = ((fst (working s))\<lparr>documents := documents (fst (working s)) @ [doc],
        ingestion_jobs := ingestion_jobs (fst (working s)) @ [job]\<rparr>,
      if de_broker_up env then (snd (working s))\<lparr>ou_queue := ou_queue (snd (working s)) @ [d_id doc]\<rparr> else snd (working s))"
  using assms
  by (auto simp: create_queued_document_def Let_def tx_simps on_db_bind enqueue_def add_document_def add_job_def
      case_prod_unfold split: sum.splits if_splits)

lemma utf8_Nil: "utf8 s = [] \<longleftrightarrow> s = []"
  by (cases s) (auto simp: Let_def)

text \<open>The document of a text.\<close>

definition text_fields :: "'s doc_env \<Rightarrow> uuid \<Rightarrow> string \<Rightarrow> string \<Rightarrow> string list \<Rightarrow> string \<Rightarrow> doc_fields" where
  "text_fields env ws content title tags uploader =
     \<lparr>df_name = title, df_filename = title @ ''.txt'', df_file_type = ''txt'', df_source_type = source_value ApiPush,
      df_size_bytes = int (length (utf8 content)),
      df_storage_path = Some (build_path (str_uuid ws) (str_uuid (de_doc_id env)) (title @ ''.txt'')), df_mime_type = None,
      df_tags = tags, df_uploaded_by = uploader, df_uploaded_by_id = None, df_connector_id = None, df_external_id = None\<rparr>"

lemma log_working: "log_api_call now p endpoint s = (r, s') \<Longrightarrow>
  working s' = working s \<or> (\<exists>l. working s' = (working s)\<lparr>api_call_logs := l\<rparr>)"
  by (auto simp: log_api_call_def tx_update_def add_call_log_def tx_return_def split: option.splits if_splits sum.splits)

lemma on_db_result: "on_db m s = (r, s') \<Longrightarrow> \<exists>t0 t. m t0 = (r, t) \<and> working t0 = fst (working s) \<and>
    working s' = (working t, snd (working s))"
  by (auto simp: on_db_def case_prod_unfold) (metis prod.collapse session.select_convs(2))

lemma uploader_state: "uploader_name p s = (r, s') \<Longrightarrow> s' = s"
  by (auto simp: uploader_name_def tx_return_def tx_read_def split: option.splits)

text \<open>What an accepted text leaves: its bytes stored, its document and job added, its message queued.\<close>

lemma text_accepted:
  fixes env :: "fs doc_env"
  assumes "de_storage env = local_storage base"
    and "run_outside (ingest_text_route env content title tags p) (open_session d) ou = (Inr (doc_id, job_id, status), ou', d')"
  obtains uploader doc job where
    "doc = new_document (de_doc_id env) (de_now env) (p_workspace_id p) (text_fields env (p_workspace_id p) content title tags uploader)"
    "job = new_job (de_job_id env) doc (de_now env)" "doc_id = d_id doc" "job_id = j_id job" "content \<noteq> []"
    "get_by d_id (d_id doc) (documents d) = None" "get_by j_id (j_id job) (ingestion_jobs d) = None"
    "documents d' = documents d @ [doc]" "ingestion_jobs d' = ingestion_jobs d @ [job]"
    "document_chunks d' = document_chunks d"
    "ou_queue ou' = (if de_broker_up env then ou_queue ou @ [doc_id] else ou_queue ou)"
    "ou_storage ou' (resolve base (build_path (str_uuid (p_workspace_id p)) (str_uuid (de_doc_id env)) (title @ ''.txt''))) =
       Some (utf8 content)"
proof -
  let ?ws = "p_workspace_id p" and ?s = "\<lparr>committed = (d, ou), working = (d, ou)\<rparr>"
  let ?path = "build_path (str_uuid ?ws) (str_uuid (de_doc_id env)) (title @ ''.txt'')"
  obtain s5 where run: "ingest_text_route env content title tags p ?s = (Inr (doc_id, job_id, status), s5)"
    and s5: "working s5 = (d', ou')"
    using assms(2) by (auto simp: run_outside_def open_session_def split: prod.splits sum.splits)
  have len: "content \<noteq> []" and run1: "ingest_text_with env content title tags ''/api/ingest/text'' p ?s = (Inr (doc_id, job_id, status), s5)"
    using run by (auto simp: ingest_text_route_def str_len_ok_def tx_raise_def split: if_splits)
  obtain s1 uploader s2 doc job s3 s4 where
    s1: "tx_lift (ensure_write_scope p) ?s = (Inr (), s1)" and
    s2: "on_db (uploader_name p) s1 = (Inr uploader, s2)" and
    s3: "ingest_text env ?ws content title tags uploader s2 = (Inr (doc, job), s3)" and
    s4: "on_db (log_api_call (de_now env) p ''/api/ingest/text'') s3 = (Inr (), s4)" and
    ids: "doc_id = d_id doc" "job_id = j_id job" "s5 = s4"
    using run1 unfolding ingest_text_with_def tx_seq_def
    by (auto dest!: tx_bind_InrD simp: tx_return_def split: prod.splits)
  have w2: "working s2 = (d, ou)"
    using s1 on_db_result [OF s2] by (auto simp: tx_lift_def dest: uploader_state)
  have "ingest_text env ?ws content title tags uploader s2 = create_queued_document env ?ws
      (text_fields env ?ws content title tags uploader)
      (s2\<lparr>working := (d, ou\<lparr>ou_storage := (ou_storage ou)(resolve base ?path \<mapsto> utf8 content)\<rparr>)\<rparr>)"
    using w2 assms(1)
    by (simp add: ingest_text_def Let_def tx_bind_def on_storage_def local_storage_def local_save_bytes_def text_fields_def)
  note created = create_Inr [OF s3 [unfolded this], simplified]
  obtain l where w4: "working s4 = working s3 \<or> working s4 = ((fst (working s3))\<lparr>api_call_logs := l\<rparr>, snd (working s3))"
    using on_db_result [OF s4] by (auto dest!: log_working) (metis prod.collapse)+
  show ?thesis
    by (rule that [of doc uploader job]) (use created w4 s5 ids len in \<open>auto split: if_splits\<close>)
qed

subsection \<open>From the request to the chunks\<close>

lemma queued_alone:
  assumes "docs_ok d" and "get_by d_id (d_id doc) (documents d) = None" and "get_by j_id (j_id job) (ingestion_jobs d) = None"
    and "documents d1 = documents d @ [doc]" "ingestion_jobs d1 = ingestion_jobs d @ [job]" "document_chunks d1 = document_chunks d"
    and "j_document_id job = d_id doc"
  shows "get_by d_id (d_id doc) (documents d1) = Some doc"
    and "distinct (map j_id (ingestion_jobs d1))"
    and "latest_job (d_id doc) d1 = Some job"
    and "filter (\<lambda>c. c_document_id c \<noteq> d_id doc) (document_chunks d1) = document_chunks d"
proof -
  have no_old: "d_id doc \<notin> d_id ` set (documents d)" using assms(2) by (metis get_by_mem)
  have job_fk: "j_document_id j \<noteq> d_id doc" if "j \<in> set (ingestion_jobs d)" for j
    using docs_fk [OF assms(1)] no_old that unfolding ingest_fk_def by (metis image_eqI subsetD)
  have chunk_fk: "c_document_id c \<noteq> d_id doc" if "c \<in> set (document_chunks d)" for c
    using docs_fk [OF assms(1)] no_old that unfolding ingest_fk_def by (metis image_eqI subsetD)
  show "get_by d_id (d_id doc) (documents d1) = Some doc"
    using assms(2) by (simp add: assms(4) get_by_append)
  show "distinct (map j_id (ingestion_jobs d1))"
    using assms(1,3) get_by_mem [of j_id "j_id job" "ingestion_jobs d"] by (simp add: docs_ok_def assms(5))
  have "filter (\<lambda>j. j_document_id j = d_id doc) (ingestion_jobs d) = []"
    using job_fk by (simp add: filter_empty_conv)
  then show "latest_job (d_id doc) d1 = Some job" by (simp add: latest_job_def assms(5,7))
  show "filter (\<lambda>c. c_document_id c \<noteq> d_id doc) (document_chunks d1) = document_chunks d"
    using chunk_fk by (simp add: assms(6) filter_id_conv)
qed


subsection \<open>Witness\<close>

definition demo_text_env :: "(string \<Rightarrow> point list, nat, fs) ingest_env" where
  "demo_text_env =
     \<lparr>ie_cfg = default_settings,
      ie_provider = demo_provider\<lparr>pv_embed := (\<lambda>m xs n.
        (Inr \<lparr>er_vectors = map (\<lambda>_. [1]) xs, er_prompt_tokens = 1, er_total_tokens = 1\<rparr>, n))\<rparr>,
      ie_json_loads = (\<lambda>_. Inl (PyError ''ValueError'' [])), ie_rep = (\<lambda>_. []),
      ie_float = (\<lambda>_. Inl (PyError ''ValueError'' [])), ie_decode = (\<lambda>_. ''hi''),
      ie_docling = None, ie_tokenizer = None, ie_sha256 = (\<lambda>_. [1]),
      ie_qdrant = mem_qdrant, ie_graph_up = (\<lambda>_. False), ie_storage = local_storage ''/data'',
      ie_chunk_id = of_nat, ie_job_id = 7, ie_now = 5, ie_others = (\<lambda>n d. d)\<rparr>"

lemma demo_text_answers: "services_answer demo_text_env"
  using demo_answers by (simp add: services_answer_def demo_text_env_def demo_ingest_env_def)

lemma demo_text_accepted:
  "case run_outside (ingest_text_route (demo_doc_env 9) ''hi'' ''n'' [] (demo_principal 3)) (open_session demo_two_workspaces) no_outside of
     (Inr (i, j, st), ou', d1) \<Rightarrow> i = 9 \<and> j = 9 \<and> get_by j_id 7 (ingestion_jobs d1) = None | _ \<Rightarrow> False"
proof -
  have route: "ingest_text_route (demo_doc_env 9) ''hi'' ''n'' [] (demo_principal 3) =
      ingest_text_with (demo_doc_env 9) ''hi'' ''n'' [] ''/api/ingest/text'' (demo_principal 3)"
    by (simp add: ingest_text_route_def str_len_ok_def)
  show ?thesis unfolding route by code_simp
qed


end
