(* ===== verification/Connector_Laws.thy ===== *)
theory Connector_Laws
  imports Connectors Text_Ingestion
begin

text \<open>
  What connectors promise: a sync never duplicates a Drive file and counts every requested one, the
  OAuth handshake ends in a credential that works; and where they fall short: one file the database
  refuses ends the whole sync, and disconnecting does not take the access away.
\<close>

subsection \<open>Running parts of a request\<close>

abbreviation the_db :: "(db \<times> 's outside) \<times> 'h \<Rightarrow> db" where "the_db w \<equiv> fst (fst w)"

text \<open>The session has nothing pending: what it sees is what is committed.\<close>

definition clean :: "((db \<times> 's outside) \<times> 'h) session \<Rightarrow> bool" where
  "clean s \<longleftrightarrow> the_db (committed s) = the_db (working s)"

lemma with_db_bind:
  "tx_bind (with_db (tx_read f)) k1 s = k1 (f (the_db (working s)))
     \<lparr>committed = ((the_db (committed s), snd (fst (working s))), snd (working s)), working = working s\<rparr>"
  "tx_bind (with_db (tx_query q)) k2 s =
     (let s' = \<lparr>committed = ((the_db (committed s), snd (fst (working s))), snd (working s)), working = working s\<rparr>
      in case q (the_db (working s)) of Inl e \<Rightarrow> (Inl e, s') | Inr x \<Rightarrow> k2 x s')"
  "tx_bind (with_db (tx_modify h)) k s = k ()
     \<lparr>committed = ((the_db (committed s), snd (fst (working s))), snd (working s)),
      working = ((h (the_db (working s)), snd (fst (working s))), snd (working s))\<rparr>"
  "tx_bind (with_db tx_commit) k s = k () \<lparr>committed = working s, working = working s\<rparr>"
  "tx_bind (on_http g) k3 s = (case g (snd (working s)) of
       (Inl e, h) \<Rightarrow> (Inl e, s\<lparr>working := (fst (working s), h)\<rparr>)
     | (Inr x, h) \<Rightarrow> k3 x (s\<lparr>working := (fst (working s), h)\<rparr>))"
  by (simp_all add: tx_bind_def with_docs_def on_db_def tx_read_def tx_query_def tx_modify_def tx_commit_def on_http_def
      Let_def case_prod_unfold split: sum.split prod.split)

lemma with_storage_bind:
  "tx_bind (with_docs (on_storage f)) k s = (case f (ou_storage (snd (fst (working s)))) of
       (Inl e, st) \<Rightarrow> (Inl e, \<lparr>committed = (fst (committed s), snd (working s)),
          working = ((the_db (working s), (snd (fst (working s)))\<lparr>ou_storage := st\<rparr>), snd (working s))\<rparr>)
     | (Inr x, st) \<Rightarrow> k x \<lparr>committed = (fst (committed s), snd (working s)),
          working = ((the_db (working s), (snd (fst (working s)))\<lparr>ou_storage := st\<rparr>), snd (working s))\<rparr>)"
  by (simp add: tx_bind_def with_docs_def on_storage_def case_prod_unfold split: sum.split prod.split)

lemmas ctx_simps = with_db_bind with_storage_bind tx_bind_simps(3) tx_run_simps Let_def

subsection \<open>One file\<close>

lemma create_Inl:
  assumes "create_queued_document env ws f s = (Inl e, s')"
  shows "fst (committed s') = fst (committed s)"
  using assms
  by (auto simp: create_queued_document_def Let_def tx_simps on_db_bind enqueue_def case_prod_unfold split: sum.splits if_splits)

lemma create_committed:
  assumes "create_queued_document env ws f s = (Inr x, s')"
  shows "fst (committed s') = fst (working s')"
  using assms
  by (auto simp: create_queued_document_def Let_def tx_simps on_db_bind enqueue_def case_prod_unfold split: sum.splits if_splits)

text \<open>A new row of a synced file.\<close>

definition synced_row :: "uuid \<Rightarrow> string \<Rightarrow> document \<Rightarrow> bool" where
  "synced_row ws fid r \<longleftrightarrow> d_workspace_id r = ws \<and> d_external_document_id r = Some fid"

lemma create_synced_effect:
  assumes "create_synced env n ws (sync_fields cid fid name path ft mime data) s = (r, t)" and "clean s"
  shows "clean t \<and> ((r = Inr (FileFailed True) \<and> the_db (working t) = the_db (working s)) \<or>
    (r = Inr FileCreated \<and> (\<exists>doc job. synced_row ws fid doc \<and> d_id doc \<notin> d_id ` set (documents (the_db (working s))) \<and>
       the_db (working t) = (the_db (working s))\<lparr>documents := documents (the_db (working s)) @ [doc],
         ingestion_jobs := ingestion_jobs (the_db (working s)) @ [job]\<rparr>)))"
proof -
  let ?f = "sync_fields cid fid name path ft mime data"
  let ?s = "\<lparr>committed = fst (committed s), working = fst (working s)\<rparr>"
  obtain r0 u where run: "create_queued_document (file_env env n) ws ?f ?s = (r0, u)" by fastforce
  show ?thesis
  proof (cases r0)
    case (Inl e)
    then show ?thesis
      using assms create_Inl [OF run [unfolded Inl]] run
      by (auto simp: create_synced_def with_docs_def clean_def)
  next
    case (Inr x)
    obtain doc job where x: "x = (doc, job)" by fastforce
    note row = create_Inr [OF run [unfolded Inr x]] create_committed [OF run [unfolded Inr]]
    have "synced_row ws fid doc" using row by (simp add: synced_row_def new_document_def sync_fields_def)
    moreover have "d_id doc \<notin> d_id ` set (documents (the_db (working s)))"
      using row(1) get_by_mem [of d_id "d_id doc" "documents (the_db (working s))"] by auto
    moreover have "r = Inr FileCreated" "t = \<lparr>committed = (committed u, snd (working s)), working = (working u, snd (working s))\<rparr>"
      using assms(1) run Inr by (simp_all add: create_synced_def with_docs_def)
    ultimately show ?thesis using row by (auto simp: clean_def)
  qed
qed

definition file_effect ::
    "uuid \<Rightarrow> string \<Rightarrow> db \<Rightarrow> (exn + file_outcome) \<times> ((db \<times> 's outside) \<times> 'h) session \<Rightarrow> bool" where
  "file_effect ws fid d rt \<longleftrightarrow> (case rt of (r, t) \<Rightarrow> clean t \<and>
     (((\<exists>b. r = Inr FileSkipped \<or> r = Inr (FileFailed b)) \<and> the_db (working t) = d) \<or>
      (r = Inr FileCreated \<and> \<not> already_synced ws fid d \<and>
        (\<exists>doc job. synced_row ws fid doc \<and> d_id doc \<notin> d_id ` set (documents d) \<and>
          the_db (working t) = d\<lparr>documents := documents d @ [doc], ingestion_jobs := ingestion_jobs d @ [job]\<rparr>))))"

lemma file_effect_quiet:
  "clean t \<Longrightarrow> the_db (working t) = d \<Longrightarrow> file_effect ws fid d (Inr FileSkipped, t)"
  "clean t \<Longrightarrow> the_db (working t) = d \<Longrightarrow> file_effect ws fid d (Inr (FileFailed b), t)"
  by (simp_all add: file_effect_def)

lemma catch_effect:
  assumes "\<And>e t. m s = (Inl e, t) \<Longrightarrow> clean t \<and> the_db (working t) = d"
    and "\<And>x t. m s = (Inr x, t) \<Longrightarrow> file_effect ws fid d (Inr x, t)"
  shows "file_effect ws fid d (catch_file m s)"
  using assms by (auto simp: catch_file_def file_effect_quiet split: prod.split sum.split)

lemma create_synced_file_effect:
  assumes "clean s" and "\<not> already_synced ws fid (the_db (working s))"
  shows "file_effect ws fid (the_db (working s)) (create_synced env n ws (sync_fields cid fid name path ft mime data) s)"
    and "fst (create_synced env n ws (sync_fields cid fid name path ft mime data) s) \<noteq> Inl e"
proof -
  obtain r t where run: "create_synced env n ws (sync_fields cid fid name path ft mime data) s = (r, t)" by fastforce
  show "file_effect ws fid (the_db (working s)) (create_synced env n ws (sync_fields cid fid name path ft mime data) s)"
    "fst (create_synced env n ws (sync_fields cid fid name path ft mime data) s) \<noteq> Inl e"
    using create_synced_effect [OF run assms(1)] assms(2) unfolding run by (auto simp: file_effect_def)
qed

lemma sync_file_effect:
  assumes "clean s"
  shows "file_effect ws fid (the_db (working s)) (sync_file env ws cid tok n fid s)"
  unfolding sync_file_def
proof (rule catch_effect)
  let ?d = "the_db (working s)"
  let ?create = "\<lambda>name path ft mime data. create_synced env n ws (sync_fields cid fid name path ft mime data)"
  have cr: "file_effect ws fid ?d (Inr x, t)" if "?create name path ft mime data u = (Inr x, t)"
      "clean u" "the_db (working u) = ?d" "\<not> already_synced ws fid ?d" for name path ft mime data u x t
    using create_synced_file_effect(1) [OF that(2), of ws fid env n cid name path ft mime data] that by simp
  have cr': False if "?create name path ft mime data u = (Inl e, t)"
      "clean u" "the_db (working u) = ?d" "\<not> already_synced ws fid ?d" for name path ft mime data u e t
    using create_synced_file_effect(2) [OF that(2), of ws fid env n cid name path ft mime data e] that by simp
  fix e :: exn and x :: file_outcome and t
  let ?m = "tx_bind (with_db (tx_read (already_synced ws fid))) (\<lambda>have'.
     if have' then tx_return FileSkipped
     else tx_bind (on_http (get_metadata (ce_http env) tok fid)) (\<lambda>meta.
          tx_bind (tx_lift (drive_name fid meta)) (\<lambda>name.
          tx_bind (tx_lift (drive_size meta)) (\<lambda>sz.
          if sz > max_upload_bytes (ce_cfg env) then tx_return FileSkipped
          else case detect_file_type name None of
                 Inl _ \<Rightarrow> tx_return FileSkipped
               | Inr file_type \<Rightarrow>
                   tx_bind (on_http (download_file (ce_http env) tok fid)) (\<lambda>data.
                   let path = build_path (str_uuid ws) (str_uuid (ce_doc_id env n)) name
                   in tx_seq (with_docs (on_storage (sa_save_bytes (ce_storage env) path data)))
                      (tx_bind (tx_lift (drive_mime meta)) (\<lambda>mime.
                       create_synced env n ws (sync_fields cid fid name path file_type mime data))))))))"
  show "?m s = (Inl e, t) \<Longrightarrow> clean t \<and> the_db (working t) = ?d"
    using assms by (auto simp: ctx_simps clean_def dest: cr' [unfolded clean_def] split: if_splits sum.splits prod.splits)
  show "?m s = (Inr x, t) \<Longrightarrow> file_effect ws fid ?d (Inr x, t)"
    using assms by (auto simp: ctx_simps clean_def intro!: file_effect_quiet [unfolded clean_def] cr [unfolded clean_def] split: if_splits sum.splits prod.splits)
qed

subsection \<open>The whole list\<close>

text \<open>The Drive ids of a workspace's documents, and those of the files a sync created.\<close>

definition synced_ids :: "uuid \<Rightarrow> db \<Rightarrow> string list" where
  "synced_ids ws d = concat (map (\<lambda>r. if d_workspace_id r = ws then (case d_external_document_id r of None \<Rightarrow> [] | Some e \<Rightarrow> [e]) else [])
     (documents d))"

fun created_ids :: "file_outcome list \<Rightarrow> string list \<Rightarrow> string list" where
  "created_ids (x # xs) (f # fs) = (if x = FileCreated then [f] else []) @ created_ids xs fs"
| "created_ids _ _ = []"

lemma in_concat_map: "x \<in> set (concat (map g rs)) \<longleftrightarrow> (\<exists>r \<in> set rs. x \<in> set (g r))"
  by simp

lemma already_synced_ids: "already_synced ws fid d \<longleftrightarrow> fid \<in> set (synced_ids ws d)"
proof -
  have g: "fid \<in> set (if d_workspace_id r = ws then (case d_external_document_id r of None \<Rightarrow> [] | Some e \<Rightarrow> [e]) else [])
      \<longleftrightarrow> d_workspace_id r = ws \<and> d_external_document_id r = Some fid" for r
    by (cases "d_external_document_id r"; cases "d_workspace_id r = ws"; simp add: eq_commute)
  show ?thesis unfolding already_synced_def synced_ids_def in_concat_map g ..
qed

lemma synced_ids_add: "synced_row ws fid doc \<Longrightarrow>
  synced_ids ws (d\<lparr>documents := documents d @ [doc], ingestion_jobs := js\<rparr>) = synced_ids ws d @ [fid]"
  by (simp add: synced_ids_def synced_row_def)

lemma created_ids_sub: "set (created_ids xs fs) \<subseteq> set fs"
  by (induction xs fs rule: created_ids.induct) auto

lemma length_created: "length xs = length fs \<Longrightarrow> length (created_ids xs fs) = length (filter (\<lambda>x. x = FileCreated) xs)"
  by (induction xs fs rule: created_ids.induct) auto

text \<open>What the loop leaves: it always returns, with one outcome per file.\<close>

definition loop_effect ::
    "uuid \<Rightarrow> string list \<Rightarrow> bool \<Rightarrow> db \<Rightarrow> (exn + file_outcome list \<times> bool) \<times> ((db \<times> 's outside) \<times> 'h) session \<Rightarrow> bool" where
  "loop_effect ws fids broken d rt \<longleftrightarrow> (\<exists>xs t docs jobs. rt = (Inr (xs, broken \<or> FileFailed True \<in> set xs), t) \<and> clean t \<and>
     length xs = length fids \<and> the_db (working t) = d\<lparr>documents := documents d @ docs, ingestion_jobs := ingestion_jobs d @ jobs\<rparr> \<and>
     length docs = length (created_ids xs fids) \<and> length jobs = length docs \<and>
     synced_ids ws (the_db (working t)) = synced_ids ws d @ created_ids xs fids \<and>
     (distinct (synced_ids ws d) \<longrightarrow> distinct (synced_ids ws (the_db (working t)))) \<and>
     (broken \<longrightarrow> created_ids xs fids = []))"

lemma sync_loop_effect:
  "clean s \<Longrightarrow> loop_effect ws fids broken (the_db (working s)) (sync_loop env ws cid tok n fids broken s)"
proof (induction fids arbitrary: n broken s)
  case Nil
  then show ?case by (auto simp: loop_effect_def tx_return_def)
next
  case (Cons fid fids)
  let ?d = "the_db (working s)"
  obtain x t where head: "(if broken then tx_return (FileFailed True) else sync_file env ws cid tok n fid) s = (Inr x, t)"
    and eff: "file_effect ws fid ?d (Inr x, t)" and brk: "broken \<Longrightarrow> x = FileFailed True"
  proof (cases broken)
    case True
    then show ?thesis using that [of "FileFailed True" s] Cons.prems by (simp add: tx_return_def file_effect_quiet)
  next
    case False
    have eff: "file_effect ws fid ?d (sync_file env ws cid tok n fid s)" by (rule sync_file_effect [OF Cons.prems])
    then obtain x t where "sync_file env ws cid tok n fid s = (Inr x, t)"
      by (cases "sync_file env ws cid tok n fid s") (auto simp: file_effect_def)
    then show ?thesis using that [of x t] False eff by simp
  qed
  have cl: "clean t" using eff by (simp add: file_effect_def)
  let ?b = "broken \<or> x = FileFailed True"
  from Cons.IH [OF cl, of ?b "n + 1"] obtain xs u docs jobs where
    tail: "sync_loop env ws cid tok (n + 1) fids ?b t = (Inr (xs, ?b \<or> FileFailed True \<in> set xs), u)" and
    u: "clean u" "length xs = length fids" "the_db (working u) = (the_db (working t))\<lparr>documents := documents (the_db (working t)) @ docs,
        ingestion_jobs := ingestion_jobs (the_db (working t)) @ jobs\<rparr>"
      "length docs = length (created_ids xs fids)" "length jobs = length docs"
      "synced_ids ws (the_db (working u)) = synced_ids ws (the_db (working t)) @ created_ids xs fids"
      "distinct (synced_ids ws (the_db (working t))) \<Longrightarrow> distinct (synced_ids ws (the_db (working u)))"
      "?b \<Longrightarrow> created_ids xs fids = []"
    unfolding loop_effect_def by blast
  have run: "sync_loop env ws cid tok n (fid # fids) broken s = (Inr (x # xs, ?b \<or> FileFailed True \<in> set xs), u)"
    using head tail by (simp add: tx_bind_def tx_return_def)
  have flag: "(?b \<or> FileFailed True \<in> set xs) = (broken \<or> FileFailed True \<in> set (x # xs))" by auto
  show ?case
  proof (cases "x = FileCreated")
    case False
    then have same: "the_db (working t) = ?d" using eff by (auto simp: file_effect_def)
    show ?thesis
      unfolding run loop_effect_def flag
      using u False same by (intro exI [of _ "x # xs"] exI [of _ u] exI [of _ docs] exI [of _ jobs]) auto
  next
    case True
    from eff True obtain doc job where row: "synced_row ws fid doc" "\<not> already_synced ws fid ?d"
      "the_db (working t) = ?d\<lparr>documents := documents ?d @ [doc], ingestion_jobs := ingestion_jobs ?d @ [job]\<rparr>"
      by (auto simp: file_effect_def)
    have ids: "synced_ids ws (the_db (working t)) = synced_ids ws ?d @ [fid]"
      using synced_ids_add [OF row(1)] by (simp add: row(3))
    have "distinct (synced_ids ws ?d) \<Longrightarrow> distinct (synced_ids ws (the_db (working t)))"
      using row(2) by (simp add: ids already_synced_ids)
    then show ?thesis
      unfolding run loop_effect_def flag
      using u True brk row(3) ids by (intro exI [of _ "x # xs"] exI [of _ u] exI [of _ "doc # docs"] exI [of _ "job # jobs"]) auto
  qed
qed

subsection \<open>The request\<close>

text \<open>Up to the loop a sync changes no table.\<close>

lemma access_token_quiet:
  assumes "access_token env cid s = (r, t)"
  shows "the_db (working t) = the_db (working s)" and "the_db (committed t) = the_db (committed s)"
  using assms
  by (auto simp: access_token_def ctx_simps nonempty_def split: sum.splits option.splits if_splits prod.splits)

definition after_loop ::
    "('s, 'h) conn_env \<Rightarrow> uuid \<Rightarrow> file_outcome list \<Rightarrow> ((db \<times> 's outside) \<times> 'h) session \<Rightarrow> (exn + sync_result) \<times> ((db \<times> 's outside) \<times> 'h) session" where
  "after_loop env cid xs = tx_seq (with_db (tx_modify (set_connector cid (\<lambda>c. c\<lparr>cn_last_synced_at := Some (ce_now env),
       cn_last_sync_document_count := Some (int (sr_created (tally xs)))\<rparr>)))) (tx_seq (with_db tx_commit) (tx_return (tally xs)))"

lemma after_loop_run:
  "after_loop env cid xs u = (Inr (tally xs),
     (let d = set_connector cid (\<lambda>c. c\<lparr>cn_last_synced_at := Some (ce_now env),
        cn_last_sync_document_count := Some (int (sr_created (tally xs)))\<rparr>) (the_db (working u));
          w = ((d, snd (fst (working u))), snd (working u)) in \<lparr>committed = w, working = w\<rparr>))"
  by (simp add: after_loop_def ctx_simps)

lemma sync_run:
  assumes "sync env ws cid fids s = (r, t)" and "clean s"
  obtains (refused) e where "r = Inl e" "clean t" "the_db (working t) = the_db (working s)"
  | (looped) tok s1 xs b u where "clean s1" "the_db (working s1) = the_db (working s)"
    "sync_loop env ws cid tok 0 fids False s1 = (Inr (xs, b), u)"
    "(r, t) = (if b then (Inl (PyError ''PendingRollbackError'' []), u) else after_loop env cid xs u)"
proof -
  let ?d = "the_db (working s)"
  let ?s0 = "\<lparr>committed = ((the_db (committed s), snd (fst (working s))), snd (working s)), working = working s\<rparr>"
  have clean0: "clean ?s0" using assms(2) by (simp add: clean_def)
  show ?thesis
  proof (cases "\<exists>c. get_by cn_id cid (connectors ?d) = Some c \<and> cn_workspace_id c = ws \<and> cn_type c = conn_type_value CT_GoogleDrive")
    case False
    then have "\<exists>e. (r, t) = (Inl e, ?s0)"
      using assms(1) by (auto simp: sync_def get_connector_def ctx_simps split: option.splits if_splits)
    then show ?thesis using refused clean0 by auto
  next
    case True
    then obtain c where c: "get_by cn_id cid (connectors ?d) = Some c" "cn_workspace_id c = ws" "cn_type c = conn_type_value CT_GoogleDrive"
      by blast
    obtain ra sa where tok: "access_token env cid ?s0 = (ra, sa)" by fastforce
    note quiet = access_token_quiet [OF tok]
    have clean_a: "clean sa" "the_db (working sa) = ?d" using quiet assms(2) by (simp_all add: clean_def)
    let ?rest = "\<lambda>k. tx_bind (sync_loop env ws cid k 0 fids False) (\<lambda>(xs, broken).
           if broken then tx_raise (PyError ''PendingRollbackError'' []) else after_loop env cid xs) sa"
    have step: "(r, t) = (Inl e, sa)" if "ra = Inl e" for e
      using assms(1) c tok that by (simp add: sync_def get_connector_def ctx_simps tx_bind_def [of "access_token env cid"])
    have step0: "(r, t) = (Inl (not_authorized ''Connector is not authorized''), sa)" if "ra = Inr None"
      using assms(1) c tok that by (simp add: sync_def get_connector_def ctx_simps tx_bind_def [of "access_token env cid"])
    have step1: "(r, t) = ?rest k" if "ra = Inr (Some k)" for k
      unfolding after_loop_def using assms(1) c tok that
      by (simp add: sync_def get_connector_def ctx_simps tx_bind_def [of "access_token env cid"])
    show ?thesis
    proof (cases ra)
      case (Inl e)
      then show ?thesis using step refused clean_a by simp
    next
      case ra: (Inr k)
      show ?thesis
      proof (cases k)
        case None
        then show ?thesis using step0 refused clean_a ra by simp
      next
        case (Some tok')
        have "loop_effect ws fids False ?d (sync_loop env ws cid tok' 0 fids False sa)"
          using sync_loop_effect [OF clean_a(1), of ws fids False env cid tok' 0] clean_a(2) by simp
        then obtain xs b u where u: "sync_loop env ws cid tok' 0 fids False sa = (Inr (xs, b), u)"
          unfolding loop_effect_def by blast
        show ?thesis
          by (rule looped [OF clean_a u]) (use step1 ra Some u in \<open>simp add: tx_bind_def tx_raise_def split: if_splits\<close>)
      qed
    qed
  qed
qed

lemma run_connector_open: "run_connector m d ou h = (r, h', ou', d') \<Longrightarrow>
  \<exists>t. m (open_session ((d, ou), h)) = (r, t) \<and> d' = (case r of Inl e \<Rightarrow> the_db (committed t) | Inr x \<Rightarrow> the_db (working t))"
  by (auto simp: run_connector_def split: prod.splits sum.splits)

lemma clean_open: "clean (open_session ((d, ou), h))"
  by (simp add: clean_def)

lemma tally_sum: "sr_created (tally xs) + sr_skipped (tally xs) + sr_failed (tally xs) = length xs"
  unfolding tally_def by (induction xs) auto

lemma set_connector_documents [simp]:
  "documents (set_connector cid f d) = documents d" "ingestion_jobs (set_connector cid f d) = ingestion_jobs d"
  "synced_ids ws (set_connector cid f d) = synced_ids ws d"
  by (simp_all add: set_connector_def synced_ids_def)

text \<open>
  C29: A sync never duplicates a Drive file and accounts for every one asked for: whatever Drive, the
  object store and the database answer, no two documents of the workspace get the same Drive id, the
  documents already there stay, new ones stand only for requested files, and when the sync returns,
  created, skipped and failed add up to the requested files and exactly the created ones were added,
  each with its job.
\<close>

theorem sync_creates_once:
  assumes "distinct (synced_ids ws d)" and "run_connector (sync env ws cid fids) d ou h = (r, h', ou', d')"
  shows "distinct (synced_ids ws d') \<and> (\<exists>docs. documents d' = documents d @ docs) \<and>
    set (synced_ids ws d') \<subseteq> set (synced_ids ws d) \<union> set fids \<and>
    (\<forall>t. r = Inr t \<longrightarrow> sr_requested t = length fids \<and> sr_created t + sr_skipped t + sr_failed t = length fids \<and>
       length (documents d') = length (documents d) + sr_created t \<and>
       length (ingestion_jobs d') = length (ingestion_jobs d) + sr_created t)"
proof -
  obtain t where run: "sync env ws cid fids (open_session ((d, ou), h)) = (r, t)"
    and d': "d' = (case r of Inl e \<Rightarrow> the_db (committed t) | Inr x \<Rightarrow> the_db (working t))"
    using run_connector_open [OF assms(2)] by blast
  from run clean_open show ?thesis
  proof (cases rule: sync_run)
    case (refused e)
    then show ?thesis using assms(1) d' by (auto simp: clean_def)
  next
    case (looped tok s1 xs b u)
    from sync_loop_effect [OF looped(1), of ws fids False env cid tok 0] looped(2)
    obtain docs jobs where u: "b = (FileFailed True \<in> set xs)" "clean u" "length xs = length fids"
      "the_db (working u) = d\<lparr>documents := documents d @ docs, ingestion_jobs := ingestion_jobs d @ jobs\<rparr>"
      "length docs = length (created_ids xs fids)" "length jobs = length docs"
      "synced_ids ws (the_db (working u)) = synced_ids ws d @ created_ids xs fids"
      "distinct (synced_ids ws (the_db (working u)))"
      unfolding loop_effect_def looped(3) using assms(1) by auto
    have count: "length docs = sr_created (tally xs)"
      using u(3,5) length_created [of xs fids] by (simp add: tally_def)
    have new: "set (synced_ids ws (the_db (working u))) \<subseteq> set (synced_ids ws d) \<union> set fids"
      using created_ids_sub [of xs fids] unfolding u(7) by auto
    show ?thesis
    proof (cases b)
      case True
      then have "r = Inl (PyError ''PendingRollbackError'' [])" "t = u" using looped(4) by simp_all
      then have "d' = the_db (working u)" using d' u(2) by (simp add: clean_def)
      then show ?thesis using u(4,8) new \<open>r = _\<close> by simp
    next
      case False
      then have rt: "(r, t) = after_loop env cid xs u" using looped(4) by simp
      then have r: "r = Inr (tally xs)" by (simp add: after_loop_run)
      have d'': "d' = set_connector cid (\<lambda>c. c\<lparr>cn_last_synced_at := Some (ce_now env),
          cn_last_sync_document_count := Some (int (sr_created (tally xs)))\<rparr>) (the_db (working u))"
        using rt r d' by (simp add: after_loop_run Let_def)
      show ?thesis
        using u(4,8) new count tally_sum [of xs] u(3,6) by (simp add: d'' r) (simp add: tally_def)
    qed
  qed
qed

subsection \<open>One file the database refuses\<close>

lemma broken_loop:
  assumes "clean s" and "sync_loop env ws cid tok n fids True s = (Inr (xs, b), t)"
  shows "b \<and> synced_ids ws (the_db (working t)) = synced_ids ws (the_db (working s))"
  using sync_loop_effect [OF assms(1), of ws fids True env cid tok n] unfolding assms(2) loop_effect_def by auto

lemma loop_Cons:
  assumes "clean s" and "sync_loop env ws cid tok n (f # fs) broken s = (Inr (xs, b), t)"
  obtains x u ys where "(if broken then tx_return (FileFailed True) else sync_file env ws cid tok n f) s = (Inr x, u)"
    "clean u" "set (synced_ids ws (the_db (working u))) \<subseteq> insert f (set (synced_ids ws (the_db (working s))))"
    "sync_loop env ws cid tok (n + 1) fs (broken \<or> x = FileFailed True) u = (Inr (ys, b), t)" "xs = x # ys"
proof -
  obtain x u where head: "(if broken then tx_return (FileFailed True) else sync_file env ws cid tok n f) s = (Inr x, u)"
    and u: "file_effect ws f (the_db (working s)) (Inr x, u)"
  proof (cases broken)
    case True
    then show ?thesis using that [of "FileFailed True" s] assms(1) by (simp add: tx_return_def file_effect_quiet)
  next
    case False
    have eff: "file_effect ws f (the_db (working s)) (sync_file env ws cid tok n f s)" by (rule sync_file_effect [OF assms(1)])
    then obtain x u where "sync_file env ws cid tok n f s = (Inr x, u)"
      by (cases "sync_file env ws cid tok n f s") (auto simp: file_effect_def)
    then show ?thesis using that [of x u] False eff by simp
  qed
  have ids: "set (synced_ids ws (the_db (working u))) \<subseteq> insert f (set (synced_ids ws (the_db (working s))))"
    using u synced_ids_add by (auto simp: file_effect_def)
  have "clean u" using u by (simp add: file_effect_def)
  moreover obtain ys where "sync_loop env ws cid tok (n + 1) fs (broken \<or> x = FileFailed True) u = (Inr (ys, b), t)" "xs = x # ys"
    using assms(2) head by (auto simp: tx_bind_def tx_return_def split: prod.splits sum.splits)
  ultimately show ?thesis using that head ids by blast
qed

lemma loop_breaks:
  assumes fail: "\<And>s n. clean s \<Longrightarrow> \<not> already_synced ws fid (the_db (working s)) \<Longrightarrow>
      fst (sync_file env ws cid tok n fid s) = Inr (FileFailed True)"
  shows "clean s \<Longrightarrow> fid \<notin> set fs \<Longrightarrow> fid \<notin> set (synced_ids ws (the_db (working s))) \<Longrightarrow>
    sync_loop env ws cid tok n (fs @ fid # gs) broken s = (Inr (xs, b), t) \<Longrightarrow>
    b \<and> set (synced_ids ws (the_db (working t))) \<subseteq> set (synced_ids ws (the_db (working s))) \<union> set fs"
proof (induction fs arbitrary: n broken s xs)
  case Nil
  have run: "sync_loop env ws cid tok n (fid # gs) broken s = (Inr (xs, b), t)" using Nil.prems(4) by simp
  from loop_Cons [OF Nil.prems(1) run] obtain x u ys where
    head: "(if broken then tx_return (FileFailed True) else sync_file env ws cid tok n fid) s = (Inr x, u)" and u: "clean u" and
    tail: "sync_loop env ws cid tok (n + 1) gs (broken \<or> x = FileFailed True) u = (Inr (ys, b), t)"
    by metis
  have x: "x = FileFailed True"
    using head fail [OF Nil.prems(1), of n] Nil.prems(3) by (cases broken) (auto simp: tx_return_def already_synced_ids)
  have same: "the_db (working u) = the_db (working s)"
  proof (cases broken)
    case False
    then have "sync_file env ws cid tok n fid s = (Inr (FileFailed True), u)" using head x by simp
    then show ?thesis using sync_file_effect [OF Nil.prems(1), of ws fid env cid tok n] by (simp add: file_effect_def)
  qed (use head in \<open>simp add: tx_return_def\<close>)
  have "sync_loop env ws cid tok (n + 1) gs True u = (Inr (ys, b), t)" using tail x by simp
  from broken_loop [OF u this] show ?case unfolding same by simp
next
  case (Cons f fs)
  have run: "sync_loop env ws cid tok n (f # (fs @ fid # gs)) broken s = (Inr (xs, b), t)" using Cons.prems(4) by simp
  from loop_Cons [OF Cons.prems(1) run] obtain x u ys where u: "clean u"
    and ids: "set (synced_ids ws (the_db (working u))) \<subseteq> insert f (set (synced_ids ws (the_db (working s))))"
    and tail: "sync_loop env ws cid tok (n + 1) (fs @ fid # gs) (broken \<or> x = FileFailed True) u = (Inr (ys, b), t)"
    by metis
  have "fid \<notin> set fs" "fid \<notin> set (synced_ids ws (the_db (working u)))" using Cons.prems(2,3) ids by auto
  from Cons.IH [OF u this tail] ids show ?case by auto
qed

text \<open>A file whose name is longer than its column: Drive, the object store and the type check accept it.\<close>

definition too_long :: "('s, 'h) conn_env \<Rightarrow> string \<Rightarrow> string \<Rightarrow> bool" where
  "too_long env tok fid \<longleftrightarrow> (\<exists>meta name sz ft mime.
     (\<forall>h. fst (get_metadata (ce_http env) tok fid h) = Inr meta) \<and> drive_name fid meta = Inr name \<and> 512 < length name \<and>
     drive_size meta = Inr sz \<and> sz \<le> max_upload_bytes (ce_cfg env) \<and> detect_file_type name None = Inr ft \<and>
     drive_mime meta = Inr mime \<and> (\<forall>h. \<exists>data. fst (download_file (ce_http env) tok fid h) = Inr data) \<and>
     (\<forall>p data st. \<exists>q. fst (sa_save_bytes (ce_storage env) p data st) = Inr q))"

lemma create_too_long:
  assumes "512 < length (df_name f)"
  shows "\<exists>e s'. create_queued_document env ws f s = (Inl e, s')"
  using assms by (simp add: create_queued_document_def Let_def tx_simps on_db_bind add_document_def new_document_def)

lemma create_synced_too_long:
  assumes "512 < length name"
  shows "fst (create_synced env n ws (sync_fields cid fid name path ft mime data) s) = Inr (FileFailed True)"
proof -
  have "512 < length (df_name (sync_fields cid fid name path ft mime data))" using assms by (simp add: sync_fields_def)
  from create_too_long [OF this, of "file_env env n" ws "\<lparr>committed = fst (committed s), working = fst (working s)\<rparr>"]
  obtain e u where "create_queued_document (file_env env n) ws (sync_fields cid fid name path ft mime data)
      \<lparr>committed = fst (committed s), working = fst (working s)\<rparr> = (Inl e, u)"
    by blast
  then show ?thesis by (simp add: create_synced_def with_docs_def)
qed

lemma too_long_fails:
  assumes "too_long env tok fid" and "\<not> already_synced ws fid (the_db (working s))"
  shows "fst (sync_file env ws cid tok n fid s) = Inr (FileFailed True)"
proof -
  obtain meta name sz ft mime where m: "\<And>h. fst (get_metadata (ce_http env) tok fid h) = Inr meta" "drive_name fid meta = Inr name"
    "512 < length name" "drive_size meta = Inr sz" "\<not> max_upload_bytes (ce_cfg env) < sz" "detect_file_type name None = Inr ft"
    "drive_mime meta = Inr mime" "\<And>h. \<exists>data. fst (download_file (ce_http env) tok fid h) = Inr data"
    "\<And>p data st. \<exists>q. fst (sa_save_bytes (ce_storage env) p data st) = Inr q"
    using assms(1) unfolding too_long_def by (auto simp: not_less)
  have meta: "\<exists>h'. get_metadata (ce_http env) tok fid h = (Inr meta, h')" for h using m(1) [of h] by (metis prod.collapse)
  have data: "\<exists>x h'. download_file (ce_http env) tok fid h = (Inr x, h')" for h using m(8) [of h] by (metis prod.collapse)
  have save: "\<exists>q st'. sa_save_bytes (ce_storage env) p x st = (Inr q, st')" for p x st using m(9) [of p x st] by (metis prod.collapse)
  obtain h1 where 1: "get_metadata (ce_http env) tok fid (snd (working s)) = (Inr meta, h1)" using meta by blast
  obtain x h2 where 2: "download_file (ce_http env) tok fid h1 = (Inr x, h2)" using data by blast
  let ?path = "build_path (str_uuid ws) (str_uuid (ce_doc_id env n)) name"
  obtain q st' where 3: "sa_save_bytes (ce_storage env) ?path x (ou_storage (snd (fst (working s)))) = (Inr q, st')" using save by blast
  let ?cs = "create_synced env n ws (sync_fields cid fid name ?path ft mime x)"
  let ?s3 = "\<lparr>committed = ((the_db (committed s), snd (fst (working s))), h2),
    working = ((the_db (working s), (snd (fst (working s)))\<lparr>ou_storage := st'\<rparr>), h2)\<rparr>"
  have "sync_file env ws cid tok n fid s = catch_file ?cs ?s3"
    using assms(2) m(2,4,5,6,7) 1 2 3 by (simp add: sync_file_def catch_file_def ctx_simps)
  moreover have "fst (?cs ?s3) = Inr (FileFailed True)" by (rule create_synced_too_long [OF m(3)])
  then obtain t3 where "?cs ?s3 = (Inr (FileFailed True), t3)" by (cases "?cs ?s3") simp
  ultimately show ?thesis by (simp add: catch_file_def)
qed

text \<open>
  One file the database refuses ends the whole sync: when a requested file's name is longer than
  the column (and everything else about it is fine), its failed flush leaves the session unusable, so
  none of the files after it is synced and the request ends in \<open>PendingRollbackError\<close>, although the
  files before it are committed; the result that should count them is lost.
\<close>

theorem one_file_breaks_sync:
  assumes "\<And>tok. too_long env tok fid" and "fid \<notin> set (synced_ids ws d)" and "fid \<notin> set fs"
    and "run_connector (sync env ws cid (fs @ fid # gs)) d ou h = (r, h', ou', d')"
  shows "(r = Inl (PyError ''PendingRollbackError'' []) \<or> (\<exists>e. r = Inl e \<and> d' = d)) \<and>
    set (synced_ids ws d') \<subseteq> set (synced_ids ws d) \<union> set fs"
proof -
  obtain t where run: "sync env ws cid (fs @ fid # gs) (open_session ((d, ou), h)) = (r, t)"
    and d': "d' = (case r of Inl e \<Rightarrow> the_db (committed t) | Inr x \<Rightarrow> the_db (working t))"
    using run_connector_open [OF assms(4)] by blast
  from run clean_open show ?thesis
  proof (cases rule: sync_run)
    case (refused e)
    then show ?thesis using d' by (auto simp: clean_def)
  next
    case (looped tok s1 xs b u)
    have fail: "\<And>s n. clean s \<Longrightarrow> \<not> already_synced ws fid (the_db (working s)) \<Longrightarrow>
        fst (sync_file env ws cid tok n fid s) = Inr (FileFailed True)"
      by (rule too_long_fails [OF assms(1)])
    have db: "the_db (working s1) = d" using looped(2) by simp
    have "b \<and> set (synced_ids ws (the_db (working u))) \<subseteq> set (synced_ids ws d) \<union> set fs"
      using loop_breaks [OF fail looped(1) assms(3) _ looped(3)] assms(2) unfolding db by blast
    moreover have "clean u"
      using sync_loop_effect [OF looped(1), of ws "fs @ fid # gs" False env cid tok 0] looped(3) by (auto simp: loop_effect_def)
    ultimately show ?thesis using looped(4) d' by (auto simp: clean_def)
  qed
qed

subsection \<open>Connecting and disconnecting\<close>

lemma access_token_result:
  "fst (access_token env cid s) =
     (case credential_of cid (the_db (working s)) of
        Inl e \<Rightarrow> Inl e
      | Inr cred \<Rightarrow> (case nonempty (case cred of None \<Rightarrow> None | Some c \<Rightarrow> cc_encrypted_refresh_token c) of
           None \<Rightarrow> Inr None
         | Some blob \<Rightarrow> (case decrypt_token (ce_cfg env) (ce_crypto env) blob of
              Inl e \<Rightarrow> Inl e
            | Inr rtok \<Rightarrow> map_sum id Some (fst (refresh_access_token (ce_cfg env) (ce_http env) (ce_rep env) rtok (snd (working s)))))))"
  by (auto simp: access_token_def ctx_simps split: sum.split option.split prod.split)

lemma run_connector_fst: "fst (run_connector m d ou h) = fst (m (open_session ((d, ou), h)))"
  by (simp add: run_connector_def split: prod.split sum.split)

lemma disconnect_run:
  assumes "get_db (disconnect ws cid) d = (Inr (), d')"
  shows "\<exists>f. d' = set_connector cid f d \<and> (\<forall>c. cn_id (f c) = cn_id c \<and> cn_workspace_id (f c) = cn_workspace_id c \<and> cn_type (f c) = cn_type c)"
proof -
  let ?f = "\<lambda>c. c\<lparr>cn_status := conn_status_value Disconnected, cn_last_synced_at := None, cn_last_sync_document_count := None\<rparr>"
  have "d' = set_connector cid ?f d \<or> d' = d"
    using assms by (auto simp: get_db_Inr disconnect_def get_connector_def tx_simps split: option.splits if_splits)
  moreover have "set_connector cid (\<lambda>c. c) d = d" by (simp add: set_connector_def set_rows_def)
  ultimately show ?thesis
    by (elim disjE) (rule exI [of _ ?f], simp, rule exI [of _ "\<lambda>c. c"], simp)
qed

text \<open>
  Disconnecting does not take the access away: the stored refresh token stays, so whatever access
  token a connected Drive connector gives before, it gives after it was disconnected, and a sync of the
  disconnected connector is not refused.
\<close>

theorem disconnect_keeps_access:
  fixes env :: "('s, 'h) conn_env"
  assumes "get_db (disconnect ws cid) d = (Inr (), d')"
    and "get_by cn_id cid (connectors d) = Some c" and "cn_workspace_id c = ws" and "cn_type c = ''google_drive''"
    and "fst (run_connector (access_token env cid) d ou h) = Inr (Some tok)"
  shows "fst (run_connector (access_token env cid) d' ou h) = Inr (Some tok) \<and>
    (\<forall>fids. \<exists>t. fst (run_connector (sync env ws cid fids) d' ou h) \<in> {Inr t, Inl (PyError ''PendingRollbackError'' [])})"
proof -
  obtain f where d': "d' = set_connector cid f d"
    and f: "\<And>c. cn_id (f c) = cn_id c \<and> cn_workspace_id (f c) = cn_workspace_id c \<and> cn_type (f c) = cn_type c"
    using disconnect_run [OF assms(1)] by blast
  have cred: "credential_of cid d' = credential_of cid d" by (simp add: d' set_connector_def credential_of_def)
  have token: "fst (access_token env cid s) = Inr (Some tok)" if "the_db (working s) = d'" "snd (working s) = h" for s :: "((db \<times> 's outside) \<times> 'h) session"
    using assms(5) that by (simp only: run_connector_fst access_token_result cred open_session_simps fst_conv snd_conv)
  have row: "get_by cn_id cid (connectors d') = Some (f c)"
    using assms(2) get_by_set_rows [of cn_id f cid "\<lambda>c. cn_id c = cid" "connectors d"] f get_by_Some [OF assms(2)]
    by (simp add: d' set_connector_def)
  let ?s = "\<lparr>committed = ((d', ou), h), working = ((d', ou), h)\<rparr>"
  obtain u where u: "access_token env cid ?s = (Inr (Some tok), u)"
    using token [of ?s] by (cases "access_token env cid ?s") simp
  have "clean ?s" by (simp add: clean_def)
  then have "clean u" using access_token_quiet [OF u] by (simp add: clean_def)
  have "\<exists>t. fst (run_connector (sync env ws cid fids) d' ou h) \<in> {Inr t, Inl (PyError ''PendingRollbackError'' [])}" for fids
  proof -
    obtain xs b v where v: "sync_loop env ws cid tok 0 fids False u = (Inr (xs, b), v)"
      using sync_loop_effect [OF \<open>clean u\<close>, of ws fids False env cid tok 0] by (auto simp: loop_effect_def)
    then show ?thesis
      using row f assms(3,4) u
      by (simp add: run_connector_fst sync_def get_connector_def ctx_simps open_session_def
          tx_bind_def [of "access_token env cid"] tx_bind_def [of "sync_loop env ws cid tok 0 fids False"])
  qed
  then show ?thesis using token by (simp add: run_connector_fst)
qed

lemma filter_key_distinct: "distinct (map key rows) \<Longrightarrow>
  filter (\<lambda>x. key x = k) rows = [] \<or> (\<exists>x. filter (\<lambda>x. key x = k) rows = [x])"
  by (induction rows) (auto simp: filter_empty_conv image_iff)

lemma one_or_none_merge:
  assumes "distinct (map key rows)" and "\<And>x. key (f x) = key x" and "key r = k"
  shows "\<exists>x. one_or_none (filter (\<lambda>x. key x = k) (merge_row (\<lambda>x. key x = k) f r rows)) = Inr (Some x) \<and>
    (x = r \<or> (\<exists>y \<in> set rows. x = f y))"
proof -
  have key: "filter (\<lambda>x. key x = k) (merge_row (\<lambda>x. key x = k) f r rows) = merge_row (\<lambda>x. key x = k) f r (filter (\<lambda>x. key x = k) rows)"
    by (rule merge_row_own) (simp_all add: assms(2,3))
  from filter_key_distinct [OF assms(1), of k]
  consider "filter (\<lambda>x. key x = k) rows = []" | y where "filter (\<lambda>x. key x = k) rows = [y]" by blast
  then show ?thesis
  proof cases
    case 1
    then show ?thesis unfolding key by (simp add: merge_row_def one_or_none_def)
  next
    case (2 y)
    then have "y \<in> set (filter (\<lambda>x. key x = k) rows)" by simp
    then have "y \<in> set rows" "key y = k" by simp_all
    then show ?thesis unfolding key 2 by (auto simp: merge_row_def one_or_none_def)
  qed
qed

lemma one_or_none_distinct: "distinct (map key rows) \<Longrightarrow> \<exists>x. one_or_none (filter (\<lambda>x. key x = k) rows) = Inr x"
  using filter_key_distinct [of key rows k] by auto

text \<open>
  C30: The OAuth handshake connects: with the state this server signed for an existing connector and a
  token answer that carries a refresh token, the callback returns that connector, marks it connected,
  and from then on the connector's access token is what Google answers for exactly that refresh token,
  which was stored encrypted.
\<close>

theorem oauth_connects:
  fixes env :: "('s, 'h) conn_env"
  assumes "\<And>key msg. dc_hmac (ce_crypto env) key msg \<noteq> []" and "fernet_law (ce_crypto env)"
    and "get_by cn_id cid (connectors d) = Some c" and "distinct (map cc_connector_id (connector_credentials d))"
    and "\<And>h. fst (exchange_code (ce_cfg env) (ce_http env) code h) = Inr tokens"
    and "json_get ''refresh_token'' tokens PNone = Inr (PStr rtok)" and "rtok \<noteq> []"
    and "encrypt_token (ce_cfg env) (ce_crypto env) (ce_nonce env) rtok \<noteq> []"
    and "run_connector (complete_oauth env code (sign_state (ce_cfg env) (ce_crypto env) (str_uuid cid))) d ou h = (r, h', ou', d')"
  shows "r = Inr cid \<and> (\<exists>c'. get_by cn_id cid (connectors d') = Some c' \<and> cn_status c' = ''connected'' \<and> cn_workspace_id c' = cn_workspace_id c) \<and>
    fst (run_connector (access_token env cid) d' ou' h2) =
      map_sum id Some (fst (refresh_access_token (ce_cfg env) (ce_http env) (ce_rep env) rtok h2))"
proof -
  let ?blob = "encrypt_token (ce_cfg env) (ce_crypto env) (ce_nonce env) rtok"
  let ?f = "\<lambda>c. c\<lparr>cn_status := conn_status_value Connected,
      cn_last_synced_at := (case cn_last_synced_at c of None \<Rightarrow> Some (ce_now env) | Some t \<Rightarrow> Some t)\<rparr>"
  let ?d = "set_connector cid ?f (save_credential cid (Some ?blob) d)"
  have state: "verify_state (ce_cfg env) (ce_crypto env) (sign_state (ce_cfg env) (ce_crypto env) (str_uuid cid)) = Inr (Some (str_uuid cid))"
    by (rule verify_signed [OF assms(1)])
  obtain h1 where code: "exchange_code (ce_cfg env) (ce_http env) code h = (Inr tokens, h1)"
    using assms(5) [of h] by (metis prod.collapse)
  have fresh: "fresh_credential env tokens = Inr (Some ?blob)"
    using assms(6,7) by (simp add: fresh_credential_def)
  have old: "\<exists>x. credential_of cid d = Inr x"
    using assms(4) one_or_none_distinct [of cc_connector_id "connector_credentials d" cid] by (simp add: credential_of_def)
  have run: "r = Inr cid \<and> d' = ?d"
    using assms(3,9) state code fresh old
    by (auto simp: run_connector_def complete_oauth_def open_session_def ctx_simps parse_str_uuid save_credential_def set_connector_def)
  have row: "get_by cn_id cid (connectors ?d) = Some (?f c)"
    using assms(3) get_by_set_rows [of cn_id ?f cid "\<lambda>c. cn_id c = cid" "connectors d"] get_by_Some [OF assms(3)]
    by (simp add: set_connector_def save_credential_def)
  obtain x where x: "credential_of cid ?d = Inr (Some x)" "cc_encrypted_refresh_token x = Some ?blob"
    using one_or_none_merge [OF assms(4), of "\<lambda>c. c\<lparr>cc_encrypted_refresh_token := Some ?blob, cc_scopes := Some (py_join '' '' scopes)\<rparr>"
        "\<lparr>cc_connector_id = cid, cc_encrypted_refresh_token = Some ?blob, cc_scopes = Some (py_join '' '' scopes)\<rparr>" cid]
    by (auto simp: credential_of_def set_connector_def save_credential_def)
  have "decrypt_token (ce_cfg env) (ce_crypto env) ?blob = Inr rtok"
    using assms(2) by (simp add: decrypt_token_def encrypt_token_def fernet_law_def)
  then have "fst (run_connector (access_token env cid) ?d ou' h2) =
      map_sum id Some (fst (refresh_access_token (ce_cfg env) (ce_http env) (ce_rep env) rtok h2))"
    using x assms(8) by (simp add: run_connector_fst access_token_result nonempty_def)
  then show ?thesis using run row by simp
qed

subsection \<open>Cards\<close>

lemma ensure_quiet:
  assumes "conn_type_value CT_GoogleDrive \<in> cn_type ` set (cards ws (working s))"
    and "conn_type_value CT_OneDrive \<in> cn_type ` set (cards ws (working s))"
  shows "ensure_default_connectors env ws s = (Inr (), s\<lparr>committed := working s\<rparr>)"
  using assms by (simp add: ensure_default_connectors_def tx_simps del: conn_type_value.simps)

lemma add_connector_cards:
  "add_connector r d = Inr d' \<Longrightarrow> cards ws d' = cards ws d @ (if cn_workspace_id r = ws then [r] else [])"
  by (auto simp: add_connector_def cards_def split: if_splits)

text \<open>
  A workspace gets its two cards once: listing the connectors returns a Drive and a OneDrive card
  when it succeeds, adds nothing but missing ones, and listing again returns the same list and changes
  nothing.
\<close>

theorem cards_once:
  assumes "get_db (list_connectors env ws) d = (Inr rows, d')"
  shows "rows = cards ws d' \<and> (\<exists>new. rows = cards ws d @ new \<and> length new \<le> 2) \<and>
    {''google_drive'', ''onedrive''} \<subseteq> cn_type ` set rows \<and> get_db (list_connectors env' ws) d' = (Inr rows, d')"
proof -
  obtain s where ens: "ensure_default_connectors env ws (open_session d) = (Inr (), s)"
    and rows: "rows = cards ws (working s)" "d' = working s"
    using assms unfolding get_db_Inr list_connectors_def tx_seq_def
    by (auto dest!: tx_bind_InrD simp: tx_read_def)
  have new: "(\<exists>new. cards ws (working s) = cards ws d @ new \<and> length new \<le> 2) \<and>
      {conn_type_value CT_GoogleDrive, conn_type_value CT_OneDrive} \<subseteq> cn_type ` set (cards ws (working s))"
    using ens
    by (auto simp: ensure_default_connectors_def tx_simps default_card_def simp del: conn_type_value.simps
        split: if_splits sum.splits dest!: add_connector_cards [where ws = ws])
  then have types: "conn_type_value CT_GoogleDrive \<in> cn_type ` set (cards ws d')" "conn_type_value CT_OneDrive \<in> cn_type ` set (cards ws d')"
    using rows by simp_all
  have "get_db (list_connectors env' ws) d' = (Inr rows, d')"
    using ensure_quiet [of ws "open_session d'" env'] types rows
    by (simp add: get_db_def list_connectors_def tx_simps tx_bind_def tx_read_def del: conn_type_value.simps)
  then show ?thesis using new rows by simp
qed

subsection \<open>Witnesses\<close>

text \<open>A Drive on which every file is \<open>f.txt\<close>, but for one whose name is too long.\<close>

definition demo_drive :: "unit http" where
  "demo_drive = \<lparr>ht_post = (\<lambda>url data h. (Inr \<lparr>hr_status = 200,
       hr_json = Inr (PDict [(''access_token'', PStr ''a''), (''refresh_token'', PStr ''r'')]), hr_content = []\<rparr>, h)),
     ht_get = (\<lambda>url params headers h. (Inr \<lparr>hr_status = 200,
       hr_json = Inr (PDict [(''name'', PStr (if url = drive_endpoint @ ''/files/bad'' then replicate 600 CHR ''a'' @ ''.txt'' else ''f.txt''))]),
       hr_content = [104]\<rparr>, h))\<rparr>"

definition demo_crypto :: drive_crypto where
  "demo_crypto = \<lparr>dc_hmac = (\<lambda>k m. [7]), dc_sha256 = (\<lambda>s. [1]), dc_encrypt = (\<lambda>k n t. CHR ''E'' # t),
     dc_decrypt = (\<lambda>k t. Inr (tl t))\<rparr>"

definition demo_conn_env :: "(fs, unit) conn_env" where
  "demo_conn_env = \<lparr>ce_cfg = default_settings, ce_storage = local_storage ''/data'', ce_broker_up = True,
     ce_doc_id = (\<lambda>n. of_nat n + 20), ce_job_id = of_nat, ce_drive_card = 11, ce_onedrive_card = 12, ce_now = 7,
     ce_http = demo_drive, ce_crypto = demo_crypto, ce_nonce = 0, ce_rep = (\<lambda>_. [])\<rparr>"

definition demo_card :: connector where
  "demo_card = default_card 5 3 CT_GoogleDrive"

definition demo_connected :: db where
  "demo_connected = demo_two_workspaces\<lparr>connectors := [demo_card],
     connector_credentials := [\<lparr>cc_connector_id = 5, cc_encrypted_refresh_token = Some ''Er'', cc_scopes = None\<rparr>]\<rparr>"

definition demo_sync :: "(exn + sync_result) \<times> unit \<times> fs outside \<times> db" where
  "demo_sync = run_connector (sync demo_conn_env 3 5 [''x'', ''y'', ''x'']) demo_connected no_outside ()"

lemma demo_sync_counts: "case fst demo_sync of Inr t \<Rightarrow> sr_created t = 2 \<and> sr_skipped t = 1 | Inl _ \<Rightarrow> False"
  by code_simp

lemma sync_creates_once_witness:
  "length (documents (snd (snd (snd demo_sync)))) = 2 \<and> distinct (synced_ids 3 (snd (snd (snd demo_sync))))"
proof -
  obtain r h' ou' d' where run: "demo_sync = (r, h', ou', d')" by (rule prod_cases4)
  obtain t where t: "r = Inr t" "sr_created t = 2" using demo_sync_counts by (auto simp: run split: sum.splits)
  have "documents demo_connected = []" "distinct (synced_ids 3 demo_connected)"
    by (simp_all add: demo_connected_def demo_two_workspaces_def empty_db_def synced_ids_def)
  then show ?thesis
    using sync_creates_once [OF _ run [unfolded demo_sync_def]] t by (simp add: run)
qed

lemma demo_too_long: "too_long demo_conn_env tok ''bad''"
proof -
  let ?name = "replicate 600 CHR ''a'' @ ''.txt''"
  have "detect_file_type ?name None = Inr ''txt''" by code_simp
  moreover have "fst (get_metadata demo_drive tok ''bad'' h) = Inr (PDict [(''name'', PStr ?name)])" for h
    by (simp add: get_metadata_def demo_drive_def response_json_def raise_for_status_def)
  moreover have "fst (download_file demo_drive tok ''bad'' h) = Inr [104]" for h
    by (simp add: download_file_def demo_drive_def raise_for_status_def)
  moreover have "drive_name ''bad'' (PDict [(''name'', PStr ?name)]) = Inr ?name" "drive_size (PDict [(''name'', PStr ?name)]) = Inr 0"
    "drive_mime (PDict [(''name'', PStr ?name)]) = Inr None"
    by (simp_all add: drive_name_def drive_size_def drive_mime_def json_get_def)
  ultimately show ?thesis
    unfolding too_long_def
    by (intro exI [of _ "PDict [(''name'', PStr ?name)]"] exI [of _ ?name] exI [of _ 0] exI [of _ "''txt''"] exI [of _ None])
      (simp add: demo_conn_env_def local_storage_def local_save_bytes_def max_upload_bytes_def default_settings_def)
qed

definition demo_bad_sync :: "(exn + sync_result) \<times> unit \<times> fs outside \<times> db" where
  "demo_bad_sync = run_connector (sync demo_conn_env 3 5 ([''x''] @ ''bad'' # [''y''])) demo_connected no_outside ()"

lemma one_file_breaks_sync_witness:
  "(\<exists>e. fst demo_bad_sync = Inl e) \<and> set (synced_ids 3 (snd (snd (snd demo_bad_sync)))) \<subseteq> {''x''}"
proof -
  obtain r h' ou' d' where run: "demo_bad_sync = (r, h', ou', d')" by (rule prod_cases4)
  have "synced_ids 3 demo_connected = []"
    by (simp add: demo_connected_def demo_two_workspaces_def empty_db_def synced_ids_def)
  then show ?thesis
    using one_file_breaks_sync [OF demo_too_long _ _ run [unfolded demo_bad_sync_def]] by (auto simp: run)
qed

lemma disconnect_keeps_access_witness:
  "fst (run_connector (access_token demo_conn_env 5) (snd (get_db (disconnect 3 5) demo_connected)) no_outside ()) = Inr (Some ''a'')"
proof -
  have "fst (get_db (disconnect 3 5) demo_connected) = Inr ()" by code_simp
  then have run: "get_db (disconnect 3 5) demo_connected = (Inr (), snd (get_db (disconnect 3 5) demo_connected))"
    by (metis prod.collapse)
  have card: "get_by cn_id 5 (connectors demo_connected) = Some demo_card"
    by (simp add: demo_connected_def demo_card_def default_card_def)
  have tok: "fst (run_connector (access_token demo_conn_env 5) demo_connected no_outside ()) = Inr (Some ''a'')" by code_simp
  show ?thesis
    using disconnect_keeps_access [OF run card _ _ tok] by (simp add: demo_card_def default_card_def)
qed

lemma oauth_connects_witness:
  "\<exists>h' ou' d'. run_connector (complete_oauth demo_conn_env ''code'' (sign_state default_settings demo_crypto (str_uuid 5)))
     demo_connected no_outside () = (Inr 5, h', ou', d') \<and>
     fst (run_connector (access_token demo_conn_env 5) d' ou' ()) = Inr (Some ''a'')"
proof -
  have env: "ce_cfg demo_conn_env = default_settings" "ce_crypto demo_conn_env = demo_crypto" "ce_nonce demo_conn_env = 0"
    "ce_http demo_conn_env = demo_drive" by (simp_all add: demo_conn_env_def)
  obtain r h' ou' d' where run: "run_connector (complete_oauth demo_conn_env ''code'' (sign_state default_settings demo_crypto (str_uuid 5)))
     demo_connected no_outside () = (r, h', ou', d')" by (rule prod_cases4)
  let ?tokens = "PDict [(''access_token'', PStr ''a''), (''refresh_token'', PStr ''r'')]"
  have code: "fst (exchange_code default_settings demo_drive ''code'' h) = Inr ?tokens" for h
    by (simp add: exchange_code_def demo_drive_def response_json_def raise_for_status_def)
  have refreshed: "fst (refresh_access_token default_settings demo_drive (\<lambda>_. []) ''r'' ()) = Inr ''a''" by code_simp
  have card: "get_by cn_id 5 (connectors demo_connected) = Some demo_card"
    by (simp add: demo_connected_def demo_card_def default_card_def)
  have "r = Inr 5 \<and> fst (run_connector (access_token demo_conn_env 5) d' ou' ()) =
      map_sum id Some (fst (refresh_access_token default_settings demo_drive (ce_rep demo_conn_env) ''r'' ()))"
    using oauth_connects [where env = demo_conn_env, OF _ _ card _ code [folded env] _ _ _ run [folded env], of "''r''" "()"]
    by (simp add: env demo_crypto_def fernet_law_def demo_connected_def json_get_def encrypt_token_def)
  then show ?thesis using run refreshed by (simp add: demo_conn_env_def)
qed

lemma cards_once_witness:
  "\<exists>rows d'. get_db (list_connectors demo_conn_env 3) demo_two_workspaces = (Inr rows, d') \<and> length rows = 2 \<and>
     get_db (list_connectors demo_conn_env 3) d' = (Inr rows, d')"
proof -
  have "case get_db (list_connectors demo_conn_env 3) demo_two_workspaces of (Inr rows, d') \<Rightarrow> length rows = 2 | _ \<Rightarrow> False"
    by code_simp
  then obtain rows d' where run: "get_db (list_connectors demo_conn_env 3) demo_two_workspaces = (Inr rows, d')" "length rows = 2"
    by (auto split: prod.splits sum.splits)
  then show ?thesis using cards_once [OF run(1), of demo_conn_env] by blast
qed

end
