(* ===== verification/Api_Keys.thy ===== *)
theory Api_Keys
  imports Deps
begin

text \<open>
  The life of an API key (\<^verbatim>\<open>app/services/apikey_service.py\<close>, \<^verbatim>\<open>app/api/apikeys.py\<close>) and its
  use by requests. Only the hash and a prefix of the secret are stored.
\<close>

record api_key_out =
  ko_id :: uuid
  ko_name :: string
  ko_scope :: api_key_scope
  ko_created_at :: timestamp
  ko_last_used_at :: "timestamp option"
  ko_request_count :: int
  ko_rate_limit_per_minute :: int

record api_key_with_secret = api_key_out +
  ko_secret :: string

text \<open>\<open>ApiKeyScope(s)\<close>\<close>

definition scope_of :: "string \<Rightarrow> exn + api_key_scope" where
  "scope_of s =
     (if s = scope_value ReadOnly then Inr ReadOnly
      else if s = scope_value ReadWrite then Inr ReadWrite
      else Inl (PyError ''ValueError'' s))"

definition key_out :: "api_key \<Rightarrow> exn + api_key_out" where
  "key_out k =
     map_sum id (\<lambda>sc. \<lparr>ko_id = k_id k, ko_name = k_name k, ko_scope = sc, ko_created_at = k_created_at k,
        ko_last_used_at = k_last_used_at k, ko_request_count = k_request_count k,
        ko_rate_limit_per_minute = k_rate_limit_per_minute k\<rparr>) (scope_of (k_scope k))"

definition list_keys :: "uuid \<Rightarrow> api_key_out list db_tx" where
  "list_keys workspace_id =
     tx_query (\<lambda>d. res_map key_out (sort_key (\<lambda>k. - k_created_at k)
       (filter (\<lambda>k. k_workspace_id k = workspace_id \<and> \<not> k_revoked k) (api_keys d))))"

definition add_api_key :: "api_key \<Rightarrow> db \<Rightarrow> exn + db" where
  "add_api_key r d =
     (if get_by k_id (k_id r) (api_keys d) \<noteq> None \<or> get_by k_key_hash (k_key_hash r) (api_keys d) \<noteq> None \<or>
         get_by w_id (k_workspace_id r) (workspaces d) = None \<or>
         (case k_created_by_id r of None \<Rightarrow> False | Some u \<Rightarrow> get_by u_id u (users d) = None)
      then Inl (integrity_error ''api_keys'')
      else Inr (d\<lparr>api_keys := api_keys d @ [r]\<rparr>))"

definition default_rate_limit :: int where "default_rate_limit = 100"

definition new_key ::
    "crypto \<Rightarrow> uuid \<Rightarrow> string \<Rightarrow> timestamp \<Rightarrow> uuid \<Rightarrow> string \<Rightarrow> api_key_scope \<Rightarrow> uuid option \<Rightarrow> api_key" where
  "new_key cy new_id rnd now workspace_id name scope created_by =
     (case generate_api_key cy rnd of (raw, key_prefix, key_hash) \<Rightarrow>
        \<lparr>k_id = new_id, k_workspace_id = workspace_id, k_name = name, k_key_prefix = key_prefix,
         k_key_hash = key_hash, k_scope = scope_value scope, k_rate_limit_per_minute = default_rate_limit,
         k_last_used_at = None, k_request_count = 0, k_revoked = False, k_created_by_id = created_by,
         k_created_at = now\<rparr>)"

definition create_key ::
    "crypto \<Rightarrow> uuid \<Rightarrow> string \<Rightarrow> timestamp \<Rightarrow> uuid \<Rightarrow> string \<Rightarrow> api_key_scope \<Rightarrow> uuid option \<Rightarrow>
     api_key_with_secret db_tx" where
  "create_key cy new_id rnd now workspace_id name scope created_by =
     (let raw = fst (generate_api_key cy rnd);
          key = new_key cy new_id rnd now workspace_id name scope created_by
      in tx_seq (tx_update (add_api_key key))
         (tx_seq tx_commit
         (tx_bind (tx_lift (key_out key)) (\<lambda>out.
          tx_return (api_key_out.extend out (api_key_with_secret.fields raw))))))"

definition mark_revoked :: "uuid \<Rightarrow> db \<Rightarrow> db" where
  "mark_revoked kid d = d\<lparr>api_keys := set_rows (\<lambda>k. k_id k = kid) (\<lambda>k. k\<lparr>k_revoked := True\<rparr>) (api_keys d)\<rparr>"

definition revoke_key :: "uuid \<Rightarrow> uuid \<Rightarrow> unit db_tx" where
  "revoke_key workspace_id key_id =
     tx_bind (tx_read (\<lambda>d. get_by k_id key_id (api_keys d))) (\<lambda>k.
     if (case k of None \<Rightarrow> True | Some k \<Rightarrow> k_workspace_id k \<noteq> workspace_id)
     then tx_raise (raise_app NotFoundError ''API key not found'')
     else tx_seq (tx_modify (mark_revoked key_id)) tx_commit)"

subsection \<open>Routes\<close>

definition list_api_keys_route :: "settings \<Rightarrow> crypto \<Rightarrow> timestamp \<Rightarrow> string option \<Rightarrow> api_key_out list db_tx" where
  "list_api_keys_route cfg cy now creds =
     tx_bind (require_admin cfg cy now creds) (\<lambda>p. list_keys (p_workspace_id p))"

definition create_api_key_route ::
    "settings \<Rightarrow> crypto \<Rightarrow> uuid \<Rightarrow> string \<Rightarrow> timestamp \<Rightarrow> string option \<Rightarrow> string \<Rightarrow> api_key_scope \<Rightarrow>
     api_key_with_secret db_tx" where
  "create_api_key_route cfg cy new_id rnd now creds name scope =
     tx_bind (require_admin cfg cy now creds) (\<lambda>p.
     if \<not> str_len_ok 1 100 name then tx_raise (ValidationError [Some ''string length''])
     else create_key cy new_id rnd now (p_workspace_id p) name scope (p_user_id p))"

definition revoke_api_key_route ::
    "settings \<Rightarrow> crypto \<Rightarrow> timestamp \<Rightarrow> string option \<Rightarrow> uuid \<Rightarrow> unit db_tx" where
  "revoke_api_key_route cfg cy now creds key_id =
     tx_bind (require_admin cfg cy now creds) (\<lambda>p. revoke_key (p_workspace_id p) key_id)"

subsection \<open>Keys over time\<close>

definition keys_ok :: "db \<Rightarrow> bool" where
  "keys_ok d \<longleftrightarrow> distinct (map k_id (api_keys d)) \<and> distinct (map k_key_hash (api_keys d))"

text \<open>
  What happens to the keys: creation, revocation, and calls. A call brings its Redis state and
  client, so that a run may have any of them at each call.
\<close>

datatype 'z key_op =
    CreateKey uuid string timestamp uuid string api_key_scope "uuid option"
  | RevokeKey uuid uuid
  | KeyCall "'z redis_env" "'z redis" timestamp "string option" string

fun key_step :: "settings \<Rightarrow> crypto \<Rightarrow> db \<Rightarrow> 'z key_op \<Rightarrow> db" where
  "key_step cfg cy d (CreateKey new_id rnd now ws name sc usr) =
     snd (get_db (create_key cy new_id rnd now ws name sc usr) d)"
| "key_step cfg cy d (RevokeKey ws kid) = snd (get_db (revoke_key ws kid) d)"
| "key_step cfg cy d (KeyCall env redis now creds endpoint) =
     snd (fst (serve_principal env cfg cy now creds (\<lambda>p. log_api_call now p endpoint) redis d))"

lemma add_api_key_Inr:
  "add_api_key k d = Inr d' \<Longrightarrow> d' = d\<lparr>api_keys := api_keys d @ [k]\<rparr> \<and>
     k_id k \<notin> k_id ` set (api_keys d) \<and> k_key_hash k \<notin> k_key_hash ` set (api_keys d)"
  by (auto simp: add_api_key_def get_by_None split: if_splits)

lemma add_call_log_Inr: "add_call_log r d = Inr d' \<Longrightarrow> d' = d\<lparr>api_call_logs := api_call_logs d @ [r]\<rparr>"
  by (auto simp: add_call_log_def split: if_splits)

text \<open>A property of the key table that every write to it keeps is kept by every operation.\<close>

lemma log_api_call_keeps:
  "(\<And>d l. P d \<Longrightarrow> P (d\<lparr>api_call_logs := l\<rparr>)) \<Longrightarrow> tx_keeps P (log_api_call now p endpoint)"
  unfolding log_api_call_def
  by (intro inv_intros tx_keeps_update) (blast dest: add_call_log_Inr)

lemma principal_from_api_key_keeps:
  assumes "\<And>d kid. P d \<Longrightarrow> P (touch_key kid now d)"
  shows "tx_keeps P (\<lambda>s. fst (principal_from_api_key env cy now token redis s))"
  using assms
  by (auto simp: tx_keeps_def principal_from_api_key_def tx_simps
      split: sum.split option.split prod.split)

lemma get_principal_keeps:
  assumes "\<And>d kid. P d \<Longrightarrow> P (touch_key kid now d)"
  shows "tx_keeps P (\<lambda>s. fst (get_principal env cfg cy now creds redis s))"
  unfolding tx_keeps_def
proof (intro allI impI)
  fix s :: "db session"
  assume s: "P (committed s)" "P (working s)"
  have key: "P (committed (snd (fst (principal_from_api_key env cy now token redis s)))) \<and>
      P (working (snd (fst (principal_from_api_key env cy now token redis s))))" for token
    using principal_from_api_key_keeps [of P now env cy token redis] assms s by (simp add: tx_keeps_def)
  have jwt: "snd (principal_from_jwt cfg cy now token s) = s" for token by (rule principal_from_jwt_state)
  then show "P (committed (snd (fst (get_principal env cfg cy now creds redis s)))) \<and>
        P (working (snd (fst (get_principal env cfg cy now creds redis s))))"
    using key s
    by (auto simp: get_principal_def split: sum.split prod.split) (metis snd_conv)+
qed

lemma key_step_keeps:
  assumes table: "\<And>d l. P d \<Longrightarrow> P (d\<lparr>api_call_logs := l\<rparr>)"
    and touch: "\<And>d kid now. P d \<Longrightarrow> P (touch_key kid now d)"
    and revoke: "\<And>d kid. P d \<Longrightarrow> P (mark_revoked kid d)"
    and add: "\<And>d d' new_id rnd now ws name sc usr. P d \<Longrightarrow>
      add_api_key (new_key cy new_id rnd now ws name sc usr) d = Inr d' \<Longrightarrow> P d'"
    and "P d"
  shows "P (key_step cfg cy d x)"
proof (cases x)
  case (CreateKey new_id rnd now ws name sc usr)
  have "tx_keeps P (create_key cy new_id rnd now ws name sc usr)"
    unfolding create_key_def Let_def by (intro inv_intros tx_keeps_update) (rule add)
  then show ?thesis using CreateKey assms(5) by (simp add: get_db_keeps)
next
  case (RevokeKey ws kid)
  have "tx_keeps P (revoke_key ws kid)"
    unfolding revoke_key_def by (intro inv_intros tx_keeps_modify revoke)
  then show ?thesis using RevokeKey assms(5) by (simp add: get_db_keeps)
next
  case (KeyCall env redis now creds endpoint)
  have "tx_keeps P (tx_bind (\<lambda>s. fst (get_principal env cfg cy now creds redis s)) (\<lambda>p. log_api_call now p endpoint))"
    by (rule tx_keeps_bind, rule get_principal_keeps, erule touch, rule log_api_call_keeps, erule table)
  then show ?thesis using KeyCall assms(5) by (simp add: serve_principal_def get_db_keeps)
qed

lemma key_step_ok: "keys_ok d \<Longrightarrow> keys_ok (key_step cfg cy d x)"
proof (rule key_step_keeps)
  fix d kid now assume "keys_ok d"
  then show "keys_ok (touch_key kid now d)" by (simp add: keys_ok_def touch_key_def set_rows_key)
next
  fix d kid assume "keys_ok d"
  then show "keys_ok (mark_revoked kid d)" by (simp add: keys_ok_def mark_revoked_def set_rows_key)
next
  fix d d' new_id rnd now ws name sc usr
  assume "keys_ok d" "add_api_key (new_key cy new_id rnd now ws name sc usr) d = Inr d'"
  then show "keys_ok d'" by (auto dest!: add_api_key_Inr simp: keys_ok_def)
qed (simp_all add: keys_ok_def)

interpretation key_tables: guarded_steps "key_step cfg cy" keys_ok for cfg cy
  by unfold_locales (rule key_step_ok)

subsection \<open>Revocation is final\<close>

definition dead_key :: "string \<Rightarrow> db \<Rightarrow> bool" where
  "dead_key h d \<longleftrightarrow> h \<in> k_key_hash ` set (api_keys d) \<and>
     (\<forall>k \<in> set (api_keys d). k_key_hash k = h \<longrightarrow> k_revoked k)"

lemma dead_key_set_rows:
  assumes "dead_key h d" and "\<And>k. k_key_hash (f k) = k_key_hash k" and "\<And>k. k_revoked k \<Longrightarrow> k_revoked (f k)"
  shows "dead_key h (d\<lparr>api_keys := set_rows P f (api_keys d)\<rparr>)"
  using assms set_rows_image [of k_key_hash f P "api_keys d"]
  by (auto simp: dead_key_def dest!: set_rows_mem)

lemma key_step_dead: "dead_key h d \<Longrightarrow> dead_key h (key_step cfg cy d x)"
proof (rule key_step_keeps)
  fix d kid now assume "dead_key h d"
  then show "dead_key h (touch_key kid now d)" unfolding touch_key_def by (rule dead_key_set_rows) simp_all
next
  fix d kid assume "dead_key h d"
  then show "dead_key h (mark_revoked kid d)" unfolding mark_revoked_def by (rule dead_key_set_rows) simp_all
next
  fix d d' new_id rnd now ws name sc usr
  assume "dead_key h d" "add_api_key (new_key cy new_id rnd now ws name sc usr) d = Inr d'"
  then show "dead_key h d'" by (auto simp: dead_key_def dest!: add_api_key_Inr)
qed (simp_all add: dead_key_def)

interpretation dead_keys: guarded_steps "key_step cfg cy" "\<lambda>d. keys_ok d \<and> dead_key h d" for cfg cy h
  by unfold_locales (simp add: key_step_ok key_step_dead)

lemma dead_key_rejected:
  assumes "keys_ok d" and "dead_key (sha256_hex cy token) d"
  shows "principal_from_api_key env cy now token redis (open_session d)
     = ((Inl (raise_app UnauthorizedError ''Invalid API key''), open_session d), redis)"
proof -
  obtain k where k: "k \<in> set (api_keys d)" "k_key_hash k = sha256_hex cy token" "k_revoked k"
    using assms(2) by (auto simp: dead_key_def)
  have "distinct (map k_key_hash (api_keys d))" using assms(1) by (simp add: keys_ok_def)
  from filter_unique [OF this k(1)] k show ?thesis by (simp add: principal_from_api_key_def)
qed

lemma revoke_key_dead:
  assumes "keys_ok d" and "k \<in> set (api_keys d)" and "get_db (revoke_key ws (k_id k)) d = (Inr (), d1)"
  shows "keys_ok d1 \<and> dead_key (k_key_hash k) d1"
proof -
  have d1: "d1 = mark_revoked (k_id k) d"
    using assms(3) by (auto simp: revoke_key_def get_db_Inr tx_simps split: if_splits)
  have id: "x = k" if "x \<in> set (api_keys d)" "k_key_hash x = k_key_hash k" for x
    using assms(1,2) that by (auto simp: keys_ok_def distinct_map dest: inj_onD)
  have "keys_ok d1" using assms(1) by (simp add: d1 keys_ok_def mark_revoked_def set_rows_key)
  moreover have "dead_key (k_key_hash k) d1"
    using assms(2) id set_rows_image [of k_key_hash "\<lambda>k. k\<lparr>k_revoked := True\<rparr>" "\<lambda>x. k_id x = k_id k" "api_keys d"]
    by (auto simp: d1 dead_key_def mark_revoked_def dest!: set_rows_mem split: if_splits) (metis id)
  ultimately show ?thesis ..
qed

text \<open>
  C19: Revocation is final: once a key was revoked, no request with its secret ever gets a
  principal again, whatever keys are created or revoked and whatever calls are made in between; it
  is refused as an invalid key, and neither the database nor the rate limiter changes.
\<close>

theorem revoked_key_rejected:
  assumes "keys_ok d" and "k \<in> set (api_keys d)" and "get_db (revoke_key ws (k_id k)) d = (Inr (), d1)"
    and "k_key_hash k = sha256_hex cy token" and "bearer creds = Inr token" and "startswith token api_key_prefix"
  shows "serve_principal env cfg cy now creds handler redis (foldl (key_step cfg cy) d1 ops)
     = ((Inl (raise_app UnauthorizedError ''Invalid API key''), foldl (key_step cfg cy) d1 ops), redis)"
proof -
  have "keys_ok d1 \<and> dead_key (k_key_hash k) d1" by (rule revoke_key_dead [OF assms(1-3)])
  from dead_keys.run_inv [OF this, of cfg cy ops]
  have "principal_from_api_key env cy now token redis (open_session (foldl (key_step cfg cy) d1 ops))
     = ((Inl (raise_app UnauthorizedError ''Invalid API key''), open_session (foldl (key_step cfg cy) d1 ops)), redis)"
    by (intro dead_key_rejected) (simp_all add: assms(4))
  then show ?thesis
    using assms(5,6) by (simp add: serve_principal_def get_principal_def get_db_def tx_bind_def)
qed

lemma revoked_key_rejected_witness:
  "fst (serve_principal \<lparr>re_ops = fm_zset, re_pipe_ok = True, re_zrem_ok = True, re_member = []\<rparr>
      default_settings demo_crypto 5 (Some ''keel_sk_x'') (\<lambda>p. tx_return ()) demo_redis
      (mark_revoked 3 (empty_db\<lparr>api_keys := [demo_key]\<rparr>)))
   = (Inl (raise_app UnauthorizedError ''Invalid API key''), mark_revoked 3 (empty_db\<lparr>api_keys := [demo_key]\<rparr>))"
  using revoked_key_rejected [of "empty_db\<lparr>api_keys := [demo_key]\<rparr>" demo_key 7
      "mark_revoked 3 (empty_db\<lparr>api_keys := [demo_key]\<rparr>)" demo_crypto "''keel_sk_x''" "Some ''keel_sk_x''"
      "\<lparr>re_ops = fm_zset, re_pipe_ok = True, re_zrem_ok = True, re_member = []\<rparr>" default_settings 5
      "\<lambda>p. tx_return ()" demo_redis "[] :: (string, rat) fmap key_op list"]
  by (simp add: keys_ok_def demo_key_def revoke_key_def get_db_def tx_simps bearer_def py_strip_def
      strip_by_def py_isspace_def startswith_def api_key_prefix_def)

subsection \<open>Use is counted\<close>

text \<open>Whether a step is a call that passed with this key, and how many of a run did.\<close>

fun key_passes :: "settings \<Rightarrow> crypto \<Rightarrow> uuid \<Rightarrow> db \<Rightarrow> 'z key_op \<Rightarrow> bool" where
  "key_passes cfg cy kid d (KeyCall env redis now creds endpoint) =
     (case fst (fst (get_principal env cfg cy now creds redis (open_session d))) of
        Inl e \<Rightarrow> False | Inr p \<Rightarrow> p_api_key_id p = Some kid)"
| "key_passes cfg cy kid d (CreateKey new_id rnd now ws name sc usr) = False"
| "key_passes cfg cy kid d (RevokeKey ws k) = False"

fun key_uses :: "settings \<Rightarrow> crypto \<Rightarrow> uuid \<Rightarrow> db \<Rightarrow> 'z key_op list \<Rightarrow> nat" where
  "key_uses cfg cy kid d [] = 0"
| "key_uses cfg cy kid d (x # xs) =
     (if key_passes cfg cy kid d x then 1 else 0) + key_uses cfg cy kid (key_step cfg cy d x) xs"

lemma principal_from_api_key_Inl:
  "principal_from_api_key env cy now token redis s = ((Inl e, s'), redis') \<Longrightarrow> s' = s"
  by (auto simp: principal_from_api_key_def tx_simps split: sum.splits option.splits if_splits prod.splits)

lemma get_principal_Inl:
  "get_principal env cfg cy now creds redis s = ((Inl e, s'), redis') \<Longrightarrow> s' = s"
  using principal_from_jwt_state [of cfg cy now _ s]
  by (auto simp: get_principal_def dest!: principal_from_api_key_Inl split: sum.splits if_splits prod.splits)
     (metis snd_conv)+

lemma serve_keys:
  assumes "\<And>p. tx_keeps (\<lambda>d. api_keys d = K) (handler p)" and "api_keys (committed s) = K" and "api_keys (working s) = K"
    and "fst (get_principal env cfg cy now creds redis (open_session d)) = (Inr p, s)"
  shows "api_keys (snd (fst (serve_principal env cfg cy now creds handler redis d))) = K"
proof -
  obtain r s2 where run: "handler p s = (r, s2)" by fastforce
  then have "api_keys (committed s2) = K" "api_keys (working s2) = K"
    using assms(1) [of p] assms(2,3) unfolding tx_keeps_def by (metis snd_conv)+
  then show ?thesis using run assms(4) by (cases r) (simp_all add: serve_principal_def get_db_def tx_bind_def)
qed

lemma log_api_call_keys: "tx_keeps (\<lambda>d. api_keys d = K) (log_api_call now p endpoint)"
  by (rule log_api_call_keeps) simp

lemma key_call_keys:
  "api_keys (key_step cfg cy d (KeyCall env redis now creds endpoint)) =
     (case fst (fst (get_principal env cfg cy now creds redis (open_session d))) of
        Inl e \<Rightarrow> api_keys d
      | Inr p \<Rightarrow> (case p_api_key_id p of None \<Rightarrow> api_keys d | Some kid \<Rightarrow> api_keys (touch_key kid now d)))"
proof -
  obtain r s redis' where run: "get_principal env cfg cy now creds redis (open_session d) = ((r, s), redis')"
    by (metis surj_pair)
  show ?thesis
  proof (cases r)
    case (Inl e)
    then show ?thesis
      using run get_principal_Inl [of env cfg cy now creds redis "open_session d" e s redis']
      by (simp add: serve_principal_def get_db_def tx_bind_def)
  next
    case (Inr p)
    from principal_sources_session [OF run [unfolded Inr]] show ?thesis
      using run Inr log_api_call_keys
      by (auto intro!: serve_keys [where s = s] split: option.split)
  qed
qed

lemma key_step_counts:
  assumes "keys_ok d" and "get_by k_id kid (api_keys d) = Some k"
  shows "\<exists>k'. get_by k_id kid (api_keys (key_step cfg cy d x)) = Some k' \<and>
     k_request_count k' = k_request_count k + (if key_passes cfg cy kid d x then 1 else 0)"
proof (cases x)
  case (CreateKey new_id rnd now ws name sc usr)
  obtain r d' where run: "get_db (create_key cy new_id rnd now ws name sc usr) d = (r, d')" by fastforce
  then have "d' = d \<or> (\<exists>k. add_api_key k d = Inr d')"
    by (auto simp: create_key_def get_db_def tx_simps Let_def split: sum.splits)
  then show ?thesis using assms(2) run CreateKey
    by (auto dest!: add_api_key_Inr simp: get_by_append)
next
  case (RevokeKey ws i)
  have "key_step cfg cy d x = d \<or> key_step cfg cy d x = mark_revoked i d"
    by (auto simp: RevokeKey revoke_key_def get_db_def tx_simps split: if_splits)
  then show ?thesis using assms(2) RevokeKey by (auto simp: mark_revoked_def get_by_set_rows)
next
  case (KeyCall env redis now creds endpoint)
  have "get_by k_id kid (api_keys (touch_key i now d)) = Some (if i = kid
      then k\<lparr>k_last_used_at := Some now, k_request_count := k_request_count k + 1\<rparr> else k)" for i
    using assms(2) get_by_Some [OF assms(2)] by (auto simp: touch_key_def get_by_set_rows)
  then show ?thesis
    using assms(2) unfolding KeyCall key_call_keys
    by (auto split: sum.split option.split)
qed

text \<open>
  Every call is counted: in any run of key operations and calls, the request count of a key
  grows by exactly the number of calls that passed as that key.
\<close>

theorem request_count_exact:
  assumes "keys_ok d" and "get_by k_id kid (api_keys d) = Some k"
  shows "\<exists>k'. get_by k_id kid (api_keys (foldl (key_step cfg cy) d ops)) = Some k' \<and>
     k_request_count k' = k_request_count k + int (key_uses cfg cy kid d ops)"
  using assms
proof (induction ops arbitrary: d k)
  case (Cons x xs)
  obtain k1 where k1: "get_by k_id kid (api_keys (key_step cfg cy d x)) = Some k1"
    "k_request_count k1 = k_request_count k + (if key_passes cfg cy kid d x then 1 else 0)"
    using key_step_counts [OF Cons.prems] by blast
  from Cons.IH [OF key_step_ok [OF Cons.prems(1)] k1(1)] k1(2) show ?case by auto
qed simp

lemma request_count_exact_witness:
  "\<exists>k'. get_by k_id 3 (api_keys (foldl (key_step default_settings demo_crypto) (empty_db\<lparr>api_keys := [demo_key]\<rparr>)
      [RevokeKey 7 3 :: (string, rat) fmap key_op])) = Some k' \<and> k_request_count k' = 0"
  using request_count_exact [of "empty_db\<lparr>api_keys := [demo_key]\<rparr>" 3 demo_key default_settings demo_crypto
      "[RevokeKey 7 3 :: (string, rat) fmap key_op]"]
  by (simp add: keys_ok_def demo_key_def)

subsection \<open>A created key works\<close>

lemma scope_of_value [simp]: "scope_of (scope_value sc) = Inr sc"
  by (cases sc) (simp_all add: scope_of_def)

lemma new_key_eq:
  "new_key cy new_id rnd now ws name sc usr =
     \<lparr>k_id = new_id, k_workspace_id = ws, k_name = name, k_key_prefix = take 14 (api_key_prefix @ rnd),
      k_key_hash = sha256_hex cy (api_key_prefix @ rnd), k_scope = scope_value sc, k_rate_limit_per_minute = 100,
      k_last_used_at = None, k_request_count = 0, k_revoked = False, k_created_by_id = usr, k_created_at = now\<rparr>"
  by (simp add: new_key_def generate_api_key_def Let_def default_rate_limit_def api_key_prefix_def)

lemma create_key_effect:
  assumes "get_db (create_key cy new_id rnd now ws name sc usr) d = (Inr out, d1)"
  shows "ko_secret out = api_key_prefix @ rnd" and "ko_id out = new_id" and "ko_scope out = sc"
    and "d1 = d\<lparr>api_keys := api_keys d @ [new_key cy new_id rnd now ws name sc usr]\<rparr>"
    and "sha256_hex cy (api_key_prefix @ rnd) \<notin> k_key_hash ` set (api_keys d)"
proof -
  let ?k = "new_key cy new_id rnd now ws name sc usr"
  have out: "key_out ?k = Inr \<lparr>ko_id = new_id, ko_name = name, ko_scope = sc, ko_created_at = now,
      ko_last_used_at = None, ko_request_count = 0, ko_rate_limit_per_minute = 100\<rparr>"
    by (simp add: key_out_def new_key_eq)
  have fields: "k_id ?k = new_id" "k_key_hash ?k = sha256_hex cy (api_key_prefix @ rnd)"
    by (simp_all add: new_key_eq)
  have add: "add_api_key ?k d = Inr d1" and res: "ko_secret out = api_key_prefix @ rnd" "ko_id out = new_id" "ko_scope out = sc"
    using assms out
    by (auto simp: create_key_def get_db_Inr tx_simps Let_def generate_api_key_def api_key_out.extend_def
        api_key_with_secret.fields_def split: sum.splits)
  show "ko_secret out = api_key_prefix @ rnd" "ko_id out = new_id" "ko_scope out = sc" by (fact res)+
  show "d1 = d\<lparr>api_keys := api_keys d @ [?k]\<rparr>"
    "sha256_hex cy (api_key_prefix @ rnd) \<notin> k_key_hash ` set (api_keys d)"
    using add_api_key_Inr [OF add] fields by simp_all
qed

text \<open>
  C20: A created key works, and only its hash is stored: what creation returns as the secret, shown
  once, passes as a principal of that workspace with that scope and no user, subject only to the
  rate limiter; the stored row holds the first fourteen characters and the hash.
\<close>

theorem created_key_works:
  assumes "list_all (\<lambda>c. \<not> py_isspace c) rnd"
    and "get_db (create_key cy new_id rnd now ws name sc usr) d = (Inr out, d1)"
  shows "api_keys d1 = api_keys d @ [new_key cy new_id rnd now ws name sc usr] \<and>
     k_key_prefix (new_key cy new_id rnd now ws name sc usr) = take 14 (ko_secret out) \<and>
     k_key_hash (new_key cy new_id rnd now ws name sc usr) = sha256_hex cy (ko_secret out) \<and>
     fst (fst (get_principal env cfg cy now2 (Some (ko_secret out)) redis (open_session d1)))
       = map_sum id (\<lambda>_. \<lparr>p_workspace_id = ws, p_user_id = None, p_role = PNone,
                            p_api_key_id = Some new_id, p_scope = Some (scope_value sc)\<rparr>)
           (fst (enforce (re_ops env) (re_pipe_ok env) (re_zrem_ok env) (of_int now2 / 1000000) (re_member env)
              (str_uuid new_id) 100 redis))"
proof -
  let ?k = "new_key cy new_id rnd now ws name sc usr"
  note eff = create_key_effect [OF assms(2)]
  have "\<not> py_isspace c" if "c \<in> set (api_key_prefix @ rnd)" for c
    using that assms(1) by (auto simp: list_all_iff api_key_prefix_def py_isspace_def)
  then have strip: "py_strip (api_key_prefix @ rnd) = api_key_prefix @ rnd"
    unfolding py_strip_def by (rule strip_by_none)
  then have bearer: "bearer (Some (api_key_prefix @ rnd)) = Inr (api_key_prefix @ rnd)"
    by (simp add: bearer_def api_key_prefix_def)
  have "filter (\<lambda>k. k_key_hash k = sha256_hex cy (api_key_prefix @ rnd)) (api_keys d1) = [?k]"
    using filter_new [OF eff(5)] by (simp add: eff(4)) (simp add: new_key_eq)
  then have "fst (fst (get_principal env cfg cy now2 (Some (ko_secret out)) redis (open_session d1)))
       = map_sum id (\<lambda>_. key_principal ?k)
           (fst (enforce (re_ops env) (re_pipe_ok env) (re_zrem_ok env) (of_int now2 / 1000000) (re_member env)
              (str_uuid (k_id ?k)) (k_rate_limit_per_minute ?k) redis))"
    by (simp add: get_principal_def eff(1) bearer startswith_def principal_from_api_key_def)
       (simp add: new_key_eq tx_simps split: prod.split sum.split)
  then show ?thesis
    by (simp add: eff(1,4) key_principal_def new_key_eq default_rate_limit_def api_key_prefix_def)
qed

lemma created_key_works_witness:
  "\<exists>out d1. get_db (create_key demo_crypto 9 ''abcdefgh'' 0 1 ''k'' ReadWrite None) demo_token_db = (Inr out, d1) \<and>
     map k_key_prefix (api_keys d1) = [''keel_sk_abcdef'']"
proof -
  have ws: "map w_id (workspaces demo_token_db) = [1]" and ks: "api_keys demo_token_db = []"
  proof -
    obtain res where "get_db (register default_settings demo_crypto (demo_fresh 1 ''r1'') 0
       ''Ann'' ''a@b.c'' ''Org'' ''long password'') empty_db = (Inr res, demo_token_db)"
      using demo_register by blast
    note eff = someI_ex [OF register_effect(1) [OF this]]
    show "map w_id (workspaces demo_token_db) = [1]"
      using arg_cong [OF eff, of workspaces] by (simp add: empty_db_def default_workspace_def demo_fresh_def)
    show "api_keys demo_token_db = []" using arg_cong [OF eff, of api_keys] by (simp add: empty_db_def)
  qed
  have "1 \<in> w_id ` set (workspaces demo_token_db)" using arg_cong [OF ws, of set] by simp
  then have "get_by w_id 1 (workspaces demo_token_db) \<noteq> None" unfolding get_by_mem .
  then have "\<exists>out d1. get_db (create_key demo_crypto 9 ''abcdefgh'' 0 1 ''k'' ReadWrite None) demo_token_db = (Inr out, d1)"
    by (simp add: create_key_def get_db_def tx_simps Let_def add_api_key_def ks new_key_eq key_out_def scope_of_def)
  then obtain out d1 where run: "get_db (create_key demo_crypto 9 ''abcdefgh'' 0 1 ''k'' ReadWrite None) demo_token_db = (Inr out, d1)"
    by blast
  have "list_all (\<lambda>c. \<not> py_isspace c) ''abcdefgh''" by (simp add: py_isspace_def)
  note works = created_key_works [OF this run, of "\<lparr>re_ops = fm_zset, re_pipe_ok = True, re_zrem_ok = True, re_member = []\<rparr>"
      default_settings 0 demo_redis]
  have "map k_key_prefix (api_keys d1) = [take 14 (ko_secret out)]"
    using works by (simp only: ks append_Nil list.map)
  then show ?thesis using run create_key_effect(1) [OF run] by (auto simp: api_key_prefix_def)
qed

end
