(* ===== verification/Frames.thy ===== *)
theory Frames
  imports Document_Laws Connector_Laws Api_Keys
begin

text \<open>
  What an operation of one component leaves alone in the tables of the others: per component a locale
  that says what a predicate on the database needs in order to survive its writes, and the proof that
  it then survives all its operations, committed or not.
\<close>

subsection \<open>Account requests and the other tables\<close>

text \<open>
  A predicate that allows any organizations, members and tokens, more users and more workspaces with
  the default settings.
\<close>

locale account_frame =
  fixes P :: "db \<Rightarrow> bool"
  assumes tables: "P d \<Longrightarrow> P (d\<lparr>organizations := orgs\<rparr>) \<and> P (d\<lparr>members := ms\<rparr>) \<and> P (d\<lparr>refresh_tokens := ts\<rparr>)"
    and more_users: "P d \<Longrightarrow> u_id ` set (users d) \<subseteq> u_id ` set us \<Longrightarrow> P (d\<lparr>users := us\<rparr>)"
    and more_workspaces: "P d \<Longrightarrow> P (d\<lparr>workspaces := workspaces d @ [default_workspace wid oid name]\<rparr>)"
begin

lemma adds:
  "tx_keeps P (tx_update (add_organization org))"
  "tx_keeps P (tx_update (add_workspace (default_workspace wid oid name)))"
  "tx_keeps P (tx_update (add_user u))"
  "tx_keeps P (tx_update (add_member m))"
  "tx_keeps P (tx_update (add_refresh_token t))"
  by (rule tx_keeps_update; drule add_cases; force intro: more_users simp: tables more_workspaces)+

lemma modifies:
  "(\<And>u. u_id (f u) = u_id u) \<Longrightarrow> tx_keeps P (tx_modify (update_user uid f))"
  "tx_keeps P (tx_modify (revoke_token h now))"
  by (rule tx_keeps_modify; force intro: more_users simp: update_user_def revoke_token_def tables set_rows_image)+

lemma session_keeps: "tx_keeps P (session_for cfg cy fr now u)"
  "tx_keeps P (finish_session cfg cy fr now u w role org)"
  unfolding session_for_def finish_session_def issue_tokens_def generate_refresh_token_def membership_def
    resolve_workspace_org_def Let_def prod.case
  by (intro inv_intros adds)+

lemma auth_keeps:
  "tx_keeps P (register cfg cy fr now full_name email org pw)"
  "tx_keeps P (login cfg cy fr now email pw)"
  "tx_keeps P (refresh cfg cy fr now raw)"
  "tx_keeps P (logout cy now raw_opt)"
  unfolding register_def login_def refresh_def logout_def Let_def
  by (intro inv_intros adds modifies session_keeps; simp)+

lemma user_keeps:
  "tx_keeps P (invite cy uid salt pw ws email r)"
  "tx_keeps P (change_role ws uid r)"
  "tx_keeps P (remove_user ws uid)"
proof -
  show "tx_keeps P (invite cy uid salt pw ws email r)"
    unfolding invite_def Let_def by (intro inv_intros adds)
  show "tx_keeps P (change_role ws uid r)"
    unfolding change_role_def
    by (rule tx_keeps_plan, drule plan_change_role_Inr, simp add: set_role_def tables, intro inv_intros)
  show "tx_keeps P (remove_user ws uid)"
    unfolding remove_user_def
    by (rule tx_keeps_plan, drule plan_remove_user_Inr, simp add: drop_member_def tables, intro inv_intros)
qed

lemma account_step_keeps: "P d \<Longrightarrow> P (account_step cfg cy d x)"
  by (cases x) (simp_all add: get_db_keeps auth_keeps user_keeps)

end

subsection \<open>Document requests, ingestions and the other tables\<close>

text \<open>A predicate that says nothing of documents, their attached rows and the call log.\<close>

locale document_frame =
  fixes P :: "db \<Rightarrow> bool"
  assumes rows: "P d \<Longrightarrow> P (d\<lparr>documents := docs\<rparr>) \<and> P (d\<lparr>document_chunks := chunks\<rparr>) \<and>
      P (d\<lparr>ingestion_jobs := jobs\<rparr>) \<and> P (d\<lparr>ingestion_errors := errors\<rparr>)"
    and logs: "P d \<Longrightarrow> P (d\<lparr>api_call_logs := calls\<rparr>)"
begin

lemma drop_keeps: "P d \<Longrightarrow> P (drop_document doc_id d)"
proof -
  let ?d1 = "\<lambda>d. d\<lparr>documents := filter (\<lambda>r. d_id r \<noteq> doc_id) (documents d)\<rparr>"
  let ?d2 = "\<lambda>d. d\<lparr>document_chunks := filter (\<lambda>c. c_document_id c \<noteq> doc_id) (document_chunks d)\<rparr>"
  let ?d3 = "\<lambda>d. d\<lparr>ingestion_jobs := filter (\<lambda>j. j_document_id j \<noteq> doc_id) (ingestion_jobs d)\<rparr>"
  let ?d4 = "\<lambda>d. d\<lparr>ingestion_errors := filter (\<lambda>e. e_document_id e \<noteq> doc_id) (ingestion_errors d)\<rparr>"
  assume "P d"
  then have "P (?d4 (?d3 (?d2 (?d1 d))))" using rows by blast
  then show ?thesis by (simp add: drop_document_def)
qed

lemma writes:
  "tx_keeps P (tx_update (add_document r))" "tx_keeps P (tx_update (add_job j))"
  "tx_keeps P (tx_modify (update_document doc_id f))" "tx_keeps P (tx_modify (drop_document doc_id))"
  "tx_keeps P (log_api_call now p endpoint)"
proof -
  show "tx_keeps P (tx_update (add_document r))" "tx_keeps P (tx_update (add_job j))"
    by (rule tx_keeps_update, use rows in \<open>auto simp: add_document_def add_job_def split: if_splits\<close>)+
  show "tx_keeps P (tx_modify (update_document doc_id f))"
    by (rule tx_keeps_modify) (simp add: update_document_def rows)
  show "tx_keeps P (tx_modify (drop_document doc_id))"
    by (rule tx_keeps_modify) (rule drop_keeps)
  show "tx_keeps P (log_api_call now p endpoint)"
    by (rule log_api_call_keeps) (rule logs)
qed

lemma service_keeps:
  "tx_keeps P (get_owned ws doc_id)" "tx_keeps P (update_tags ws doc_id tags)" "tx_keeps P (delete_document ws doc_id)"
  unfolding update_tags_def delete_document_def get_owned_def
  by (intro inv_intros writes)+

lemma created_keeps: "tx_keeps (\<lambda>(d, ou). P d) (create_queued_document env ws f)"
  "tx_keeps (\<lambda>(d, ou). P d) (reprocess env ws doc_id)"
  unfolding create_queued_document_def reprocess_def Let_def
  by (intro inv_intros on_db_keeps outside_keeps writes service_keeps)+

lemma request_keeps: "tx_keeps (\<lambda>(d, ou). P d) (doc_request env p req)"
proof (cases req)
  case (UploadPart u n data)
  then show ?thesis
    unfolding doc_request.simps no_result_def ingest_file_part_route_def UploadPart
    by (auto intro!: inv_intros outside_keeps)
qed (auto simp: no_result_def ingest_text_route_def ingest_record_route_def ingest_file_route_def ingest_text_with_def
  ingest_text_def Let_def intro!: inv_intros on_db_keeps service_keeps created_keeps uploader_keeps outside_keeps
  store_upload_keeps(1) writes)

lemma outside_run_keeps:
  "P d \<Longrightarrow> run_outside (doc_request env p req) (open_session d) ou = (r, ou', d') \<Longrightarrow> P d'"
  by (rule run_outside_keeps [OF request_keeps]) simp_all

text \<open>An ingestion whose interruptions keep the document tables and the predicate keeps both.\<close>

lemma flush_keeps: "P d \<Longrightarrow> flush_db w d = Inr d' \<Longrightarrow> P d'"
proof -
  assume "P d" and run: "flush_db w d = Inr d'"
  obtain d1 d2 d3 where fl: "flush_doc (wk_doc_saved w) (wk_doc w) d = Inr d1"
    "flush_job (wk_job_saved w) (wk_job w) d1 = Inr d2" "insert_chunks (wk_new_chunks w) d2 = Inr d3"
    "insert_errors (wk_new_errors w) d3 = Inr d'"
    using run by (rule flush_db_Inr)
  have "P d1" using flush_doc_Inr [OF fl(1)] \<open>P d\<close> rows by auto
  then have "P d2" using flush_job_Inr [OF fl(2)] rows by auto
  then have "P d3" using insert_Inr(1) [OF fl(3)] rows by auto
  then show "P d'" using insert_Inr(2) [OF fl(4)] rows by auto
qed

lemma worker_keeps:
  fixes env :: "('q, 'w, 's) ingest_env"
  assumes "\<And>n d. docs_ok d \<Longrightarrow> P d \<Longrightarrow> docs_ok (ie_others env n d) \<and> P (ie_others env n d)"
  shows "worker_full (\<lambda>(d, w). docs_worker (d, w) \<and> P d) env"
proof unfold_locales
  fix d d' and w :: "('q, 'w, 's) worker"
  show "case (d, w) of (d, w) \<Rightarrow> docs_worker (d, w) \<and> P d \<Longrightarrow> flush_db w d = Inr d' \<Longrightarrow>
      case (d', saved w) of (d, w) \<Rightarrow> docs_worker (d, w) \<and> P d"
    by (auto intro: ok_flush flush_keeps)
next
  fix d chunks and w :: "('q, 'w, 's) worker"
  show "case (d, w) of (d, w) \<Rightarrow> docs_worker (d, w) \<and> P d \<Longrightarrow>
    case (d\<lparr>document_chunks := filter (\<lambda>c. c_document_id c \<noteq> d_id (wk_doc w)) (document_chunks d)\<rparr>,
       w\<lparr>wk_new_chunks := chunk_rows (ie_chunk_id env) (wk_doc w) chunks\<rparr>) of (d, w) \<Rightarrow> docs_worker (d, w) \<and> P d"
    by (auto simp: docs_worker_def docs_ok_def ingest_fk_def rows)
qed (use assms in \<open>auto simp: docs_worker_def valid_touched, auto simp: valid_doc_def\<close>)

lemma ingestion_keeps:
  fixes env :: "('q, 'w, 's) ingest_env"
  assumes "\<And>n d. docs_ok d \<Longrightarrow> P d \<Longrightarrow> docs_ok (ie_others env n d) \<and> P (ie_others env n d)"
    and "docs_ok d" and "P d" and "ingest_run env doc_id sv d = (r, sv', d')"
  shows "docs_ok d' \<and> P d'"
proof -
  have "(sv' = sv \<and> d' = d) \<or>
      ((\<exists>w :: ('q, 'w, 's) worker. (case (d', w) of (d, w) \<Rightarrow> docs_worker (d, w) \<and> P d)) \<and>
       (\<exists>d2 (w :: ('q, 'w, 's) worker). sv' = services.truncate w \<and> (case (d2, w) of (d, w) \<Rightarrow> docs_worker (d, w) \<and> P d)))"
    by (rule worker_full.run_keeps [OF worker_keeps [OF assms(1)] _ _ assms(4)])
      (use docs_worker_start [OF assms(2)] docs_worker_fresh [OF assms(2)] assms(3) rows in simp_all)
  then show ?thesis using assms(2,3) by (auto simp: docs_worker_def)
qed

end

subsection \<open>Connector requests\<close>

lemma with_docs_keeps: "tx_keeps (\<lambda>(d, ou). P d) m \<Longrightarrow> tx_keeps (\<lambda>((d, ou), h). P d) (with_docs m)"
  unfolding tx_keeps_def with_docs_def by (auto simp: case_prod_unfold)

lemma on_http_keeps: "tx_keeps (\<lambda>((d, ou), h). P d) (on_http f)"
  unfolding tx_keeps_def on_http_def by (auto simp: case_prod_unfold)

lemma catch_file_keeps: "tx_keeps P m \<Longrightarrow> tx_keeps P (catch_file m)"
  unfolding tx_keeps_def catch_file_def by (auto simp: case_prod_unfold split: sum.split)

lemma connector_reads_keep:
  "tx_keeps (\<lambda>((d, ou), h). P d) (with_db (get_connector ws cid))"
  "tx_keeps (\<lambda>((d, ou), h). P d) (access_token env cid)"
  unfolding get_connector_def access_token_def
  by (intro inv_intros with_docs_keeps on_db_keeps on_http_keeps)+

lemma run_connector_keeps:
  assumes "tx_keeps (\<lambda>((d, ou), h). P d) m" and "P d" and "run_connector m d ou h = (r, h', ou', d')"
  shows "P d'"
proof -
  obtain t where t: "m (open_session ((d, ou), h)) = (r, t)"
    and d': "d' = (case r of Inl e \<Rightarrow> the_db (committed t) | Inr x \<Rightarrow> the_db (working t))"
    using run_connector_open [OF assms(3)] by blast
  have "P (the_db (committed t))" "P (the_db (working t))"
    using assms(1) [unfolded tx_keeps_def, rule_format, of "open_session ((d, ou), h)"] assms(2) t
    by (simp_all add: case_prod_unfold)
  then show ?thesis by (simp add: d' split: sum.split)
qed

text \<open>
  A sync keeps what the creation of a document and the note of the last sync keep.
\<close>

locale sync_frame =
  fixes P :: "db \<Rightarrow> bool" and ws :: uuid and env :: "('s, 'h) conn_env"
  assumes created: "df_file_type f \<in> set allowed_types \<Longrightarrow> df_source_type f \<in> set source_values \<Longrightarrow>
      tx_keeps (\<lambda>(d, ou). P d) (create_queued_document (file_env env n) ws f)"
    and noted: "P d \<Longrightarrow> P (set_connector cid (\<lambda>c. c\<lparr>cn_last_synced_at := t, cn_last_sync_document_count := k\<rparr>) d)"
begin

lemma create_synced_keeps:
  assumes "df_file_type f \<in> set allowed_types" and "df_source_type f \<in> set source_values"
  shows "tx_keeps (\<lambda>((d, ou), h). P d) (create_synced env n ws f)"
  unfolding tx_keeps_def
proof (intro allI impI)
  fix s :: "((db \<times> 's outside) \<times> 'h) session"
  assume s: "(\<lambda>((d, ou), h). P d) (committed s)" "(\<lambda>((d, ou), h). P d) (working s)"
  obtain r t where run: "with_docs (create_queued_document (file_env env n) ws f) s = (r, t)" by fastforce
  have keeps: "tx_keeps (\<lambda>((d, ou), h :: 'h). P d) (with_docs (create_queued_document (file_env env n) ws f))"
    by (rule with_docs_keeps, rule created, (rule assms)+)
  have "P (the_db (committed t))" "P (the_db (working t))"
    using keeps [unfolded tx_keeps_def, THEN spec, of s] s run by (simp_all add: case_prod_unfold)
  then show "(\<lambda>((d, ou), h). P d) (committed (snd (create_synced env n ws f s))) \<and>
      (\<lambda>((d, ou), h). P d) (working (snd (create_synced env n ws f s)))"
    using run by (cases r) (simp_all add: create_synced_def case_prod_unfold)
qed

lemma sync_file_keeps:
  shows "tx_keeps (\<lambda>((d, ou), h). P d) (sync_file env ws cid tok n fid)"
  unfolding sync_file_def Let_def
proof (intro catch_file_keeps inv_intros with_docs_keeps on_db_keeps on_http_keeps)
  fix name
  show "tx_keeps (\<lambda>((d, ou), h). P d) (case detect_file_type name None of Inl _ \<Rightarrow> tx_return FileSkipped
      | Inr file_type \<Rightarrow> tx_bind (on_http (download_file (ce_http env) tok fid)) (\<lambda>data.
          tx_seq (with_docs (on_storage (sa_save_bytes (ce_storage env)
            (build_path (str_uuid ws) (str_uuid (ce_doc_id env n)) name) data)))
          (tx_bind (tx_lift (drive_mime meta)) (\<lambda>mime. create_synced env n ws
             (sync_fields cid fid name (build_path (str_uuid ws) (str_uuid (ce_doc_id env n)) name) file_type mime data)))))"
    for meta
    using detect_allowed [of name None]
    by (auto split: sum.split intro!: inv_intros on_http_keeps with_docs_keeps outside_keeps create_synced_keeps
        simp: sync_fields_def simp del: source_value.simps)
qed

lemma sync_keeps:
  shows "tx_keeps (\<lambda>((d, ou), h). P d) (sync env ws cid fids)"
proof -
  have loop: "tx_keeps (\<lambda>((d, ou), h). P d) (sync_loop env ws cid tok n fids broken)" for tok n fids broken
    by (induction fids arbitrary: n broken) (auto intro!: inv_intros sync_file_keeps)
  show ?thesis
    unfolding sync_def
    by (intro inv_intros with_docs_keeps on_db_keeps connector_reads_keep loop tx_keeps_modify noted)
qed

end

end
