(* ===== verification/Settings_Service.thy ===== *)
theory Settings_Service
  imports Chat_Laws
begin

text \<open>
  The settings of a workspace and its model configuration (\<^verbatim>\<open>app/services/settings_service.py\<close>,
  \<^verbatim>\<open>app/api/settings.py\<close>, \<^verbatim>\<open>app/api/model.py\<close>, \<^verbatim>\<open>app/schemas/settings.py\<close>): what an administrator can
  change, within which ranges, and what of it a chat then uses.
\<close>

subsection \<open>Schemas\<close>

definition chat_models :: "string list" where "chat_models = [''gpt-4o-mini'', ''gpt-4o'']"

record settings_patch =
  sp_workspace_name :: "string option"
  sp_organization_name :: "string option"
  sp_auto_start_ingestion :: "bool option"
  sp_chat_model :: "string option"
  sp_chat_top_k :: "int option"
  sp_min_similarity_threshold :: "rat option"
  sp_rest_api_enabled :: "bool option"
  sp_default_rate_limit :: "int option"

definition given_ok :: "('a \<Rightarrow> bool) \<Rightarrow> 'a option \<Rightarrow> bool" where
  "given_ok P x \<longleftrightarrow> (case x of None \<Rightarrow> True | Some v \<Rightarrow> P v)"

definition patch_ok :: "settings_patch \<Rightarrow> bool" where
  "patch_ok p \<longleftrightarrow> given_ok (\<lambda>m. m \<in> set chat_models) (sp_chat_model p) \<and>
     given_ok (\<lambda>k. 5 \<le> k \<and> k \<le> 25) (sp_chat_top_k p) \<and>
     given_ok (\<lambda>m. 1 / 2 \<le> m \<and> m \<le> 9 / 10) (sp_min_similarity_threshold p) \<and>
     given_ok (\<lambda>n. 1 \<le> n) (sp_default_rate_limit p)"

record settings_out =
  so_workspace_name :: string
  so_organization_name :: string
  so_auto_start_ingestion :: bool
  so_chat_model :: string
  so_chat_top_k :: int
  so_min_similarity_threshold :: rat
  so_rest_api_enabled :: bool
  so_default_rate_limit :: int
  so_sync_mode :: string
  so_read_only :: "string list"

subsection \<open>The service\<close>

definition load_workspace :: "uuid \<Rightarrow> (workspace \<times> organization) db_tx" where
  "load_workspace ws =
     tx_query (\<lambda>d. case get_by w_id ws (workspaces d) of
         None \<Rightarrow> Inl (raise_app NotFoundError ''Workspace not found'')
       | Some w \<Rightarrow>
           (case get_by o_id (w_organization_id w) (organizations d) of
              None \<Rightarrow> Inl (raise_app NotFoundError ''Organization not found'')
            | Some org \<Rightarrow> Inr (w, org)))"

definition to_settings :: "workspace \<Rightarrow> organization \<Rightarrow> exn + settings_out" where
  "to_settings w org =
     (if w_chat_model w \<notin> set chat_models then Inl pydantic_error
      else Inr \<lparr>so_workspace_name = w_name w, so_organization_name = o_name org,
        so_auto_start_ingestion = w_auto_start_ingestion w, so_chat_model = w_chat_model w,
        so_chat_top_k = w_chat_top_k w, so_min_similarity_threshold = w_min_similarity w,
        so_rest_api_enabled = w_rest_api_enabled w, so_default_rate_limit = w_default_rate_limit_per_minute w,
        so_sync_mode = ''manual'',
        so_read_only = [''Docling 2.x'', w_embedding_model w, ''Qdrant Community'', ''Neo4j Community'']\<rparr>)"

definition get_settings :: "uuid \<Rightarrow> settings_out db_tx" where
  "get_settings ws = tx_bind (load_workspace ws) (\<lambda>(w, org). tx_lift (to_settings w org))"

definition value_or :: "'a option \<Rightarrow> 'a \<Rightarrow> 'a" where
  "value_or x dflt = (case x of None \<Rightarrow> dflt | Some v \<Rightarrow> v)"

definition patched :: "settings_patch \<Rightarrow> workspace \<Rightarrow> workspace" where
  "patched p w =
     w\<lparr>w_name := value_or (sp_workspace_name p) (w_name w),
       w_auto_start_ingestion := value_or (sp_auto_start_ingestion p) (w_auto_start_ingestion w),
       w_chat_model := value_or (sp_chat_model p) (w_chat_model w),
       w_chat_top_k := value_or (sp_chat_top_k p) (w_chat_top_k w),
       w_min_similarity := value_or (sp_min_similarity_threshold p) (w_min_similarity w),
       w_rest_api_enabled := value_or (sp_rest_api_enabled p) (w_rest_api_enabled w),
       w_default_rate_limit_per_minute := value_or (sp_default_rate_limit p) (w_default_rate_limit_per_minute w)\<rparr>"

definition renamed :: "settings_patch \<Rightarrow> organization \<Rightarrow> organization" where
  "renamed p org = org\<lparr>o_name := value_or (sp_organization_name p) (o_name org)\<rparr>"

text \<open>The flush checks the widths of the columns that are written; an \<open>Integer\<close> column has 32 bits.\<close>

definition write_settings :: "settings_patch \<Rightarrow> workspace \<Rightarrow> organization \<Rightarrow> db \<Rightarrow> exn + db" where
  "write_settings p w org d =
     (if \<not> given_ok (\<lambda>s. length s \<le> 255) (sp_workspace_name p) \<or> \<not> given_ok (\<lambda>s. length s \<le> 255) (sp_organization_name p) \<or>
         \<not> given_ok (\<lambda>n. n < 2 ^ 31) (sp_default_rate_limit p)
      then Inl (PyError ''DBAPIError'' ''value too long'')
      else Inr (d\<lparr>workspaces := set_rows (\<lambda>x. w_id x = w_id w) (patched p) (workspaces d),
                  organizations := set_rows (\<lambda>x. o_id x = o_id org) (renamed p) (organizations d)\<rparr>))"

definition update_settings :: "uuid \<Rightarrow> settings_patch \<Rightarrow> settings_out db_tx" where
  "update_settings ws p =
     tx_bind (load_workspace ws) (\<lambda>(w, org).
     tx_seq (tx_update (write_settings p w org))
     (tx_seq tx_commit (tx_lift (to_settings (patched p w) (renamed p org)))))"

subsection \<open>Model configuration\<close>

record model_config =
  mc_parser :: "string \<times> string \<times> string \<times> string list"
  mc_embedding_provider :: string
  mc_embedding_model :: string
  mc_embedding_dimensions :: int
  mc_max_input_tokens :: int
  mc_chunk_target :: int
  mc_chunk_max :: int
  mc_chat_provider :: string
  mc_chat_model :: string
  mc_max_context_tokens :: int
  mc_retrieval_context_tokens :: int
  mc_vector_store :: "string \<times> string \<times> string"
  mc_graph_store :: string

definition get_model_config :: "uuid \<Rightarrow> model_config db_tx" where
  "get_model_config ws =
     tx_bind (load_workspace ws) (\<lambda>(w, org).
     if w_chat_model w \<notin> set chat_models then tx_raise pydantic_error
     else tx_return \<lparr>mc_parser = (''Docling'', ''2.x'', ''Streaming for files > 50 MB'',
              [''PDF'', ''DOCX'', ''TXT'', ''CSV'', ''XLSX'', ''PPTX'']),
            mc_embedding_provider = ''OpenAI'', mc_embedding_model = w_embedding_model w,
            mc_embedding_dimensions = w_embedding_dims w, mc_max_input_tokens = 8191, mc_chunk_target = 512,
            mc_chunk_max = 1024, mc_chat_provider = ''OpenAI'', mc_chat_model = w_chat_model w,
            mc_max_context_tokens = 128000, mc_retrieval_context_tokens = 8000,
            mc_vector_store = (''Qdrant Community'', ''HNSW (m=16, ef_construction=64)'', ''Cosine''),
            mc_graph_store = ''Neo4j Community''\<rparr>)"

subsection \<open>Routes\<close>

definition get_settings_route :: "settings \<Rightarrow> crypto \<Rightarrow> timestamp \<Rightarrow> string option \<Rightarrow> settings_out db_tx" where
  "get_settings_route cfg cy now creds = tx_bind (get_current_user cfg cy now creds) (\<lambda>p. get_settings (p_workspace_id p))"

definition update_settings_route ::
    "settings \<Rightarrow> crypto \<Rightarrow> timestamp \<Rightarrow> string option \<Rightarrow> settings_patch \<Rightarrow> settings_out db_tx" where
  "update_settings_route cfg cy now creds patch =
     tx_bind (require_admin cfg cy now creds) (\<lambda>p.
     if \<not> patch_ok patch then tx_raise (ValidationError [Some ''patch'']) else update_settings (p_workspace_id p) patch)"

definition get_model_route :: "settings \<Rightarrow> crypto \<Rightarrow> timestamp \<Rightarrow> string option \<Rightarrow> model_config db_tx" where
  "get_model_route cfg cy now creds = tx_bind (get_current_user cfg cy now creds) (\<lambda>p. get_model_config (p_workspace_id p))"

subsection \<open>What an update does\<close>

text \<open>The ranges a workspace's settings keep.\<close>

definition settings_in_range :: "workspace \<Rightarrow> bool" where
  "settings_in_range w \<longleftrightarrow> w_chat_model w \<in> set chat_models \<and> 5 \<le> w_chat_top_k w \<and> w_chat_top_k w \<le> 25 \<and>
     1 / 2 \<le> w_min_similarity w \<and> w_min_similarity w \<le> 9 / 10 \<and> 1 \<le> w_default_rate_limit_per_minute w"

lemma patched_keys [simp]: "w_id (patched p w) = w_id w" "w_organization_id (patched p w) = w_organization_id w"
  by (simp_all add: patched_def)

lemma renamed_keys [simp]: "o_id (renamed p org) = o_id org"
  by (simp add: renamed_def)

lemma patched_in_range: "patch_ok p \<Longrightarrow> settings_in_range w \<Longrightarrow> settings_in_range (patched p w)"
  by (auto simp: patch_ok_def settings_in_range_def patched_def value_or_def given_ok_def split: option.splits)

lemma update_run:
  assumes "get_db (update_settings ws p) d = (Inr out, d')"
  obtains w org where "get_by w_id ws (workspaces d) = Some w" "get_by o_id (w_organization_id w) (organizations d) = Some org"
    "d' = d\<lparr>workspaces := set_rows (\<lambda>x. w_id x = ws) (patched p) (workspaces d),
      organizations := set_rows (\<lambda>x. o_id x = w_organization_id w) (renamed p) (organizations d)\<rparr>"
    "to_settings (patched p w) (renamed p org) = Inr out"
proof -
  obtain w org where rows: "get_by w_id ws (workspaces d) = Some w" "get_by o_id (w_organization_id w) (organizations d) = Some org"
    using assms by (auto simp: get_db_def update_settings_def load_workspace_def tx_simps split: option.splits)
  have ids: "w_id w = ws" "o_id org = w_organization_id w"
    using get_by_Some [OF rows(1)] get_by_Some [OF rows(2)] by simp_all
  show thesis
    by (rule that [OF rows])
      (use assms rows ids in \<open>auto simp: get_db_def update_settings_def load_workspace_def write_settings_def tx_simps split: sum.splits if_splits\<close>)
qed

text \<open>
  C36: Settings are what was last set: when an update succeeds, reading them gives exactly its answer, in
  which every field given has the new value and every other its old one; a chat of the workspace then
  uses this model, this number of chunks and this threshold; all other workspaces keep their settings,
  and if all were in range before, all are in range after.
\<close>

theorem settings_read_back:
  assumes "get_db (update_settings ws p) d = (Inr out, d')" and "ch_settings_up env"
  shows "get_db (get_settings ws) d' = (Inr out, d') \<and>
    (\<exists>w org. get_by w_id ws (workspaces d) = Some w \<and> get_by o_id (w_organization_id w) (organizations d) = Some org \<and>
       so_workspace_name out = value_or (sp_workspace_name p) (w_name w) \<and>
       so_organization_name out = value_or (sp_organization_name p) (o_name org) \<and>
       so_auto_start_ingestion out = value_or (sp_auto_start_ingestion p) (w_auto_start_ingestion w) \<and>
       so_chat_model out = value_or (sp_chat_model p) (w_chat_model w) \<and>
       so_chat_top_k out = value_or (sp_chat_top_k p) (w_chat_top_k w) \<and>
       so_min_similarity_threshold out = value_or (sp_min_similarity_threshold p) (w_min_similarity w) \<and>
       so_rest_api_enabled out = value_or (sp_rest_api_enabled p) (w_rest_api_enabled w) \<and>
       so_default_rate_limit out = value_or (sp_default_rate_limit p) (w_default_rate_limit_per_minute w)) \<and>
    ws_settings env ws d' = (Some (so_chat_model out), Some (so_chat_top_k out), Some (so_min_similarity_threshold out)) \<and>
    filter (\<lambda>w. w_id w \<noteq> ws) (workspaces d') = filter (\<lambda>w. w_id w \<noteq> ws) (workspaces d) \<and>
    (patch_ok p \<longrightarrow> (\<forall>w \<in> set (workspaces d). settings_in_range w) \<longrightarrow> (\<forall>w \<in> set (workspaces d'). settings_in_range w))"
proof (rule update_run [OF assms(1)])
  fix w org
  assume w: "get_by w_id ws (workspaces d) = Some w" and org: "get_by o_id (w_organization_id w) (organizations d) = Some org"
    and d': "d' = d\<lparr>workspaces := set_rows (\<lambda>x. w_id x = ws) (patched p) (workspaces d),
      organizations := set_rows (\<lambda>x. o_id x = w_organization_id w) (renamed p) (organizations d)\<rparr>"
    and out: "to_settings (patched p w) (renamed p org) = Inr out"
  have w': "get_by w_id ws (workspaces d') = Some (patched p w)"
    using w get_by_Some [OF w] by (simp add: d' get_by_set_rows)
  have org': "get_by o_id (w_organization_id (patched p w)) (organizations d') = Some (renamed p org)"
    using org get_by_Some [OF org] by (simp add: d' get_by_set_rows)
  have fields: "so_workspace_name out = w_name (patched p w)" "so_organization_name out = o_name (renamed p org)"
    "so_auto_start_ingestion out = w_auto_start_ingestion (patched p w)" "so_chat_model out = w_chat_model (patched p w)"
    "so_chat_top_k out = w_chat_top_k (patched p w)" "so_min_similarity_threshold out = w_min_similarity (patched p w)"
    "so_rest_api_enabled out = w_rest_api_enabled (patched p w)"
    "so_default_rate_limit out = w_default_rate_limit_per_minute (patched p w)"
    using out by (auto simp: to_settings_def split: if_splits)
  have "get_db (get_settings ws) d' = (Inr out, d')"
    by (simp add: get_db_def get_settings_def load_workspace_def tx_simps w' org' [simplified] out)
  moreover have "ws_settings env ws d' = (Some (so_chat_model out), Some (so_chat_top_k out), Some (so_min_similarity_threshold out))"
    using assms(2) by (simp add: ws_settings_def w' fields)
  moreover have "filter (\<lambda>w. w_id w \<noteq> ws) (workspaces d') = filter (\<lambda>w. w_id w \<noteq> ws) (workspaces d)"
    by (simp add: d' set_rows_filter_other)
  moreover have "patch_ok p \<longrightarrow> (\<forall>w \<in> set (workspaces d). settings_in_range w) \<longrightarrow> (\<forall>w \<in> set (workspaces d'). settings_in_range w)"
    using patched_in_range by (auto simp: d' dest!: set_rows_mem)
  ultimately show ?thesis using w org by (simp add: fields patched_def renamed_def)
qed

subsection \<open>Witness\<close>

definition demo_patch :: settings_patch where
  "demo_patch = \<lparr>sp_workspace_name = Some ''new'', sp_organization_name = None, sp_auto_start_ingestion = None,
     sp_chat_model = Some ''gpt-4o'', sp_chat_top_k = Some 20, sp_min_similarity_threshold = Some (3 / 4),
     sp_rest_api_enabled = None, sp_default_rate_limit = None\<rparr>"

definition demo_settings_db :: db where
  "demo_settings_db = demo_chat_db\<lparr>organizations := [\<lparr>o_id = 1, o_name = ''org'', o_slug = ''org''\<rparr>]\<rparr>"

lemma settings_read_back_witness:
  "\<exists>out d'. get_db (update_settings 2 demo_patch) demo_settings_db = (Inr out, d') \<and> so_chat_top_k out = 20 \<and>
     ws_settings demo_chat_env 2 d' = (Some (so_chat_model out), Some 20, Some (so_min_similarity_threshold out))"
proof -
  obtain r d' where run: "get_db (update_settings 2 demo_patch) demo_settings_db = (r, d')" by fastforce
  have "case fst (get_db (update_settings 2 demo_patch) demo_settings_db) of Inr out \<Rightarrow> so_chat_top_k out = 20 | Inl e \<Rightarrow> False"
    by code_simp
  then obtain out where out: "r = Inr out" "so_chat_top_k out = 20" by (auto simp: run split: sum.splits)
  have up: "ch_settings_up demo_chat_env" by (simp add: demo_chat_env_def)
  from settings_read_back [OF run [unfolded out(1)] up] out run show ?thesis by auto
qed

end
