(* ===== verification/Dashboard.thy ===== *)
theory Dashboard
  imports Search
begin

text \<open>
  The dashboard of a workspace (\<^verbatim>\<open>app/services/dashboard_service.py\<close>, \<^verbatim>\<open>app/api/dashboard.py\<close>,
  \<^verbatim>\<open>app/schemas/dashboard.py\<close>): counters, the recent activity, the connectors and the health of the
  pipeline. The start of the month is taken from the civil calendar of UTC; \<open>datetime\<close> is standard
  library, so its calendar is part of the model, for times from 1970 on.
\<close>

subsection \<open>The civil calendar\<close>

definition leap_year :: "nat \<Rightarrow> bool" where
  "leap_year y \<longleftrightarrow> y mod 4 = 0 \<and> (y mod 100 \<noteq> 0 \<or> y mod 400 = 0)"

definition days_in_month :: "nat \<Rightarrow> nat \<Rightarrow> nat" where
  "days_in_month y m =
     (if m = 2 then (if leap_year y then 29 else 28) else if m \<in> {4, 6, 9, 11} then 30 else 31)"

lemma days_in_month_pos: "0 < days_in_month y m"
  by (simp add: days_in_month_def)

definition next_month :: "nat \<times> nat \<Rightarrow> nat \<times> nat" where
  "next_month ym = (case ym of (y, m) \<Rightarrow> if m = 12 then (y + 1, 1) else (y, m + 1))"

text \<open>Year, month and day of month of the day that is \<open>n\<close> days after the first of a month.\<close>

function civil :: "nat \<Rightarrow> nat \<times> nat \<Rightarrow> nat \<times> nat \<times> nat" where
  "civil n ym =
     (case ym of (y, m) \<Rightarrow>
        if n < days_in_month y m then (y, m, n + 1) else civil (n - days_in_month y m) (next_month ym))"
  by pat_completeness auto
termination
  by (relation "measure fst") (auto simp: not_less intro!: diff_less less_le_trans [OF days_in_month_pos] days_in_month_pos)

declare civil.simps [simp del]

definition day_us :: int where "day_us = 86400000000"

definition civil_date :: "timestamp \<Rightarrow> nat \<times> nat \<times> nat" where
  "civil_date now = civil (nat (now div day_us)) (1970, 1)"

text \<open>\<open>now.replace(day=1, hour=0, minute=0, second=0, microsecond=0)\<close>\<close>

definition month_start :: "timestamp \<Rightarrow> timestamp" where
  "month_start now = (case civil_date now of (y, m, day) \<Rightarrow> (now div day_us - (int day - 1)) * day_us)"

subsection \<open>Responses\<close>

record dashboard_metrics =
  dm_documents_uploaded :: nat
  dm_sources_connected :: nat
  dm_documents_processed :: nat
  dm_chunks_generated :: int
  dm_embeddings_created :: int
  dm_ai_tags_generated :: nat
  dm_chat_queries_this_month :: nat
  dm_api_calls_this_month :: nat

record activity_event =
  ac_id :: string
  ac_document_name :: string
  ac_status :: string
  ac_timestamp :: timestamp

record sync_summary =
  ss_connector_id :: string
  ss_connector_name :: string
  ss_last_synced_at :: "timestamp option"
  ss_document_count :: int

record pipeline_health =
  ph_sources :: string
  ph_ingestion :: string
  ph_storage :: string
  ph_chat :: string
  ph_rest_api :: string

record dashboard_response =
  dr_metrics :: dashboard_metrics
  dr_recent_activity :: "activity_event list"
  dr_recent_documents :: "document_out list"
  dr_connector_sync :: "sync_summary list"
  dr_pipeline_health :: pipeline_health

subsection \<open>The service\<close>

definition in_progress :: "string list" where
  "in_progress = map status_value [Queued, Processing, Parsing, Tagging, Chunking, Embedding, EntityExtraction,
     GraphMapping, Finalizing]"

definition own_documents :: "uuid \<Rightarrow> db \<Rightarrow> document list" where
  "own_documents ws d = filter (\<lambda>r. d_workspace_id r = ws) (documents d)"

definition own_connectors :: "uuid \<Rightarrow> db \<Rightarrow> connector list" where
  "own_connectors ws d = filter (\<lambda>c. cn_workspace_id c = ws) (connectors d)"

definition connected_sources :: "uuid \<Rightarrow> db \<Rightarrow> connector list" where
  "connected_sources ws d = filter (\<lambda>c. cn_status c = conn_status_value Connected) (own_connectors ws d)"

text \<open>\<open>SUM\<close> ignores nulls; \<open>array_length\<close> of an empty array is null, which counts 0.\<close>

definition sum_chunks :: "document list \<Rightarrow> int" where
  "sum_chunks docs = sum_list (map (\<lambda>r. case d_chunk_count r of None \<Rightarrow> 0 | Some n \<Rightarrow> n) docs)"

definition metrics :: "timestamp \<Rightarrow> uuid \<Rightarrow> db \<Rightarrow> dashboard_metrics" where
  "metrics now ws d =
     \<lparr>dm_documents_uploaded = length (own_documents ws d),
      dm_sources_connected = length (connected_sources ws d),
      dm_documents_processed = length (filter (\<lambda>r. d_ingestion_status r = ''completed'') (own_documents ws d)),
      dm_chunks_generated = sum_chunks (own_documents ws d),
      dm_embeddings_created = sum_chunks (own_documents ws d),
      dm_ai_tags_generated = sum_list (map (\<lambda>r. length (d_tags r)) (own_documents ws d)),
      dm_chat_queries_this_month = length (filter (\<lambda>m. cm_workspace_id m = ws \<and> cm_role m = ''user'' \<and>
        month_start now \<le> cm_created_at m) (chat_messages d)),
      dm_api_calls_this_month = length (filter (\<lambda>l. l_workspace_id l = ws \<and> month_start now \<le> l_created_at l)
        (api_call_logs d))\<rparr>"

definition recent_documents :: "uuid \<Rightarrow> db \<Rightarrow> document list" where
  "recent_documents ws d = take 20 (order_by d_updated_at False (own_documents ws d))"

definition activity_of :: "document \<Rightarrow> exn + activity_event" where
  "activity_of r =
     (if d_ingestion_status r \<notin> set status_values then Inl pydantic_error
      else Inr \<lparr>ac_id = ''act_'' @ str_uuid (d_id r), ac_document_name = d_name r, ac_status = d_ingestion_status r,
        ac_timestamp = d_updated_at r\<rparr>)"

definition summarize :: "connector \<Rightarrow> sync_summary" where
  "summarize c =
     \<lparr>ss_connector_id = str_uuid (cn_id c), ss_connector_name = cn_name c, ss_last_synced_at = cn_last_synced_at c,
      ss_document_count = int_or (cn_last_sync_document_count c) 0\<rparr>"

definition health :: "uuid \<Rightarrow> db \<Rightarrow> pipeline_health" where
  "health ws d =
     \<lparr>ph_sources = (if connected_sources ws d \<noteq> [] \<or> own_documents ws d \<noteq> [] then ''active'' else ''idle''),
      ph_ingestion = (if \<exists>r \<in> set (recent_documents ws d). d_ingestion_status r \<in> set in_progress
        then ''processing'' else ''idle''),
      ph_storage = ''active'', ph_chat = ''active'', ph_rest_api = ''active''\<rparr>"

definition build_dashboard :: "timestamp \<Rightarrow> uuid \<Rightarrow> dashboard_response db_tx" where
  "build_dashboard now ws =
     tx_query (\<lambda>d.
       case res_map activity_of (recent_documents ws d) of
         Inl e \<Rightarrow> Inl e
       | Inr events \<Rightarrow>
           map_sum id (\<lambda>views. \<lparr>dr_metrics = metrics now ws d, dr_recent_activity = events, dr_recent_documents = views,
             dr_connector_sync = map summarize (connected_sources ws d), dr_pipeline_health = health ws d\<rparr>)
             (res_map document_view (take 10 (recent_documents ws d))))"

definition dashboard_route :: "settings \<Rightarrow> crypto \<Rightarrow> timestamp \<Rightarrow> string option \<Rightarrow> dashboard_response db_tx" where
  "dashboard_route cfg cy now creds =
     tx_bind (get_current_user cfg cy now creds) (\<lambda>p. build_dashboard now (p_workspace_id p))"

subsection \<open>Months\<close>

text \<open>The months since January 1970, and the days before each of them.\<close>

definition month_at :: "nat \<Rightarrow> nat \<times> nat" where
  "month_at k = (1970 + k div 12, k mod 12 + 1)"

primrec month_days :: "nat \<Rightarrow> nat" where
  "month_days 0 = 0"
| "month_days (Suc k) = month_days k + days_in_month (fst (month_at k)) (snd (month_at k))"

lemma next_month_at: "next_month (month_at k) = month_at (Suc k)"
proof (cases "k mod 12 = 11")
  case True
  then have "Suc k div 12 = k div 12 + 1" "Suc k mod 12 = 0" by (simp_all add: div_Suc mod_Suc)
  with True show ?thesis by (simp add: next_month_def month_at_def)
next
  case False
  then have "Suc k div 12 = k div 12" "Suc k mod 12 = k mod 12 + 1" by (simp_all add: div_Suc mod_Suc)
  with False show ?thesis by (simp add: next_month_def month_at_def)
qed

lemma civil_month:
  "civil n (month_at k) = (y, m, day) \<Longrightarrow>
   \<exists>j. month_at j = (y, m) \<and> 1 \<le> day \<and> day \<le> days_in_month y m \<and> n + month_days k + 1 = month_days j + day"
proof (induction n "month_at k" arbitrary: k rule: civil.induct)
  case (1 n)
  show ?case
  proof (cases "n < days_in_month (fst (month_at k)) (snd (month_at k))")
    case True
    then show ?thesis using "1.prems"
      by (intro exI [of _ k]) (auto simp: civil.simps [of n] split: prod.splits)
  next
    case False
    then have "civil (n - days_in_month (fst (month_at k)) (snd (month_at k))) (month_at (Suc k)) = (y, m, day)"
      using "1.prems" next_month_at [of k] by (auto simp: civil.simps [of n] split: prod.splits)
    then show ?thesis
      using "1.hyps" [of "fst (month_at k)" "snd (month_at k)" "Suc k"] False by (auto simp: next_month_at)
  qed
qed

text \<open>
  The month of the dashboard is the calendar's: from 1970 on, the start of the month of an instant
  is the first instant of a month of the Gregorian calendar, not after the instant, and the instant is
  before the first instant of the following month.
\<close>

theorem month_start_is_first:
  assumes "0 \<le> now"
  shows "\<exists>k. civil_date now = (fst (month_at k), snd (month_at k), nat ((now - month_start now) div day_us) + 1) \<and>
    month_start now = int (month_days k) * day_us \<and> month_start now \<le> now \<and> now < int (month_days (Suc k)) * day_us"
proof -
  let ?n = "nat (now div day_us)"
  have n: "int ?n = now div day_us" using assms by (simp add: day_us_def pos_imp_zdiv_nonneg_iff)
  obtain y m day where date: "civil_date now = (y, m, day)" by (metis surj_pair)
  then have "civil ?n (month_at 0) = (y, m, day)" by (simp add: civil_date_def month_at_def)
  from civil_month [OF this] obtain k where k: "month_at k = (y, m)" and day: "1 \<le> day" "day \<le> days_in_month y m"
    and sum: "?n + 1 = month_days k + day" by auto
  have start: "month_start now = int (month_days k) * day_us"
  proof -
    have "now div day_us - (int day - 1) = int (month_days k)" using sum day(1) n by linarith
    then show ?thesis by (simp add: month_start_def date)
  qed
  have parts: "now = now div day_us * day_us + now mod day_us" "0 \<le> now mod day_us" "now mod day_us < day_us"
    by (simp_all add: day_us_def)
  have "(now - month_start now) div day_us = now div day_us - int (month_days k)"
    by (simp add: start day_us_def)
  then have "nat ((now - month_start now) div day_us) + 1 = day" using sum n day(1) by linarith
  moreover have "month_start now \<le> now"
  proof -
    have "int (month_days k) \<le> now div day_us" using sum day(1) n by linarith
    then have "int (month_days k) * day_us \<le> now div day_us * day_us" by (rule mult_right_mono) (simp add: day_us_def)
    then show ?thesis using parts unfolding start by linarith
  qed
  moreover have "now < int (month_days (Suc k)) * day_us"
  proof -
    have "now div day_us + 1 \<le> int (month_days (Suc k))" using sum n day(2) by (simp add: k)
    then have "(now div day_us + 1) * day_us \<le> int (month_days (Suc k)) * day_us" by (rule mult_right_mono) (simp add: day_us_def)
    moreover have "(now div day_us + 1) * day_us = now div day_us * day_us + day_us" by (simp add: distrib_right)
    ultimately show ?thesis using parts by linarith
  qed
  ultimately show ?thesis by (intro exI [of _ k]) (simp add: date k start)
qed

lemma month_start_is_first_witness:
  "civil_date 68255999000000 = (1972, 2, 29) \<and> month_start 68255999000000 = 65750400000000 \<and>
   (\<exists>k. month_start 68255999000000 = int (month_days k) * day_us \<and> 68255999000000 < int (month_days (Suc k)) * day_us)"
proof -
  have date: "civil_date 68255999000000 = (1972, 2, 29)"
    by (simp add: civil_date_def day_us_def civil.simps days_in_month_def leap_year_def next_month_def)
  then have "month_start 68255999000000 = 65750400000000" by (simp add: month_start_def day_us_def)
  with month_start_is_first [of 68255999000000] date show ?thesis by auto
qed

subsection \<open>What the dashboard depends on\<close>

text \<open>The rows of a workspace that the dashboard may see.\<close>

definition dashboard_rows :: "uuid \<Rightarrow> db \<Rightarrow> document list \<times> connector list \<times> chat_message list \<times> api_call_log list" where
  "dashboard_rows ws d =
     (own_documents ws d, own_connectors ws d, filter (\<lambda>m. cm_workspace_id m = ws) (chat_messages d),
      filter (\<lambda>l. l_workspace_id l = ws) (api_call_logs d))"

lemma metrics_rows:
  "metrics now ws d = (case dashboard_rows ws d of (docs, conns, msgs, logs) \<Rightarrow>
     \<lparr>dm_documents_uploaded = length docs,
      dm_sources_connected = length (filter (\<lambda>c. cn_status c = conn_status_value Connected) conns),
      dm_documents_processed = length (filter (\<lambda>r. d_ingestion_status r = ''completed'') docs),
      dm_chunks_generated = sum_chunks docs, dm_embeddings_created = sum_chunks docs,
      dm_ai_tags_generated = sum_list (map (\<lambda>r. length (d_tags r)) docs),
      dm_chat_queries_this_month = length (filter (\<lambda>m. cm_role m = ''user'' \<and> month_start now \<le> cm_created_at m) msgs),
      dm_api_calls_this_month = length (filter (\<lambda>l. month_start now \<le> l_created_at l) logs)\<rparr>)"
  by (simp add: metrics_def dashboard_rows_def connected_sources_def conj_ac cong: filter_cong)

lemma build_dashboard_rows:
  assumes "dashboard_rows ws d = dashboard_rows ws d2"
  shows "fst (get_db (build_dashboard now ws) d) = fst (get_db (build_dashboard now ws) d2)"
proof -
  have rows: "own_documents ws d = own_documents ws d2" "own_connectors ws d = own_connectors ws d2"
    using assms by (simp_all add: dashboard_rows_def)
  then have "recent_documents ws d = recent_documents ws d2" "connected_sources ws d = connected_sources ws d2"
    "health ws d = health ws d2" "metrics now ws d = metrics now ws d2"
    using assms by (simp_all add: recent_documents_def connected_sources_def health_def metrics_rows)
  then show ?thesis by (simp add: get_db_def build_dashboard_def tx_query_def split: sum.split)
qed

lemma recent_mem: "r \<in> set (recent_documents ws d) \<Longrightarrow> r \<in> set (documents d) \<and> d_workspace_id r = ws"
  by (auto simp: recent_documents_def order_by_def own_documents_def dest!: in_set_takeD split: if_splits)

lemma activity_of_valid: "valid_doc r \<Longrightarrow> activity_of r = Inr \<lparr>ac_id = ''act_'' @ str_uuid (d_id r), ac_document_name = d_name r,
    ac_status = d_ingestion_status r, ac_timestamp = d_updated_at r\<rparr>"
  by (simp add: activity_of_def valid_doc_def enum_values)

text \<open>
  C37: The dashboard never fails on stored rows and never looks beyond its workspace: while the document
  tables are in order it answers, changes nothing, shows at most twenty events, the newest first, and the
  documents of the first ten of them; and two databases that agree on the workspace's documents,
  connectors, messages and calls give the same answer, whatever other tenants did.
\<close>

theorem dashboard_sound:
  assumes "docs_ok d"
  shows "(\<exists>r. get_db (build_dashboard now ws) d = (Inr r, d) \<and> length (dr_recent_activity r) \<le> 20 \<and>
      sorted_wrt (\<ge>) (map ac_timestamp (dr_recent_activity r)) \<and>
      map do_name (dr_recent_documents r) = map ac_document_name (take 10 (dr_recent_activity r))) \<and>
    (\<forall>d2. dashboard_rows ws d = dashboard_rows ws d2 \<longrightarrow>
      fst (get_db (build_dashboard now ws) d) = fst (get_db (build_dashboard now ws) d2))"
proof -
  let ?recent = "recent_documents ws d"
  define event where "event r = \<lparr>ac_id = ''act_'' @ str_uuid (d_id r), ac_document_name = d_name r,
    ac_status = d_ingestion_status r, ac_timestamp = d_updated_at r\<rparr>" for r :: document
  have valid: "valid_doc r" if "r \<in> set ?recent" for r using assms recent_mem [OF that] by (simp add: docs_ok_def)
  have events: "res_map activity_of ?recent = Inr (map event ?recent)"
    by (rule res_map_Inr) (simp add: activity_of_valid valid event_def)
  define view where "view r = (case document_view r of Inr v \<Rightarrow> v | Inl e \<Rightarrow> undefined)" for r :: document
  have view: "document_view r = Inr (view r) \<and> do_name (view r) = d_name r" if "r \<in> set ?recent" for r
    using valid_view [OF valid [OF that]] by (auto simp: view_def document_view_def split: if_splits)
  have views: "res_map document_view (take 10 ?recent) = Inr (map view (take 10 ?recent))"
    by (rule res_map_Inr) (use view in_set_takeD in fast)
  have names: "map do_name (map view (take 10 ?recent)) = map ac_document_name (take 10 (map event ?recent))"
    using view in_set_takeD [of _ 10 ?recent] by (simp add: take_map event_def)
  have "sorted_wrt (\<ge>) (map d_updated_at (order_by d_updated_at False (own_documents ws d)))"
    by (simp add: order_by_def rev_map [symmetric] sorted_wrt_rev)
  then have "sorted_wrt (\<ge>) (take 20 (map d_updated_at (order_by d_updated_at False (own_documents ws d))))" by (rule sorted_wrt_take)
  then have "sorted_wrt (\<ge>) (map ac_timestamp (map event ?recent))"
    by (simp add: event_def recent_documents_def take_map comp_def)
  moreover have "length (map event ?recent) \<le> 20" by (simp add: recent_documents_def)
  moreover have "get_db (build_dashboard now ws) d =
      (Inr \<lparr>dr_metrics = metrics now ws d, dr_recent_activity = map event ?recent, dr_recent_documents = map view (take 10 ?recent),
        dr_connector_sync = map summarize (connected_sources ws d), dr_pipeline_health = health ws d\<rparr>, d)"
    by (simp add: get_db_def build_dashboard_def tx_query_def events views)
  ultimately have "\<exists>r. get_db (build_dashboard now ws) d = (Inr r, d) \<and> length (dr_recent_activity r) \<le> 20 \<and>
      sorted_wrt (\<ge>) (map ac_timestamp (dr_recent_activity r)) \<and>
      map do_name (dr_recent_documents r) = map ac_document_name (take 10 (dr_recent_activity r))"
    using names by (intro exI conjI) (assumption | simp)+
  then show ?thesis using build_dashboard_rows by blast
qed

text \<open>
  A question that was answered counts: after a stream that ended with \<open>done\<close> in this month, the
  dashboard of its workspace shows one chat query more, the other counters and the counters of every
  other workspace are as before.
\<close>

theorem dashboard_counts_chat:
  assumes "stream_answer env vs g ws user query cid gw d = (frames, gw', d')" and "Done conf ev (str_uuid c) \<in> set frames"
    and "month_start now \<le> ch_now env"
  shows "metrics now ws d' = (metrics now ws d)\<lparr>dm_chat_queries_this_month := dm_chat_queries_this_month (metrics now ws d) + 1\<rparr> \<and>
    (\<forall>w. w \<noteq> ws \<longrightarrow> metrics now w d' = metrics now w d)"
proof -
  obtain new ids where d': "d' = (touch_conversation (ch_clock env) c query (d\<lparr>conversations := conversations d @ new\<rparr>))
      \<lparr>chat_messages := chat_messages d @ turn env ws c query (shown_text frames) conf ev ids\<rparr>"
    by (rule stream_done [OF assms(1,2)])
  have same: "documents d' = documents d" "connectors d' = connectors d" "api_call_logs d' = api_call_logs d"
    "chat_messages d' = chat_messages d @ turn env ws c query (shown_text frames) conf ev ids"
    by (simp_all add: d' touch_conversation_def)
  then show ?thesis using assms(3)
    by (auto simp: metrics_def own_documents_def connected_sources_def own_connectors_def turn_def question_row_def answer_row_def)
qed

subsection \<open>Witnesses\<close>

lemma dashboard_sound_witness:
  "\<exists>r. get_db (build_dashboard 0 2) (demo_chat_db\<lparr>documents := [demo_doc]\<rparr>) = (Inr r, demo_chat_db\<lparr>documents := [demo_doc]\<rparr>) \<and>
     map do_name (dr_recent_documents r) = [''a'']"
proof -
  let ?d = "demo_chat_db\<lparr>documents := [demo_doc]\<rparr>"
  have "docs_ok ?d"
    by (simp add: docs_ok_def ingest_fk_def valid_doc_def enum_values demo_chat_db_def empty_db_def demo_doc_def
        allowed_types_def source_values_def status_values_def emb_values_def)
  from dashboard_sound [OF this, of 0 2] obtain r where r: "get_db (build_dashboard 0 2) ?d = (Inr r, ?d)" by blast
  moreover have "case fst (get_db (build_dashboard 0 2) ?d) of Inr r \<Rightarrow> map do_name (dr_recent_documents r) = [''a''] | Inl e \<Rightarrow> False"
    by code_simp
  ultimately show ?thesis by simp
qed

lemma dashboard_counts_chat_witness:
  "dm_chat_queries_this_month (metrics 0 2 (snd (snd (demo_stream 2)))) = 1"
proof (rule demo_run [of 2])
  fix frames gw' d'
  assume run: "stream_answer demo_chat_env (demo_vstore 2) empty_graph 2 9 ''q'' (Some 5)
      (demo_gateway\<lparr>gw_world := 1\<rparr>) demo_chat_db = (frames, gw', d')" and demo: "demo_stream 2 = (frames, gw', d')"
    and fin: "Done 1 [demo_evidence] (str_uuid 5) \<in> set frames"
  have "month_start 0 \<le> ch_now demo_chat_env"
    by (simp add: month_start_def civil_date_def day_us_def civil.simps days_in_month_def demo_chat_env_def)
  from dashboard_counts_chat [OF run fin this] show ?thesis
    by (simp add: demo metrics_def)
qed simp

end
