(* ===== verification/System.thy ===== *)
theory System
  imports Frames Settings_Service Dashboard
begin

text \<open>
  The whole backend as one machine over its database: every operation of every component, in any
  order, ingestions and chats with whatever happens in the middle of them. Every component keeps its own
  tables in order, and none disturbs the tables of another.
\<close>

subsection \<open>The machine\<close>

text \<open>
  A request runs in one transaction and is one operation; its principal, environment and outside world
  are any. A chat reads the database, answers, and stores the turn in another session; an ingestion
  commits after each of its steps: what happens meanwhile is part of the operation.
\<close>

datatype ('z, 's, 'h, 'q, 'w) system_op =
    AccountOp settings crypto account_op
  | KeyOp settings crypto "'z key_op"
  | SettingsOp uuid settings_patch
  | DocumentOp "'s doc_env" principal doc_op "'s outside"
  | CardsOp "('s, 'h) conn_env" uuid
  | CallbackOp "('s, 'h) conn_env" string string "'s outside" 'h
  | SyncOp "('s, 'h) conn_env" uuid uuid "string list" "'s outside" 'h
  | DisconnectOp uuid uuid
  | CallOp timestamp principal string
  | StreamOp "('w, 'q) chat_env" "'q vstore" graph uuid uuid string "uuid option" "'w gateway"
      "('z, 's, 'h, 'q, 'w) system_op list"
  | AnswerOp "('w, 'q) chat_env" "'q vstore" graph principal string "uuid option" "'w gateway"
      "('z, 's, 'h, 'q, 'w) system_op list"
  | IngestOp "('q, 'w, 's) ingest_env" uuid "('q, 'w, 's) services" "nat \<Rightarrow> ('z, 's, 'h, 'q, 'w) system_op list"

text \<open>
  The two kinds of answer, prepared on the database \<open>d\<close> and stored on the database \<open>meanwhile d\<close>.
\<close>

definition stream_meanwhile ::
    "('w, 'q) chat_env \<Rightarrow> 'q vstore \<Rightarrow> graph \<Rightarrow> uuid \<Rightarrow> uuid \<Rightarrow> string \<Rightarrow> uuid option \<Rightarrow> 'w gateway \<Rightarrow> (db \<Rightarrow> db) \<Rightarrow> db \<Rightarrow> db" where
  "stream_meanwhile env vs g ws user query cid gw meanwhile d =
     (case prepare_answer env vs g ws query cid d gw of
        (Inl e, gw1) \<Rightarrow> meanwhile d
      | (Inr pr, gw1) \<Rightarrow>
          (case stream_llm (ch_cfg env) (ch_provider env) (pr_messages pr) (cp_temperature default_params) ws ''chat''
                  (pr_chat_model pr) None gw1 of
             ((parts, Some _), gw2) \<Rightarrow> meanwhile d
           | ((parts, None), gw2) \<Rightarrow>
               snd (own_session (persist env ws (Some user) cid query (concat parts) (pr_confidence pr) (pr_evidence pr)
                 (pr_chunk_ids pr)) (meanwhile d))))"

definition answer_meanwhile ::
    "('w, 'q) chat_env \<Rightarrow> 'q vstore \<Rightarrow> graph \<Rightarrow> principal \<Rightarrow> string \<Rightarrow> uuid option \<Rightarrow> 'w gateway \<Rightarrow> (db \<Rightarrow> db) \<Rightarrow> db \<Rightarrow> db" where
  "answer_meanwhile env vs g p query cid gw meanwhile d =
     (let ws = p_workspace_id p
      in case prepare_answer env vs g ws query cid d gw of
        (Inl e, gw1) \<Rightarrow> meanwhile d
      | (Inr pr, gw1) \<Rightarrow>
          (case call_llm (ch_cfg env) (ch_provider env) (pr_messages pr) default_params ws ''chat'' (pr_chat_model pr) None gw1 of
             (Inl e, gw2) \<Rightarrow> meanwhile d
           | (Inr result, gw2) \<Rightarrow>
               (case own_session (persist env ws (p_user_id p) cid query (lr_content result) (pr_confidence pr)
                       (pr_evidence pr) (pr_chunk_ids pr)) (meanwhile d) of
                  (Inl e, d') \<Rightarrow> d'
                | (Inr c, d') \<Rightarrow> snd (get_db (log_api_call (ch_now env) p ''/api/chat'') d'))))"

lemma meanwhile_nothing:
  "stream_meanwhile env vs g ws user query cid gw (\<lambda>d. d) d = snd (snd (stream_answer env vs g ws user query cid gw d))"
  "chat_query_ok q \<Longrightarrow> answer_meanwhile env vs g p (cq_question q) (cq_conversation_id q) gw (\<lambda>d. d) d =
     snd (snd (chat_rest env p q vs g gw d))"
  by (auto simp: stream_meanwhile_def stream_answer_def answer_meanwhile_def chat_rest_def answer_once_def Let_def
      split: prod.splits sum.splits option.splits)

primrec system_step :: "('z, 's, 'h, 'q, 'w) system_op \<Rightarrow> db \<Rightarrow> db" where
  "system_step (AccountOp cfg cy x) = (\<lambda>d. account_step cfg cy d x)"
| "system_step (KeyOp cfg cy x) = (\<lambda>d. key_step cfg cy d x)"
| "system_step (SettingsOp ws p) = (\<lambda>d. if patch_ok p then snd (get_db (update_settings ws p) d) else d)"
| "system_step (DocumentOp env p req ou) = (\<lambda>d. snd (snd (run_outside (doc_request env p req) (open_session d) ou)))"
| "system_step (CardsOp env ws) = (\<lambda>d. snd (get_db (list_connectors env ws) d))"
| "system_step (CallbackOp env code state ou h) = (\<lambda>d. snd (snd (snd (run_connector (oauth_callback env code state) d ou h))))"
| "system_step (SyncOp env ws cid fids ou h) = (\<lambda>d. snd (snd (snd (run_connector (sync env ws cid fids) d ou h))))"
| "system_step (DisconnectOp ws cid) = (\<lambda>d. snd (get_db (disconnect ws cid) d))"
| "system_step (CallOp now p endpoint) = (\<lambda>d. snd (get_db (log_api_call now p endpoint) d))"
| "system_step (StreamOp env vs g ws user query cid gw ops) =
     stream_meanwhile env vs g ws user query cid gw (\<lambda>d. foldl (\<lambda>d f. f d) d (map system_step ops))"
| "system_step (AnswerOp env vs g p query cid gw ops) =
     answer_meanwhile env vs g p query cid gw (\<lambda>d. foldl (\<lambda>d f. f d) d (map system_step ops))"
| "system_step (IngestOp env doc_id sv ops) = (\<lambda>d. snd (snd (ingest_run
     (env\<lparr>ie_others := \<lambda>n d. foldl (\<lambda>d f. f d) d (map system_step (ops n))\<rparr>) doc_id sv d)))"

subsection \<open>The tables in order\<close>

definition settings_ok :: "db \<Rightarrow> bool" where
  "settings_ok d \<longleftrightarrow> (\<forall>w \<in> set (workspaces d). settings_in_range w)"

definition scopes_ok :: "db \<Rightarrow> bool" where
  "scopes_ok d \<longleftrightarrow> (\<forall>k \<in> set (api_keys d). k_scope k \<in> range scope_value)"

definition chats_ok :: "db \<Rightarrow> bool" where
  "chats_ok d \<longleftrightarrow> distinct (map cv_id (conversations d)) \<and> distinct (map cm_id (chat_messages d)) \<and>
     (\<forall>c \<in> set (conversations d). cv_workspace_id c \<in> w_id ` set (workspaces d) \<and> cv_user_id c \<in> u_id ` set (users d)) \<and>
     (\<forall>m \<in> set (chat_messages d). cm_conversation_id m \<in> cv_id ` set (conversations d) \<and>
        cm_workspace_id m \<in> w_id ` set (workspaces d) \<and> (\<exists>v. message_view m = Inr v))"

definition connectors_ok :: "db \<Rightarrow> bool" where
  "connectors_ok d \<longleftrightarrow> distinct (map cn_id (connectors d)) \<and> distinct (map cc_connector_id (connector_credentials d)) \<and>
     (\<forall>c \<in> set (connectors d). cn_workspace_id c \<in> w_id ` set (workspaces d) \<and> connector_view c = Inr c) \<and>
     (\<forall>cc \<in> set (connector_credentials d). cc_connector_id cc \<in> cn_id ` set (connectors d))"

definition system_ok :: "db \<Rightarrow> bool" where
  "system_ok d \<longleftrightarrow> accounts_ok d \<and> all_admins d \<and> settings_ok d \<and> keys_ok d \<and> scopes_ok d \<and> docs_ok d \<and> chats_ok d \<and> connectors_ok d"

lemma tables_empty: "system_ok empty_db"
  by (simp add: system_ok_def accounts_ok_def all_admins_def settings_ok_def keys_ok_def scopes_ok_def docs_ok_def
      ingest_fk_def chats_ok_def connectors_ok_def empty_db_def)

text \<open>The tables that each part does not look at.\<close>

lemma accounts_elsewhere [simp]:
  "accounts_ok (d\<lparr>api_keys := x_api_keys\<rparr>) = accounts_ok d"
  "accounts_ok (d\<lparr>api_call_logs := x_api_call_logs\<rparr>) = accounts_ok d"
  "accounts_ok (d\<lparr>documents := x_documents\<rparr>) = accounts_ok d"
  "accounts_ok (d\<lparr>document_chunks := x_document_chunks\<rparr>) = accounts_ok d"
  "accounts_ok (d\<lparr>ingestion_jobs := x_ingestion_jobs\<rparr>) = accounts_ok d"
  "accounts_ok (d\<lparr>ingestion_errors := x_ingestion_errors\<rparr>) = accounts_ok d"
  "accounts_ok (d\<lparr>conversations := x_conversations\<rparr>) = accounts_ok d"
  "accounts_ok (d\<lparr>chat_messages := x_chat_messages\<rparr>) = accounts_ok d"
  "accounts_ok (d\<lparr>connectors := x_connectors\<rparr>) = accounts_ok d"
  "accounts_ok (d\<lparr>connector_credentials := x_connector_credentials\<rparr>) = accounts_ok d"
  by (simp_all add: accounts_ok_def)

lemma admins_elsewhere [simp]:
  "all_admins (d\<lparr>api_keys := x_api_keys\<rparr>) = all_admins d"
  "all_admins (d\<lparr>api_call_logs := x_api_call_logs\<rparr>) = all_admins d"
  "all_admins (d\<lparr>documents := x_documents\<rparr>) = all_admins d"
  "all_admins (d\<lparr>document_chunks := x_document_chunks\<rparr>) = all_admins d"
  "all_admins (d\<lparr>ingestion_jobs := x_ingestion_jobs\<rparr>) = all_admins d"
  "all_admins (d\<lparr>ingestion_errors := x_ingestion_errors\<rparr>) = all_admins d"
  "all_admins (d\<lparr>conversations := x_conversations\<rparr>) = all_admins d"
  "all_admins (d\<lparr>chat_messages := x_chat_messages\<rparr>) = all_admins d"
  "all_admins (d\<lparr>connectors := x_connectors\<rparr>) = all_admins d"
  "all_admins (d\<lparr>connector_credentials := x_connector_credentials\<rparr>) = all_admins d"
  by (simp_all add: all_admins_def has_admin_def admins_def members_in_workspace_def)

lemma settings_elsewhere [simp]:
  "settings_ok (d\<lparr>organizations := x_organizations\<rparr>) = settings_ok d"
  "settings_ok (d\<lparr>users := x_users\<rparr>) = settings_ok d"
  "settings_ok (d\<lparr>members := x_members\<rparr>) = settings_ok d"
  "settings_ok (d\<lparr>refresh_tokens := x_refresh_tokens\<rparr>) = settings_ok d"
  "settings_ok (d\<lparr>api_keys := x_api_keys\<rparr>) = settings_ok d"
  "settings_ok (d\<lparr>api_call_logs := x_api_call_logs\<rparr>) = settings_ok d"
  "settings_ok (d\<lparr>documents := x_documents\<rparr>) = settings_ok d"
  "settings_ok (d\<lparr>document_chunks := x_document_chunks\<rparr>) = settings_ok d"
  "settings_ok (d\<lparr>ingestion_jobs := x_ingestion_jobs\<rparr>) = settings_ok d"
  "settings_ok (d\<lparr>ingestion_errors := x_ingestion_errors\<rparr>) = settings_ok d"
  "settings_ok (d\<lparr>conversations := x_conversations\<rparr>) = settings_ok d"
  "settings_ok (d\<lparr>chat_messages := x_chat_messages\<rparr>) = settings_ok d"
  "settings_ok (d\<lparr>connectors := x_connectors\<rparr>) = settings_ok d"
  "settings_ok (d\<lparr>connector_credentials := x_connector_credentials\<rparr>) = settings_ok d"
  by (simp_all add: settings_ok_def)

lemma keys_elsewhere [simp]:
  "keys_ok (d\<lparr>organizations := x_organizations\<rparr>) = keys_ok d"
  "keys_ok (d\<lparr>workspaces := x_workspaces\<rparr>) = keys_ok d"
  "keys_ok (d\<lparr>users := x_users\<rparr>) = keys_ok d"
  "keys_ok (d\<lparr>members := x_members\<rparr>) = keys_ok d"
  "keys_ok (d\<lparr>refresh_tokens := x_refresh_tokens\<rparr>) = keys_ok d"
  "keys_ok (d\<lparr>api_call_logs := x_api_call_logs\<rparr>) = keys_ok d"
  "keys_ok (d\<lparr>documents := x_documents\<rparr>) = keys_ok d"
  "keys_ok (d\<lparr>document_chunks := x_document_chunks\<rparr>) = keys_ok d"
  "keys_ok (d\<lparr>ingestion_jobs := x_ingestion_jobs\<rparr>) = keys_ok d"
  "keys_ok (d\<lparr>ingestion_errors := x_ingestion_errors\<rparr>) = keys_ok d"
  "keys_ok (d\<lparr>conversations := x_conversations\<rparr>) = keys_ok d"
  "keys_ok (d\<lparr>chat_messages := x_chat_messages\<rparr>) = keys_ok d"
  "keys_ok (d\<lparr>connectors := x_connectors\<rparr>) = keys_ok d"
  "keys_ok (d\<lparr>connector_credentials := x_connector_credentials\<rparr>) = keys_ok d"
  by (simp_all add: keys_ok_def)

lemma scopes_elsewhere [simp]:
  "scopes_ok (d\<lparr>organizations := x_organizations\<rparr>) = scopes_ok d"
  "scopes_ok (d\<lparr>workspaces := x_workspaces\<rparr>) = scopes_ok d"
  "scopes_ok (d\<lparr>users := x_users\<rparr>) = scopes_ok d"
  "scopes_ok (d\<lparr>members := x_members\<rparr>) = scopes_ok d"
  "scopes_ok (d\<lparr>refresh_tokens := x_refresh_tokens\<rparr>) = scopes_ok d"
  "scopes_ok (d\<lparr>api_call_logs := x_api_call_logs\<rparr>) = scopes_ok d"
  "scopes_ok (d\<lparr>documents := x_documents\<rparr>) = scopes_ok d"
  "scopes_ok (d\<lparr>document_chunks := x_document_chunks\<rparr>) = scopes_ok d"
  "scopes_ok (d\<lparr>ingestion_jobs := x_ingestion_jobs\<rparr>) = scopes_ok d"
  "scopes_ok (d\<lparr>ingestion_errors := x_ingestion_errors\<rparr>) = scopes_ok d"
  "scopes_ok (d\<lparr>conversations := x_conversations\<rparr>) = scopes_ok d"
  "scopes_ok (d\<lparr>chat_messages := x_chat_messages\<rparr>) = scopes_ok d"
  "scopes_ok (d\<lparr>connectors := x_connectors\<rparr>) = scopes_ok d"
  "scopes_ok (d\<lparr>connector_credentials := x_connector_credentials\<rparr>) = scopes_ok d"
  by (simp_all add: scopes_ok_def)

lemma docs_elsewhere [simp]:
  "docs_ok (d\<lparr>organizations := x_organizations\<rparr>) = docs_ok d"
  "docs_ok (d\<lparr>workspaces := x_workspaces\<rparr>) = docs_ok d"
  "docs_ok (d\<lparr>users := x_users\<rparr>) = docs_ok d"
  "docs_ok (d\<lparr>members := x_members\<rparr>) = docs_ok d"
  "docs_ok (d\<lparr>refresh_tokens := x_refresh_tokens\<rparr>) = docs_ok d"
  "docs_ok (d\<lparr>api_keys := x_api_keys\<rparr>) = docs_ok d"
  "docs_ok (d\<lparr>api_call_logs := x_api_call_logs\<rparr>) = docs_ok d"
  "docs_ok (d\<lparr>conversations := x_conversations\<rparr>) = docs_ok d"
  "docs_ok (d\<lparr>chat_messages := x_chat_messages\<rparr>) = docs_ok d"
  "docs_ok (d\<lparr>connectors := x_connectors\<rparr>) = docs_ok d"
  "docs_ok (d\<lparr>connector_credentials := x_connector_credentials\<rparr>) = docs_ok d"
  by (simp_all add: docs_ok_def ingest_fk_def)

lemma chats_elsewhere [simp]:
  "chats_ok (d\<lparr>organizations := x_organizations\<rparr>) = chats_ok d"
  "chats_ok (d\<lparr>members := x_members\<rparr>) = chats_ok d"
  "chats_ok (d\<lparr>refresh_tokens := x_refresh_tokens\<rparr>) = chats_ok d"
  "chats_ok (d\<lparr>api_keys := x_api_keys\<rparr>) = chats_ok d"
  "chats_ok (d\<lparr>api_call_logs := x_api_call_logs\<rparr>) = chats_ok d"
  "chats_ok (d\<lparr>documents := x_documents\<rparr>) = chats_ok d"
  "chats_ok (d\<lparr>document_chunks := x_document_chunks\<rparr>) = chats_ok d"
  "chats_ok (d\<lparr>ingestion_jobs := x_ingestion_jobs\<rparr>) = chats_ok d"
  "chats_ok (d\<lparr>ingestion_errors := x_ingestion_errors\<rparr>) = chats_ok d"
  "chats_ok (d\<lparr>connectors := x_connectors\<rparr>) = chats_ok d"
  "chats_ok (d\<lparr>connector_credentials := x_connector_credentials\<rparr>) = chats_ok d"
  by (simp_all add: chats_ok_def)

lemma connectors_elsewhere [simp]:
  "connectors_ok (d\<lparr>organizations := x_organizations\<rparr>) = connectors_ok d"
  "connectors_ok (d\<lparr>users := x_users\<rparr>) = connectors_ok d"
  "connectors_ok (d\<lparr>members := x_members\<rparr>) = connectors_ok d"
  "connectors_ok (d\<lparr>refresh_tokens := x_refresh_tokens\<rparr>) = connectors_ok d"
  "connectors_ok (d\<lparr>api_keys := x_api_keys\<rparr>) = connectors_ok d"
  "connectors_ok (d\<lparr>api_call_logs := x_api_call_logs\<rparr>) = connectors_ok d"
  "connectors_ok (d\<lparr>documents := x_documents\<rparr>) = connectors_ok d"
  "connectors_ok (d\<lparr>document_chunks := x_document_chunks\<rparr>) = connectors_ok d"
  "connectors_ok (d\<lparr>ingestion_jobs := x_ingestion_jobs\<rparr>) = connectors_ok d"
  "connectors_ok (d\<lparr>ingestion_errors := x_ingestion_errors\<rparr>) = connectors_ok d"
  "connectors_ok (d\<lparr>conversations := x_conversations\<rparr>) = connectors_ok d"
  "connectors_ok (d\<lparr>chat_messages := x_chat_messages\<rparr>) = connectors_ok d"
  by (simp_all add: connectors_ok_def)

text \<open>More users and more workspaces disturb nobody.\<close>

lemma more_rows:
  "chats_ok d \<Longrightarrow> u_id ` set (users d) \<subseteq> u_id ` set us \<Longrightarrow> chats_ok (d\<lparr>users := us\<rparr>)"
  "chats_ok d \<Longrightarrow> w_id ` set (workspaces d) \<subseteq> w_id ` set ws \<Longrightarrow> chats_ok (d\<lparr>workspaces := ws\<rparr>)"
  "connectors_ok d \<Longrightarrow> w_id ` set (workspaces d) \<subseteq> w_id ` set ws \<Longrightarrow> connectors_ok (d\<lparr>workspaces := ws\<rparr>)"
  by (simp_all add: chats_ok_def connectors_ok_def subset_iff)

text \<open>The parts of the other components survive account requests.\<close>

definition beyond_accounts :: "db \<Rightarrow> bool" where
  "beyond_accounts d \<longleftrightarrow> settings_ok d \<and> keys_ok d \<and> scopes_ok d \<and> docs_ok d \<and> chats_ok d \<and> connectors_ok d"

lemma default_in_range: "settings_in_range (default_workspace wid oid name)"
  by (simp add: settings_in_range_def default_workspace_def chat_models_def)

interpretation account_requests: account_frame beyond_accounts
proof unfold_locales
  fix d orgs ms ts
  show "beyond_accounts d \<Longrightarrow> beyond_accounts (d\<lparr>organizations := orgs\<rparr>) \<and> beyond_accounts (d\<lparr>members := ms\<rparr>) \<and>
      beyond_accounts (d\<lparr>refresh_tokens := ts\<rparr>)"
    by (simp add: beyond_accounts_def)
next
  fix d us
  show "beyond_accounts d \<Longrightarrow> u_id ` set (users d) \<subseteq> u_id ` set us \<Longrightarrow> beyond_accounts (d\<lparr>users := us\<rparr>)"
    by (simp add: beyond_accounts_def more_rows)
next
  fix d wid oid name
  show "beyond_accounts d \<Longrightarrow> beyond_accounts (d\<lparr>workspaces := workspaces d @ [default_workspace wid oid name]\<rparr>)"
    using default_in_range [of wid oid name] by (auto simp: beyond_accounts_def settings_ok_def intro!: more_rows)
qed

text \<open>The parts of the other components survive document requests and ingestions.\<close>

definition beyond_documents :: "db \<Rightarrow> bool" where
  "beyond_documents d \<longleftrightarrow> accounts_ok d \<and> all_admins d \<and> settings_ok d \<and> keys_ok d \<and> scopes_ok d \<and> chats_ok d \<and> connectors_ok d"

interpretation document_requests: document_frame beyond_documents
  by unfold_locales (simp_all add: beyond_documents_def)

lemma system_split:
  "system_ok d \<longleftrightarrow> beyond_accounts d \<and> accounts_ok d \<and> all_admins d"
  "system_ok d \<longleftrightarrow> beyond_documents d \<and> docs_ok d"
  by (auto simp: system_ok_def beyond_accounts_def beyond_documents_def)

lemma accounts_step_system: "system_ok d \<Longrightarrow> system_ok (account_step cfg cy d x)"
  by (simp add: system_split(1) account_step_ok account_step_admins account_requests.account_step_keeps)

lemma document_step_system:
  "system_ok d \<Longrightarrow> run_outside (doc_request env p req) (open_session d) ou = (r, ou', d') \<Longrightarrow> system_ok d'"
  using request_keeps_docs document_requests.outside_run_keeps unfolding system_split(2) by blast

lemma ingestion_system:
  assumes "\<And>n d. system_ok d \<Longrightarrow> system_ok (ie_others env n d)" and "system_ok d"
    and "ingest_run env doc_id sv d = (r, sv', d')"
  shows "system_ok d'"
  using assms document_requests.ingestion_keeps [of env d doc_id sv r sv' d'] unfolding system_split(2) by blast

lemma call_log_system: "tx_keeps system_ok (log_api_call now p endpoint)"
  by (rule log_api_call_keeps) (simp add: system_ok_def)

lemma key_step_system: "system_ok d \<Longrightarrow> system_ok (key_step cfg cy d x)"
proof -
  let ?B = "\<lambda>d. accounts_ok d \<and> all_admins d \<and> settings_ok d \<and> docs_ok d \<and> chats_ok d \<and> connectors_ok d"
  assume "system_ok d"
  from this have "?B d" "keys_ok d" by (simp_all add: system_ok_def)
  have "?B (key_step cfg cy d x)"
    by (rule key_step_keeps [where P = ?B])
      (use \<open>?B d\<close> in \<open>auto simp: touch_key_def mark_revoked_def dest!: add_api_key_Inr\<close>)
  moreover have "scopes_ok (key_step cfg cy d x)"
    by (rule key_step_keeps)
      (use \<open>system_ok d\<close> in \<open>auto simp: system_ok_def scopes_ok_def touch_key_def mark_revoked_def new_key_eq
        dest!: add_api_key_Inr set_rows_mem split: if_splits\<close>)
  ultimately show ?thesis using key_step_ok [OF \<open>keys_ok d\<close>] by (simp add: system_ok_def)
qed

subsection \<open>Settings\<close>

lemma accounts_renamed:
  assumes "accounts_ok d" and "w_id ` set ws = w_id ` set (workspaces d)" and "o_id ` set orgs = o_id ` set (organizations d)"
    and "distinct (map w_id ws)" and "distinct (map o_id orgs)"
    and "\<And>w. w \<in> set ws \<Longrightarrow> \<exists>x \<in> set (workspaces d). w_organization_id w = w_organization_id x"
  shows "accounts_ok (d\<lparr>workspaces := ws, organizations := orgs\<rparr>)"
proof -
  have "w_organization_id w \<in> o_id ` set orgs" if "w \<in> set ws" for w
    using assms(6) [OF that] assms(1,3) by (auto simp: accounts_ok_def)
  then show ?thesis using assms(1-5) by (simp add: accounts_ok_def)
qed

lemma write_settings_system:
  assumes "patch_ok p"
  shows "tx_keeps system_ok (tx_update (write_settings p w org))"
proof (rule tx_keeps_update)
  fix d d'
  assume ok: "system_ok d" and "write_settings p w org d = Inr d'"
  let ?ws = "set_rows (\<lambda>x. w_id x = w_id w) (patched p) (workspaces d)"
  let ?os = "set_rows (\<lambda>x. o_id x = o_id org) (renamed p) (organizations d)"
  have d': "d' = d\<lparr>workspaces := ?ws, organizations := ?os\<rparr>"
    using \<open>write_settings p w org d = Inr d'\<close> by (auto simp: write_settings_def split: if_splits)
  have ids: "w_id ` set ?ws = w_id ` set (workspaces d)" "o_id ` set ?os = o_id ` set (organizations d)"
    by (simp_all add: set_rows_image)
  have "accounts_ok d'"
    unfolding d'
    by (rule accounts_renamed) (use ok ids in \<open>auto simp: system_ok_def accounts_ok_def set_rows_key dest!: set_rows_mem split: if_splits\<close>)
  moreover have "all_admins d'"
    unfolding all_admins_def
  proof
    fix x assume "x \<in> set (workspaces d')"
    then obtain y where "y \<in> set (workspaces d)" "w_id x = w_id y" using ids(1) by (auto simp: d' dest!: set_rows_mem)
    then have "has_admin (w_id x) d" using ok by (simp add: system_ok_def all_admins_def)
    then show "has_admin (w_id x) d'" by (simp add: d' has_admin_def admins_def members_in_workspace_def)
  qed
  moreover have "settings_ok d'"
    using ok assms by (auto simp: system_ok_def settings_ok_def d' patched_in_range dest!: set_rows_mem)
  moreover have "chats_ok d'" "connectors_ok d'"
    using ok more_rows(2,3) [of d ?ws] ids(1) by (simp_all add: system_ok_def d')
  ultimately show "system_ok d'" using ok by (simp add: system_ok_def d')
qed

lemma settings_step_system:
  "system_ok d \<Longrightarrow> patch_ok p \<Longrightarrow> system_ok (snd (get_db (update_settings ws p) d))"
  unfolding update_settings_def load_workspace_def
  by (rule get_db_keeps, intro inv_intros write_settings_system)

subsection \<open>Connectors\<close>

lemma set_connector_system:
  assumes "system_ok d" and "\<And>c. cn_id (f c) = cn_id c \<and> cn_workspace_id (f c) = cn_workspace_id c"
    and "\<And>c. connector_view c = Inr c \<Longrightarrow> connector_view (f c) = Inr (f c)"
  shows "system_ok (set_connector cid f d)"
proof -
  let ?cs = "set_rows (\<lambda>c. cn_id c = cid) f (connectors d)"
  have "map cn_id ?cs = map cn_id (connectors d)" "cn_id ` set ?cs = cn_id ` set (connectors d)"
    using assms(2) by (simp_all add: set_rows_key set_rows_image)
  then have "connectors_ok (d\<lparr>connectors := ?cs\<rparr>)"
    using assms by (auto simp: system_ok_def connectors_ok_def dest!: set_rows_mem)
  then show ?thesis using assms(1) by (simp add: system_ok_def set_connector_def)
qed

lemma card_system: "tx_keeps system_ok (tx_update (add_connector (default_card i ws t)))"
proof (rule tx_keeps_update)
  fix d d'
  assume ok: "system_ok d" and add: "add_connector (default_card i ws t) d = Inr d'"
  have d': "d' = d\<lparr>connectors := connectors d @ [default_card i ws t]\<rparr>" and new: "i \<notin> cn_id ` set (connectors d)"
    and ws: "ws \<in> w_id ` set (workspaces d)"
    using add get_by_mem [of cn_id i "connectors d"] get_by_mem [of w_id ws "workspaces d"]
    by (auto simp: add_connector_def default_card_def split: if_splits)
  have "connector_view (default_card i ws t) = Inr (default_card i ws t)"
    by (cases t) (simp_all add: connector_view_def default_card_def)
  then have "connectors_ok d'"
    using ok new ws by (auto simp: system_ok_def connectors_ok_def d' default_card_def)
  then show "system_ok d'" using ok by (simp add: system_ok_def d')
qed

lemma cards_step_system: "tx_keeps system_ok (list_connectors env ws)"
  unfolding list_connectors_def ensure_default_connectors_def
  by (intro inv_intros card_system)

lemma disconnect_step_system: "tx_keeps system_ok (disconnect ws cid)"
  unfolding disconnect_def get_connector_def
  by (intro inv_intros tx_keeps_modify set_connector_system)
    (auto simp: connector_view_def split: if_splits)

lemma save_credential_system:
  assumes "system_ok d" and "cid \<in> cn_id ` set (connectors d)"
  shows "system_ok (save_credential cid enc d)"
proof -
  let ?f = "\<lambda>c. c\<lparr>cc_encrypted_refresh_token := (case enc of None \<Rightarrow> cc_encrypted_refresh_token c | Some b \<Rightarrow> Some b),
               cc_scopes := Some (py_join '' '' scopes)\<rparr>"
  let ?r = "\<lparr>cc_connector_id = cid, cc_encrypted_refresh_token = enc, cc_scopes = Some (py_join '' '' scopes)\<rparr>"
  let ?ccs = "merge_row (\<lambda>c. cc_connector_id c = cid) ?f ?r (connector_credentials d)"
  have "distinct (map cc_connector_id ?ccs)"
    by (rule distinct_merge_row) (use assms(1) in \<open>simp_all add: system_ok_def connectors_ok_def\<close>)
  moreover have "cc_connector_id x \<in> cn_id ` set (connectors d)" if "x \<in> set ?ccs" for x
    using set_merge_row [OF that] assms by (auto simp: system_ok_def connectors_ok_def)
  ultimately have "connectors_ok (save_credential cid enc d)"
    using assms(1) by (simp add: system_ok_def connectors_ok_def save_credential_def)
  then show ?thesis using assms(1) by (simp add: system_ok_def save_credential_def)
qed

text \<open>The callback stores a credential of a connector it found, or nothing.\<close>

definition connected_row :: "('s, 'h) conn_env \<Rightarrow> connector \<Rightarrow> connector" where
  "connected_row env c = c\<lparr>cn_status := conn_status_value Connected,
     cn_last_synced_at := (case cn_last_synced_at c of None \<Rightarrow> Some (ce_now env) | Some t \<Rightarrow> Some t)\<rparr>"

lemma callback_effect:
  assumes "run_connector (oauth_callback env code state) d ou h = (r, h', ou', d')"
  shows "d' = d \<or> (\<exists>cid enc. cid \<in> cn_id ` set (connectors d) \<and>
    d' = set_connector cid (connected_row env) (save_credential cid enc d))"
proof -
  obtain r2 h2 ou2 d2 where run: "run_connector (complete_oauth env code state) d ou h = (r2, h2, ou2, d2)"
    by (metis surj_pair)
  have same: "d' = d2"
    using assms run
    by (auto simp: run_connector_def oauth_callback_def tx_bind_def tx_return_def split: prod.splits sum.splits)
  show ?thesis
    using run unfolding same
    by (auto simp: run_connector_def complete_oauth_def open_session_def ctx_simps connected_row_def [abs_def]
        get_by_mem [symmetric] split: sum.splits option.splits prod.splits)
qed

lemma callback_system:
  assumes "system_ok d" and "run_connector (oauth_callback env code state) d ou h = (r, h', ou', d')"
  shows "system_ok d'"
proof -
  have "system_ok (set_connector cid (connected_row env) (save_credential cid enc d))"
    if "cid \<in> cn_id ` set (connectors d)" for cid enc
    by (rule set_connector_system [OF save_credential_system [OF assms(1) that]])
      (auto simp: connected_row_def connector_view_def split: if_splits)
  then show ?thesis using callback_effect [OF assms(2)] assms(1) by auto
qed

text \<open>A sync works on the documents of its workspace and notes when it ended.\<close>

lemma tx_keeps_conj: "tx_keeps (\<lambda>(d, ou). P d) m \<Longrightarrow> tx_keeps (\<lambda>(d, ou). Q d) m \<Longrightarrow> tx_keeps (\<lambda>(d, ou). P d \<and> Q d) m"
  unfolding tx_keeps_def by (simp add: case_prod_unfold)

interpretation syncs: sync_frame "\<lambda>d. tenant_inv ws V d \<and> beyond_documents d" ws env for ws V env
proof unfold_locales
  fix f :: doc_fields and n :: nat
  assume "df_file_type f \<in> set allowed_types" "df_source_type f \<in> set source_values"
  then show "tx_keeps (\<lambda>(d, ou). tenant_inv ws V d \<and> beyond_documents d) (create_queued_document (file_env env n) ws f)"
    by (intro tx_keeps_conj create_keeps document_requests.created_keeps)
next
  fix d cid t k
  let ?f = "\<lambda>c. c\<lparr>cn_last_synced_at := t, cn_last_sync_document_count := k\<rparr>"
  assume d: "tenant_inv ws V d \<and> beyond_documents d"
  then have "system_ok d" by (simp add: system_split(2) tenant_inv_def)
  then have "system_ok (set_connector cid ?f d)"
    by (rule set_connector_system) (auto simp: connector_view_def split: if_splits)
  moreover have "tenant_inv ws V (set_connector cid ?f d)"
    by (rule tenant_cong [OF conjunct1 [OF d]]) (simp_all add: set_connector_def)
  ultimately show "tenant_inv ws V (set_connector cid ?f d) \<and> beyond_documents (set_connector cid ?f d)"
    by (simp add: system_split(2))
qed

lemma sync_system:
  assumes "system_ok d" and "run_connector (sync env ws cid fids) d ou h = (r, h', ou', d')"
  shows "system_ok d'"
proof -
  have "tenant_inv ws (elsewhere ws d) d \<and> beyond_documents d"
    using assms(1) by (simp add: system_split(2) tenant_inv_def)
  from run_connector_keeps [OF syncs.sync_keeps this assms(2)] show ?thesis
    by (simp add: system_split(2) tenant_inv_def)
qed

subsection \<open>Chats\<close>

lemma conversation_system: "tx_keeps system_ok (tx_update (add_conversation c))"
proof (rule tx_keeps_update)
  fix d d'
  assume ok: "system_ok d" and add: "add_conversation c d = Inr d'"
  then have d': "d' = d\<lparr>conversations := conversations d @ [c]\<rparr>" and "cv_id c \<notin> cv_id ` set (conversations d)"
    "cv_workspace_id c \<in> w_id ` set (workspaces d)" "cv_user_id c \<in> u_id ` set (users d)"
    using get_by_mem [of cv_id "cv_id c" "conversations d"] get_by_mem [of w_id "cv_workspace_id c" "workspaces d"]
      get_by_mem [of u_id "cv_user_id c" "users d"]
    by (auto simp: add_conversation_def split: if_splits)
  then have "chats_ok d'" using ok by (auto simp: system_ok_def chats_ok_def)
  then show "system_ok d'" using ok by (simp add: system_ok_def d')
qed

lemma touch_system:
  assumes "system_ok d"
  shows "system_ok (touch_conversation clock cid query d)"
proof -
  let ?f = "\<lambda>c. c\<lparr>cv_title := (if cv_title c = [] then take 48 query else cv_title c), cv_updated_at := clock\<rparr>"
  let ?cs = "set_rows (\<lambda>c. cv_id c = cid) ?f (conversations d)"
  have "map cv_id ?cs = map cv_id (conversations d)" "cv_id ` set ?cs = cv_id ` set (conversations d)"
    by (simp_all add: set_rows_key set_rows_image)
  moreover have "cv_workspace_id c \<in> w_id ` set (workspaces d) \<and> cv_user_id c \<in> u_id ` set (users d)" if "c \<in> set ?cs" for c
    using assms set_rows_mem [OF that] by (auto simp: system_ok_def chats_ok_def)
  ultimately have "chats_ok (d\<lparr>conversations := ?cs\<rparr>)"
    using assms by (simp add: system_ok_def chats_ok_def)
  then show ?thesis using assms by (simp add: system_ok_def touch_conversation_def)
qed

lemma message_system:
  assumes "message_view m = Inr v"
  shows "tx_keeps system_ok (tx_update (add_message m))"
proof (rule tx_keeps_update)
  fix d d'
  assume ok: "system_ok d" and add: "add_message m d = Inr d'"
  then have d': "d' = d\<lparr>chat_messages := chat_messages d @ [m]\<rparr>" and "cm_id m \<notin> cm_id ` set (chat_messages d)"
    "cm_conversation_id m \<in> cv_id ` set (conversations d)" "cm_workspace_id m \<in> w_id ` set (workspaces d)"
    using get_by_mem [of cm_id "cm_id m" "chat_messages d"] get_by_mem [of cv_id "cm_conversation_id m" "conversations d"]
      get_by_mem [of w_id "cm_workspace_id m" "workspaces d"]
    by (auto simp: add_message_def split: if_splits)
  then have "chats_ok d'" using ok assms by (auto simp: system_ok_def chats_ok_def)
  then show "system_ok d'" using ok by (simp add: system_ok_def d')
qed

definition evidence_ok :: "evidence_chunk list \<Rightarrow> bool" where
  "evidence_ok ev \<longleftrightarrow> (\<forall>e \<in> set ev. ev_source_type e \<in> set source_values)"

lemma persist_system:
  assumes "evidence_ok ev"
  shows "tx_keeps system_ok (persist env ws user cid query answer conf ev ids)"
proof -
  have rows: "tx_keeps system_ok (tx_update (add_message (question_row env ws c query)))"
    "tx_keeps system_ok (tx_update (add_message (answer_row env ws c answer conf ev ids)))" for c
    by (rule message_system, use assms in \<open>simp add: message_view_def question_row_def answer_row_def evidence_ok_def\<close>)+
  show ?thesis
    unfolding persist_def find_or_create_def Let_def
    by (intro inv_intros rows conversation_system tx_keeps_modify touch_system)
qed

lemma prepared_evidence_ok:
  assumes "prepare_answer env vs g ws query cid d gw = (Inr pr, gw')"
  shows "evidence_ok (pr_evidence pr)"
proof -
  obtain used where "evidence_list used = Inr (pr_evidence pr)"
    using assms by (auto simp: prepare_answer_def Let_def map_sum_def split: prod.splits sum.splits)
  then show ?thesis
    by (auto simp: evidence_ok_def evidence_list_def evidence_of_def dest!: res_map_mem split: pyval.splits prod.splits bool.splits if_splits)
qed

lemma own_session_keeps: "tx_keeps P m \<Longrightarrow> P d \<Longrightarrow> P (snd (own_session m d))"
  unfolding tx_keeps_def own_session_def by (simp add: case_prod_unfold)

lemma stored_system:
  assumes "prepare_answer env vs g ws query cid d gw = (Inr pr, gw1)" and "system_ok d2"
  shows "system_ok (snd (own_session (persist env ws user cid query answer (pr_confidence pr) (pr_evidence pr)
    (pr_chunk_ids pr)) d2))"
  by (rule own_session_keeps [OF persist_system [OF prepared_evidence_ok [OF assms(1)]] assms(2)])

lemma stream_system:
  assumes "\<And>d. system_ok d \<Longrightarrow> system_ok (meanwhile d)" and "system_ok d"
  shows "system_ok (stream_meanwhile env vs g ws user query cid gw meanwhile d)"
proof -
  obtain r gw1 where prep: "prepare_answer env vs g ws query cid d gw = (r, gw1)" by fastforce
  show ?thesis
  proof (cases r)
    case (Inl e)
    then show ?thesis using prep assms by (simp add: stream_meanwhile_def)
  next
    case (Inr pr)
    obtain parts failure gw2 where str: "stream_llm (ch_cfg env) (ch_provider env) (pr_messages pr)
        (cp_temperature default_params) ws ''chat'' (pr_chat_model pr) None gw1 = ((parts, failure), gw2)"
      by (metis surj_pair)
    then show ?thesis
      using stored_system [OF prep [unfolded Inr] assms(1) [OF assms(2)]] prep Inr assms
      by (cases failure) (simp_all add: stream_meanwhile_def)
  qed
qed

lemma answer_system:
  assumes "\<And>d. system_ok d \<Longrightarrow> system_ok (meanwhile d)" and "system_ok d"
  shows "system_ok (answer_meanwhile env vs g p query cid gw meanwhile d)"
proof -
  obtain r gw1 where prep: "prepare_answer env vs g (p_workspace_id p) query cid d gw = (r, gw1)" by fastforce
  show ?thesis
  proof (cases r)
    case (Inl e)
    then show ?thesis using prep assms by (simp add: answer_meanwhile_def)
  next
    case r: (Inr pr)
    obtain x gw2 where call: "call_llm (ch_cfg env) (ch_provider env) (pr_messages pr) default_params (p_workspace_id p)
        ''chat'' (pr_chat_model pr) None gw1 = (x, gw2)" by fastforce
    show ?thesis
    proof (cases x)
      case (Inl e)
      then show ?thesis using prep r call assms by (simp add: answer_meanwhile_def)
    next
      case (Inr result)
      obtain y d2 where own: "own_session (persist env (p_workspace_id p) (p_user_id p) cid query (lr_content result)
          (pr_confidence pr) (pr_evidence pr) (pr_chunk_ids pr)) (meanwhile d) = (y, d2)" by fastforce
      have "system_ok d2"
        using stored_system [OF prep [unfolded r] assms(1) [OF assms(2)], of "p_user_id p" "lr_content result"] own by simp
      then show ?thesis using prep r call Inr own
        by (cases y) (simp_all add: answer_meanwhile_def get_db_keeps call_log_system)
    qed
  qed
qed

text \<open>Every operation keeps every table in order, whatever happens in the middle of it.\<close>

lemma system_step_ok: "system_ok d \<Longrightarrow> system_ok (system_step x d)"
proof (induction x arbitrary: d)
  case (AccountOp cfg cy x)
  then show ?case by (simp add: accounts_step_system)
next
  case (KeyOp cfg cy x)
  then show ?case by (simp add: key_step_system)
next
  case (SettingsOp ws p)
  then show ?case by (simp add: settings_step_system)
next
  case (DocumentOp env p req ou)
  then show ?case
    using document_step_system [of d env p req ou] by (simp, metis surj_pair snd_conv)
next
  case (CardsOp env ws)
  then show ?case by (simp add: get_db_keeps cards_step_system)
next
  case (CallbackOp env code state ou h)
  then show ?case using callback_system [of d env code state ou h] by (simp, metis surj_pair snd_conv)
next
  case (SyncOp env ws cid fids ou h)
  then show ?case using sync_system [of d env ws cid fids ou h] by (simp, metis surj_pair snd_conv)
next
  case (DisconnectOp ws cid)
  then show ?case by (simp add: get_db_keeps disconnect_step_system)
next
  case (CallOp now p endpoint)
  then show ?case by (simp add: get_db_keeps call_log_system)
next
  case (StreamOp env vs g ws user query cid gw ops)
  have run: "system_ok (foldl (\<lambda>d f. f d) d (map system_step xs))" if "set xs \<subseteq> set ops" "system_ok d" for xs d
    using that StreamOp.IH by (induction xs arbitrary: d) auto
  then show ?case using StreamOp.prems by (simp add: stream_system)
next
  case (AnswerOp env vs g p query cid gw ops)
  have run: "system_ok (foldl (\<lambda>d f. f d) d (map system_step xs))" if "set xs \<subseteq> set ops" "system_ok d" for xs d
    using that AnswerOp.IH by (induction xs arbitrary: d) auto
  then show ?case using AnswerOp.prems by (simp add: answer_system)
next
  case (IngestOp env doc_id sv ops)
  have run: "system_ok (foldl (\<lambda>d f. f d) d (map system_step xs))" if "set xs \<subseteq> set (ops n)" "system_ok d" for xs d n
    using that IngestOp.IH [OF rangeI] by (induction xs arbitrary: d) auto
  let ?env = "env\<lparr>ie_others := \<lambda>n d. foldl (\<lambda>d f. f d) d (map system_step (ops n))\<rparr>"
  obtain r sv' d' where ing: "ingest_run ?env doc_id sv d = (r, sv', d')" by (metis surj_pair)
  have "system_ok d'" by (rule ingestion_system [OF _ IngestOp.prems ing]) (simp, rule run [OF subset_refl])
  then show ?case by (simp add: ing)
qed

interpretation machine: guarded_steps "\<lambda>d x. system_step x d" system_ok
  by unfold_locales (rule system_step_ok)

definition system_run :: "('z, 's, 'h, 'q, 'w) system_op list \<Rightarrow> db" where
  "system_run ops = foldl (\<lambda>d x. system_step x d) empty_db ops"

text \<open>
  C1: The database of the whole backend stays in order: after any sequence of account, key, settings,
  document, connector and call-log operations, chats and ingestions on an empty database, by any
  principals, with anything answered by the outside world and anything happening in the middle of a chat
  or an ingestion: keys are unique; memberships, chunks, jobs, errors, conversations, messages, connectors
  and credentials refer to rows that exist; every enum column holds one of its values; every setting
  is in its range; and every workspace has an administrator.
\<close>

theorem system_stays_ok: "system_ok (system_run ops)"
  unfolding system_run_def by (rule machine.run_inv) (rule tables_empty)

subsection \<open>Reading what is stored\<close>

lemma res_map_total: "(\<And>x. x \<in> set xs \<Longrightarrow> \<exists>y. f x = Inr y) \<Longrightarrow> \<exists>ys. res_map f xs = Inr ys"
proof (induction xs)
  case (Cons x xs)
  then obtain y ys where "f x = Inr y" "res_map f xs = Inr ys" by (meson list.set_intros)
  then show ?case by simp
qed simp

lemma get_db_query: "get_db (tx_query q) d = (q d, d)"
  by (simp add: get_db_def tx_query_def split: sum.split)

lemma users_readable: "accounts_ok d \<Longrightarrow> \<exists>r. get_db (list_users ws) d = (Inr r, d)"
proof -
  assume ok: "accounts_ok d"
  let ?f = "\<lambda>(u, m). make_user_out u (m_role m)"
  let ?rows = "concat (map (\<lambda>u. map (\<lambda>m. (u, m)) (filter (\<lambda>m. m_user_id m = u_id u \<and> m_workspace_id m = ws) (members d))) (users d))"
  have "\<exists>r. res_map ?f ?rows = Inr r"
    by (rule res_map_total) (use ok in \<open>auto simp: accounts_ok_def valid_role_def make_user_out_def role_of_def\<close>)
  then show ?thesis by (auto simp: list_users_def get_db_query)
qed

lemma keys_readable: "scopes_ok d \<Longrightarrow> \<exists>r. get_db (list_keys ws) d = (Inr r, d)"
proof -
  assume ok: "scopes_ok d"
  let ?rows = "sort_key (\<lambda>k. - k_created_at k) (filter (\<lambda>k. k_workspace_id k = ws \<and> \<not> k_revoked k) (api_keys d))"
  have "\<exists>r. res_map key_out ?rows = Inr r"
  proof (rule res_map_total)
    fix k assume "k \<in> set ?rows"
    then have "k \<in> set (api_keys d)" by simp
    then obtain sc where "k_scope k = scope_value sc" using ok unfolding scopes_ok_def by blast
    then show "\<exists>v. key_out k = Inr v" by (cases sc) (simp_all add: key_out_def scope_of_def)
  qed
  then show ?thesis by (auto simp: list_keys_def get_db_query)
qed

lemma cards_readable: "connectors_ok d \<Longrightarrow> \<exists>r. res_map connector_view (cards ws d) = Inr r"
  by (rule res_map_total) (auto simp: connectors_ok_def cards_def)

lemma page_readable:
  assumes "docs_ok d" and "get_db (list_documents coll ws q) d = (Inr (rows, n), d')"
  shows "\<exists>r. res_map document_view rows = Inr r"
proof (rule res_map_total)
  fix x assume "x \<in> set rows"
  then have "x \<in> set (sorted_documents coll q (filter (selects ws q) (documents d)))"
    using assms(2) by (auto simp: list_documents_def get_db_query Let_def split: if_splits dest!: in_set_takeD in_set_dropD)
  then have "x \<in> set (documents d)"
    by (auto simp: sorted_documents_def order_by_def Let_def split: if_splits)
  then show "\<exists>v. document_view x = Inr v" using assms(1) valid_view by (simp add: docs_ok_def)
qed

lemma dashboard_readable: "docs_ok d \<Longrightarrow> \<exists>r. get_db (build_dashboard now ws) d = (Inr r, d)"
proof -
  assume ok: "docs_ok d"
  have row: "valid_doc r" if "r \<in> set (recent_documents ws d)" for r
    using ok recent_mem [OF that] by (simp add: docs_ok_def)
  obtain events where "res_map activity_of (recent_documents ws d) = Inr events"
    using res_map_total [of "recent_documents ws d" activity_of] activity_of_valid row by blast
  moreover obtain views where "res_map document_view (take 10 (recent_documents ws d)) = Inr views"
    using res_map_total [of "take 10 (recent_documents ws d)" document_view] valid_view row in_set_takeD by metis
  ultimately show ?thesis by (simp add: build_dashboard_def get_db_query)
qed

lemma messages_readable:
  assumes "chats_ok d"
  shows "\<exists>r. res_map message_view (rev (newest (sort_key rank) limit cid d)) = Inr r"
proof (rule res_map_total)
  fix m assume "m \<in> set (rev (newest (sort_key rank) limit cid d))"
  then have "m \<in> set (chat_messages d)" by (auto simp: newest_def dest!: in_set_takeD)
  then show "\<exists>v. message_view m = Inr v" using assms by (simp add: chats_ok_def)
qed

lemma settings_readable:
  assumes "accounts_ok d" and "settings_ok d" and "get_by w_id ws (workspaces d) = Some w"
  shows "\<exists>org. get_by o_id (w_organization_id w) (organizations d) = Some org \<and> (\<exists>s. to_settings w org = Inr s)"
proof -
  have w: "w \<in> set (workspaces d)" using get_by_Some [OF assms(3)] by simp
  then have "get_by o_id (w_organization_id w) (organizations d) \<noteq> None"
    unfolding get_by_mem using assms(1) by (simp add: accounts_ok_def)
  then show ?thesis using w assms(2) by (auto simp: settings_ok_def settings_in_range_def to_settings_def)
qed

lemma messages_answer:
  assumes "chats_ok d"
  shows "case fst (get_db (get_messages (sort_key rank) ws cid limit) d) of
      Inl e \<Rightarrow> e = raise_app NotFoundError ''Conversation not found''
    | Inr ms \<Rightarrow> length ms \<le> nat (max 1 limit)"
proof -
  have len: "length r = length xs" if "res_map f xs = Inr r" for f :: "chat_message \<Rightarrow> exn + message_out" and xs r
    using that by (induction xs arbitrary: r) (auto split: sum.splits simp: map_sum_def)
  obtain r where r: "res_map message_view (rev (newest (sort_key rank) limit cid d)) = Inr r"
    using messages_readable [OF assms] by blast
  then have "length r \<le> nat (max 1 limit)" using len [OF r] by (simp add: newest_def)
  then show ?thesis using r by (simp add: get_messages_def get_db_query split: option.split)
qed

lemma settings_answer:
  assumes "accounts_ok d" and "settings_ok d"
  shows "case fst (get_db (get_settings ws) d) of
      Inl e \<Rightarrow> e = raise_app NotFoundError ''Workspace not found''
    | Inr s \<Rightarrow> so_chat_model s \<in> set chat_models \<and> 5 \<le> so_chat_top_k s \<and> so_chat_top_k s \<le> 25"
proof (cases "get_by w_id ws (workspaces d)")
  case None
  then show ?thesis by (simp add: get_settings_def load_workspace_def get_db_def tx_simps)
next
  case (Some w)
  obtain org s where org: "get_by o_id (w_organization_id w) (organizations d) = Some org" "to_settings w org = Inr s"
    using settings_readable [OF assms Some] by blast
  have "settings_in_range w" using get_by_Some [OF Some] assms(2) by (simp add: settings_ok_def)
  then have "so_chat_model s \<in> set chat_models \<and> 5 \<le> so_chat_top_k s \<and> so_chat_top_k s \<le> 25"
    using org(2) by (auto simp: to_settings_def settings_in_range_def)
  then show ?thesis using Some org by (simp add: get_settings_def load_workspace_def get_db_def tx_simps)
qed

lemma page_answer:
  assumes "docs_ok d"
  shows "case fst (get_db (list_documents coll ws q) d) of
      Inl e \<Rightarrow> lq_page q < 1
    | Inr (rows, n) \<Rightarrow> \<exists>views. res_map document_view rows = Inr views"
proof -
  obtain r where run: "get_db (list_documents coll ws q) d = (r, d)"
    by (simp add: list_documents_def Let_def get_db_query)
  show ?thesis
  proof (cases r)
    case (Inl e)
    have "0 < max 1 (min (lq_limit q) 200)" by simp
    then have "lq_page q - 1 < 0"
      using run Inl by (auto simp: list_documents_def Let_def get_db_query mult_less_0_iff split: if_splits)
    then show ?thesis using run Inl by simp
  next
    case (Inr x)
    then show ?thesis using run page_readable [OF assms] by (cases x) auto
  qed
qed

text \<open>
  C2: What the backend stored it can show: on every database it can come to, the lists of users, of keys
  and of connectors and the dashboard answer; a page of documents is refused only for its number, and each
  of its rows has a view; the messages of a conversation and the settings of a workspace answer or are
  not found, the messages within the limit, the settings within their ranges. No stored row makes a
  response model fail.
\<close>

theorem stored_rows_readable:
  "let d = system_run ops in
     (\<exists>r. get_db (list_users ws) d = (Inr r, d)) \<and> (\<exists>r. get_db (list_keys ws) d = (Inr r, d)) \<and>
     (\<exists>r. get_db (build_dashboard now ws) d = (Inr r, d)) \<and> (\<exists>r. res_map connector_view (cards ws d) = Inr r) \<and>
     (case fst (get_db (list_documents coll ws q) d) of
        Inl e \<Rightarrow> lq_page q < 1 | Inr (rows, n) \<Rightarrow> \<exists>views. res_map document_view rows = Inr views) \<and>
     (case fst (get_db (get_messages (sort_key rank) ws cid limit) d) of
        Inl e \<Rightarrow> e = raise_app NotFoundError ''Conversation not found'' | Inr ms \<Rightarrow> length ms \<le> nat (max 1 limit)) \<and>
     (case fst (get_db (get_settings ws) d) of
        Inl e \<Rightarrow> e = raise_app NotFoundError ''Workspace not found''
      | Inr s \<Rightarrow> so_chat_model s \<in> set chat_models \<and> 5 \<le> so_chat_top_k s \<and> so_chat_top_k s \<le> 25)"
proof -
  have ok: "system_ok (system_run ops)"
    unfolding system_run_def by (rule machine.run_inv) (rule tables_empty)
  then show ?thesis
    unfolding system_ok_def Let_def
    by (intro conjI users_readable keys_readable dashboard_readable cards_readable page_answer messages_answer
        settings_answer) simp_all
qed

end
