(* ===== verification/Spec2Isabelle.thy ===== *)
theory Spec2Isabelle
  imports Openai Admin_Api Search Chat_Stream System
begin

text \<open>
  A verification library of the Keel backend (\<^verbatim>\<open>src/backend\<close>): a multi-tenant service that takes
  documents in, cuts them into chunks, embeds them into a vector store and a graph, and answers
  searches and chats from them.

  \<^bold>\<open>The parts and how they interact.\<close> Every HTTP request runs in a database session that commits when
  the handler returns and rolls back when it raises (\<open>get_db\<close>); it names its caller by a JWT or an API key
  (\<open>Deps\<close>), and every exception leaves through one error envelope (\<open>Errors\<close>). Account requests change
  users, organizations, memberships and refresh tokens. Uploads and connector syncs write an object to
  the storage, add a queued document and put a message on the broker's queue; the worker takes the
  message, and parses, tags, chunks, embeds and links the document, committing after each step, so that
  other requests interleave with it. Retrieval reads what the worker wrote to the vector store and the
  graph; search and chat read through retrieval, and a chat stores its turns in a session of its own.

  \<^bold>\<open>Theories.\<close> Names are those of the source unless HOL has them already.

  \<^item> \<open>Prelude\<close>: Python's \<open>str\<close> methods, \<open>round\<close>, sessions (\<open>'s db_tx\<close>, a step on the committed and the
    open state; \<^verbatim>\<open>core/database.py\<close>), and the locale \<open>guarded_steps\<close> for runs of operations that
    keep an invariant. The collections of rules for what a session keeps, how it ends and what it frames
    carry most proofs about requests.
  \<^item> \<open>Errors\<close>: \<^verbatim>\<open>core/errors.py\<close>, the handlers of \<^verbatim>\<open>main.py\<close>, \<^verbatim>\<open>core/middleware.py\<close>.
    \<open>Config\<close>: \<^verbatim>\<open>core/config.py\<close>. \<open>Models\<close>: \<^verbatim>\<open>models/*.py\<close>, one record per table.
    \<open>Rate_Limit\<close>: \<^verbatim>\<open>core/rate_limit.py\<close>. \<open>Security\<close>: \<^verbatim>\<open>core/security.py\<close>.
  \<^item> \<open>Auth\<close>, \<open>Accounts\<close>, \<open>Deps\<close>, \<open>Api_Keys\<close>: \<^verbatim>\<open>services/auth_service.py\<close>,
    \<^verbatim>\<open>services/user_service.py\<close>, \<^verbatim>\<open>core/deps.py\<close>, \<^verbatim>\<open>services/apikey_service.py\<close> with their routes.
    The runs of all account requests and of all key requests keep the tables consistent, an
    administrator in every workspace, and used tokens and revoked keys dead. \<open>Admin_Api\<close>:
    \<^verbatim>\<open>api/admin_users.py\<close>, who reaches the user administration and what it answers, and
    \<^verbatim>\<open>scripts/seed_admin.py\<close>, which creates its account once.
  \<^item> \<open>Gateway\<close>: \<^verbatim>\<open>services/llm_gateway.py\<close>, \<^verbatim>\<open>services/usage.py\<close>: retry, token bucket, one
    usage row per call. \<open>Openai\<close>: \<^verbatim>\<open>services/providers/openai.py\<close>, whose client is made at the first
    call and kept; a client made at every call gives the same answers, and without a key none is ever
    made. \<open>AI_Extract\<close>: \<^verbatim>\<open>services/tagging_service.py\<close>, \<^verbatim>\<open>services/ner.py\<close>.
  \<^item> \<open>Doc_Parsing\<close>, \<open>Chunk\<close>: \<^verbatim>\<open>services/parsing.py\<close>, \<^verbatim>\<open>services/chunking.py\<close>.
    \<open>Vector_Store\<close>, \<open>Graph_Store\<close>, \<open>Storage\<close>: the three adapters of \<^verbatim>\<open>stores/\<close>, each with laws of
    its external client where it has one. \<open>Retrieval\<close>: \<^verbatim>\<open>services/retrieval_service.py\<close>.
  \<^item> \<open>Ingestion\<close>, \<open>Ingest_Outcomes\<close>: \<^verbatim>\<open>ingestion/worker_flow.py\<close> and \<^verbatim>\<open>ingestion/tasks.py\<close>. The locale
    \<open>worker_full\<close> proves once what any relation between databases needs in order to survive an ingestion
    and everything that interleaves with it.
  \<^item> \<open>Documents\<close>, \<open>Uploads\<close>, \<open>Document_Laws\<close>, \<open>Text_Ingestion\<close>: \<^verbatim>\<open>services/document_service.py\<close>,
    \<^verbatim>\<open>api/ingest.py\<close>, \<^verbatim>\<open>api/documents.py\<close>, and the way of a text from its request to its chunks.
  \<^item> \<open>Google_Drive\<close>, \<open>Connectors\<close>, \<open>Connector_Laws\<close>: \<^verbatim>\<open>connectors/google_drive.py\<close>,
    \<^verbatim>\<open>services/connector_service.py\<close>, \<^verbatim>\<open>api/connectors.py\<close>.
  \<^item> \<open>Chat\<close>, \<open>Chat_Laws\<close>, \<open>Chat_Stream\<close>: \<^verbatim>\<open>services/chat_service.py\<close>, \<^verbatim>\<open>api/chat.py\<close>,
    \<^verbatim>\<open>api/conversations.py\<close>. \<open>Search\<close>: \<^verbatim>\<open>api/search.py\<close>. \<open>Settings_Service\<close>:
    \<^verbatim>\<open>services/settings_service.py\<close>. \<open>Dashboard\<close>: \<^verbatim>\<open>services/dashboard_service.py\<close>.
  \<^item> \<open>Frames\<close>: which tables the operations of each component leave alone, with a locale for each group
    of components that work beside the others. \<open>System\<close>: all operations of all components as one machine
    over the database. A request is one atomic step; a chat and an ingestion, which commit in the middle,
    carry what happens to the database meanwhile. Every run keeps every component's invariant, and the
    rows it leaves are rows the program can read back.

  \<^bold>\<open>External code.\<close> What is not under \<^verbatim>\<open>src/\<close> is an argument of the definitions that use it: Redis,
  bcrypt, SHA-256, HMAC, Fernet and PyJWT, the model provider, tiktoken, Docling, Qdrant, boto3, HTTP to
  Google, Celery, \<open>json.loads\<close>. Their documented laws are locales or named predicates
  (\<open>zset_laws\<close>, \<open>crypto_laws\<close>, \<open>qdrant_laws\<close> and so on), each with an instance that satisfies it. Fresh ids,
  salts and the clock are arguments too.

  \<^bold>\<open>How far the model is the program.\<close> A \<open>str\<close> is a HOL string, so its code points are those of Latin-1;
  PostgreSQL's refusal of NUL characters is not modelled. A \<open>float\<close> is a rational with exact
  arithmetic. A table is a list in insertion order; ties of an \<open>ORDER BY\<close> keep that order in listings, and
  the tie between the two rows of a chat turn, which the program cannot avoid, is the parameter \<open>ch_plan\<close>. A
  row's \<open>updated_at\<close> is its creation time. Text columns are sorted by a collation key that is a
  parameter where it matters. Constraints are checked where a row is added or flushed. Usage rows are a
  list of the gateway, beside the database. A client that disconnects in the middle of a stream, disk
  errors of the local storage and the timings in a search response are left out. The calendar of the
  dashboard is the civil calendar from 1970.

  \<^bold>\<open>Bounds and fuel.\<close> Loops of the source are structural recursion or have a measure. The retry loop
  runs over the list of its three attempts, a Celery task over its four; the text splitter recurses on the
  words that remain, and hexadecimal numerals of ids take 32 digits, which covers 128 bits. No property
  depends on a fuel that could run out.

  \<^bold>\<open>Not modelled.\<close> Logging (\<^verbatim>\<open>core/logging.py\<close>) has no effect the program reads. The lifespan,
  CORS and health probes of \<^verbatim>\<open>main.py\<close>, \<^verbatim>\<open>startup.py\<close>, engine construction and
  \<^verbatim>\<open>ingestion/worker.py\<close> only configure libraries; \<^verbatim>\<open>api/mcp.py\<close> answers a constant, and
  \<^verbatim>\<open>services/providers/__init__.py\<close> picks the only provider. The success envelopes of
  \<^verbatim>\<open>schemas/common.py\<close> wrap an answer without changing it. Migrations, tests and the scripts other
  than \<^verbatim>\<open>seed_admin.py\<close> are no part of the running program.
\<close>

end
